(* ===== verification/Prelude.thy ===== *)
theory Prelude
  imports Main "HOL-Library.Word" "HOL-Library.Sublist" "HOL-Library.List_Lexorder"
    "HOL-Library.Char_ord"
begin

text \<open>
  Shared vocabulary of the development: Go's sized integers as words, byte slices as lists of
  8-bit words, strings as HOL strings (a Go string is a sequence of bytes, as a HOL string is),
  the little-endian integer encoding of \<^verbatim>\<open>encoding/binary\<close>, and the generic facts on words, lists and
  results that several components use.
\<close>

unbundle bit_operations_syntax

subsection \<open>Types\<close>

type_synonym byte = "8 word"
type_synonym u32 = "32 word"
type_synonym u64 = "64 word"
type_synonym bytes = "byte list"

named_theorems le_simps \<open>length and round-trip rules of the little-endian encoding\<close>

subsection \<open>Little-endian integers\<close>

text \<open>
  \<^verbatim>\<open>binary.LittleEndian.PutUint32\<close> and \<^verbatim>\<open>PutUint64\<close> write the least significant byte first; \<^verbatim>\<open>Uint32\<close> and
  \<^verbatim>\<open>Uint64\<close> combine the bytes with shifts and ors. Both are the same recursion at different widths.
\<close>

primrec le_put :: "nat \<Rightarrow> 'a::len word \<Rightarrow> bytes" where
  "le_put 0 w = []"
| "le_put (Suc n) w = ucast w # le_put n (drop_bit 8 w)"

primrec le_get :: "bytes \<Rightarrow> 'a::len word" where
  "le_get [] = 0"
| "le_get (b # bs) = ucast b OR push_bit 8 (le_get bs)"

text \<open>Go's \<^verbatim>\<open>int\<close> arithmetic wraps around at 64 bits.\<close>

definition wrap_int :: "int \<Rightarrow> int" where
  "wrap_int x = (x + 2 ^ 63) mod 2 ^ 64 - 2 ^ 63"

subsection \<open>Decimal numbers\<close>

text \<open>\<^verbatim>\<open>strconv.Itoa\<close> and the \<^verbatim>\<open>%d\<close> verb: decimal digits without leading zeros, a minus sign when negative.\<close>

definition digit_char :: "nat \<Rightarrow> char" where
  "digit_char d = char_of (48 + d)"

fun show_nat :: "nat \<Rightarrow> string" where
  "show_nat n = (if n < 10 then [digit_char n] else show_nat (n div 10) @ [digit_char (n mod 10)])"

declare show_nat.simps [simp del]

definition show_int :: "int \<Rightarrow> string" where
  "show_int i = (if i < 0 then CHR ''-'' # show_nat (nat (- i)) else show_nat (nat i))"

lemma show_nat_not_Nil [simp]: "show_nat n \<noteq> []"
  by (subst show_nat.simps) simp

subsection \<open>Strings and byte slices\<close>

text \<open>The conversions \<^verbatim>\<open>[]byte(s)\<close> and \<^verbatim>\<open>string(b)\<close>.\<close>

definition str :: "string \<Rightarrow> bytes" where "str s = map of_char s"

definition text_of :: "bytes \<Rightarrow> string" where "text_of bs = map (\<lambda>b. char_of (unat b)) bs"

lemma text_of_str [simp]: "text_of (str s) = s"
proof -
  have "char_of (unat (of_char c :: byte)) = c" for c
  proof -
    have "unat (of_nat (of_char c) :: byte) = of_char c"
      by (simp add: unat_of_nat take_bit_eq_mod char_of_eq_iff)
    then show ?thesis by (simp add: of_nat_of_char)
  qed
  then show ?thesis
    by (simp add: text_of_def str_def comp_def)
qed

subsection \<open>Facts on the encodings\<close>

lemma length_le_put [simp, le_simps]: "length (le_put n w) = n"
  by (induction n arbitrary: w) auto

lemma take_bit_8_split:
  "take_bit 8 w OR push_bit 8 (take_bit k (drop_bit 8 w)) = take_bit (8 + k) (w :: 'a::len word)"
  by (rule bit_word_eqI) (auto simp: bit_simps)

lemma ucast_byte_eq_take_bit: "(ucast (ucast w :: byte) :: 'a::len word) = take_bit 8 w"
  by (rule bit_word_eqI) (auto simp: bit_simps)

lemma le_get_le_put: "le_get (le_put n w) = take_bit (8 * n) (w :: 'a::len word)"
proof (induction n arbitrary: w)
  case 0
  show ?case by simp
next
  case (Suc n)
  have "le_get (le_put (Suc n) w)
      = take_bit 8 w OR push_bit 8 (take_bit (8 * n) (drop_bit 8 w))"
    by (simp add: Suc.IH ucast_byte_eq_take_bit)
  also have "\<dots> = take_bit (8 + 8 * n) w"
    by (rule take_bit_8_split)
  finally show ?case by simp
qed

lemma le_get_le_put_u32 [simp, le_simps]: "le_get (le_put 4 w) = (w :: u32)"
  by (simp add: le_get_le_put take_bit_word_eq_self)

lemma le_get_le_put_u64 [simp, le_simps]: "le_get (le_put 8 w) = (w :: u64)"
  by (simp add: le_get_le_put take_bit_word_eq_self)

lemma ucast_low_byte:
  assumes "8 \<le> LENGTH('a::len)"
  shows "(ucast (ucast b OR push_bit 8 (w :: 'a word)) :: byte) = b"
  using assms by (intro bit_word_eqI) (auto simp: bit_simps)

lemma drop_low_byte:
  assumes "8 \<le> LENGTH('a::len)" and "take_bit (LENGTH('a) - 8) w = (w :: 'a word)"
  shows "drop_bit 8 (ucast (b :: byte) OR push_bit 8 w) = w"
proof (rule bit_word_eqI)
  fix n
  assume n: "n < LENGTH('a)"
  have "bit w n \<longleftrightarrow> n < LENGTH('a) - 8 \<and> bit w n"
    using assms(2) by (metis bit_take_bit_iff)
  then show "bit (drop_bit 8 (ucast b OR push_bit 8 w)) n \<longleftrightarrow> bit w n"
    using n assms(1) by (auto simp: bit_simps dest: bit_imp_le_length)
qed

lemma take_bit_widen: "take_bit m w = w \<Longrightarrow> m \<le> n \<Longrightarrow> take_bit n w = (w :: 'a::len word)"
  by (metis min.absorb2 take_bit_take_bit)

lemma word_xor_cancel: "a XOR c = b XOR c \<Longrightarrow> a = (b :: 'a::len word)"
  by (auto simp: bit_eq_iff bit_xor_iff)

lemma word_or_push_byte:
  "ucast (b :: byte) OR push_bit 8 w = ucast b XOR (push_bit 8 w :: 'a::len word)"
  by (rule bit_word_eqI) (auto simp: bit_simps dest: bit_imp_le_length)

lemma le_get_bound: "take_bit (8 * length bs) (le_get bs) = (le_get bs :: 'a::len word)"
proof (induction bs)
  case Nil
  show ?case by simp
next
  case (Cons b bs)
  have b: "take_bit (8 + 8 * length bs) (ucast b) = (ucast b :: 'a word)"
    by (rule bit_word_eqI) (auto simp: bit_simps dest: bit_imp_le_length)
  have "take_bit (8 + 8 * length bs) (push_bit 8 (le_get bs))
      = push_bit 8 (take_bit (8 * length bs) (le_get bs :: 'a word))"
    by (rule bit_word_eqI) (auto simp: bit_simps)
  with b Cons.IH show ?case
    by simp
qed

lemma le_put_le_get:
  assumes "8 * length bs \<le> LENGTH('a::len)"
  shows "le_put (length bs) (le_get bs :: 'a word) = bs"
  using assms
proof (induction bs)
  case Nil
  show ?case by simp
next
  case (Cons b bs)
  have w: "take_bit (LENGTH('a) - 8) (le_get bs) = (le_get bs :: 'a word)"
    by (rule take_bit_widen [OF le_get_bound]) (use Cons.prems in simp)
  with Cons show ?case
    by (simp add: ucast_low_byte drop_low_byte del: drop_bit_or)
qed

lemma le_put_le_get_4: "length bs = 4 \<Longrightarrow> le_put 4 (le_get bs :: u32) = bs"
  using le_put_le_get [of bs, where 'a = 32] by simp

lemma le_put_le_get_8: "length bs = 8 \<Longrightarrow> le_put 8 (le_get bs :: u64) = bs"
  using le_put_le_get [of bs, where 'a = 64] by simp

subsection \<open>Prefixes\<close>

lemma take_prefix_same: "prefix p xs \<Longrightarrow> k \<le> length p \<Longrightarrow> take k p = take k xs"
  by (auto elim: prefixE)

lemma strict_prefix_take: "k < length xs \<Longrightarrow> strict_prefix (take k xs) xs"
  by (metis length_take min.absorb4 nat_neq_iff strict_prefix_def take_is_prefix)

lemma split_first_unique:
  "a @ x # b = c @ x # d \<Longrightarrow> x \<notin> set a \<Longrightarrow> x \<notin> set c \<Longrightarrow> a = c \<and> b = d"
proof (induction a arbitrary: c)
  case Nil
  then show ?case by (cases c) auto
next
  case (Cons y a)
  then show ?case by (cases c) auto
qed

subsection \<open>Association lists\<close>

lemma map_of_filter_neq: "map_of (filter (\<lambda>p. fst p \<noteq> k) kvs) = (map_of kvs)(k := None)"
  by (induction kvs) (auto simp: fun_eq_iff)

end
