(* ===== verification/Kverr.thy ===== *)
theory Kverr
  imports Prelude
begin

text \<open>
  Package \<^verbatim>\<open>internal/kverr\<close>: the one error type of the system. A reason is a stable string, registered
  once with its kind, its retryability and a description; \<^verbatim>\<open>New\<close>, \<^verbatim>\<open>Newf\<close> and \<^verbatim>\<open>Wrap\<close> are the only ways to
  build an error, the \<^verbatim>\<open>With*\<close> methods return changed copies, and \<^verbatim>\<open>ReasonOf\<close> classifies any error chain.
  The model keeps Go's error interface as a datatype of the implementations that reach this code:
  the package's own errors (and its typed nil pointer), sentinel values, formatted and wrapped
  errors, joined errors and operating-system errors. \<^verbatim>\<open>errors.Is\<close>, \<^verbatim>\<open>errors.As\<close> and \<^verbatim>\<open>errors.Join\<close> are
  modelled as the standard library defines them. The lemmas show that every error the constructors
  can build is well-formed, that wrapping never changes a reason, that a sentinel matches exactly the
  chains that carry its reason, and that the registry is consistent.
\<close>

subsection \<open>Kinds (kind.go)\<close>

type_synonym kind = byte

definition KindInternal :: kind where "KindInternal = 0"
definition KindInvalidArgument :: kind where "KindInvalidArgument = 1"
definition KindNotFound :: kind where "KindNotFound = 2"
definition KindAlreadyExists :: kind where "KindAlreadyExists = 3"
definition KindPermissionDenied :: kind where "KindPermissionDenied = 4"
definition KindUnauthenticated :: kind where "KindUnauthenticated = 5"
definition KindResourceExhausted :: kind where "KindResourceExhausted = 6"
definition KindFailedPrecondition :: kind where "KindFailedPrecondition = 7"
definition KindAborted :: kind where "KindAborted = 8"
definition KindOutOfRange :: kind where "KindOutOfRange = 9"
definition KindUnimplemented :: kind where "KindUnimplemented = 10"
definition KindUnavailable :: kind where "KindUnavailable = 11"
definition KindDeadlineExceeded :: kind where "KindDeadlineExceeded = 12"
definition KindCanceled :: kind where "KindCanceled = 13"

lemmas kind_defs =
  KindInternal_def KindInvalidArgument_def KindNotFound_def KindAlreadyExists_def
  KindPermissionDenied_def KindUnauthenticated_def KindResourceExhausted_def
  KindFailedPrecondition_def KindAborted_def KindOutOfRange_def KindUnimplemented_def
  KindUnavailable_def KindDeadlineExceeded_def KindCanceled_def

definition kindNames :: "string list" where
  "kindNames =
    [''INTERNAL'', ''INVALID_ARGUMENT'', ''NOT_FOUND'', ''ALREADY_EXISTS'', ''PERMISSION_DENIED'',
     ''UNAUTHENTICATED'', ''RESOURCE_EXHAUSTED'', ''FAILED_PRECONDITION'', ''ABORTED'',
     ''OUT_OF_RANGE'', ''UNIMPLEMENTED'', ''UNAVAILABLE'', ''DEADLINE_EXCEEDED'', ''CANCELED'']"

definition Kind_String :: "kind \<Rightarrow> string" where
  "Kind_String k =
     (if length kindNames \<le> unat k then ''Kind('' @ show_nat (unat k) @ '')''
      else kindNames ! unat k)"

definition IsClientFault :: "kind \<Rightarrow> bool" where
  "IsClientFault k \<longleftrightarrow>
     k \<in> set [KindInvalidArgument, KindNotFound, KindAlreadyExists, KindPermissionDenied,
       KindUnauthenticated, KindOutOfRange, KindUnimplemented, KindCanceled]"

subsection \<open>Reasons and their registry (reason.go)\<close>

type_synonym reason = string

definition ReasonKeyEmpty :: reason where "ReasonKeyEmpty = ''KEY_EMPTY''"
definition ReasonKeyTooLarge :: reason where "ReasonKeyTooLarge = ''KEY_TOO_LARGE''"
definition ReasonValueTooLarge :: reason where "ReasonValueTooLarge = ''VALUE_TOO_LARGE''"
definition ReasonInvalidArgument :: reason where "ReasonInvalidArgument = ''INVALID_ARGUMENT''"
definition ReasonRevisionCompacted :: reason where "ReasonRevisionCompacted = ''REVISION_COMPACTED''"
definition ReasonMissingCredential :: reason where "ReasonMissingCredential = ''MISSING_CREDENTIAL''"
definition ReasonInvalidToken :: reason where "ReasonInvalidToken = ''INVALID_TOKEN''"
definition ReasonUnknownKeyID :: reason where "ReasonUnknownKeyID = ''UNKNOWN_KEY_ID''"
definition ReasonInsufficientScope :: reason where "ReasonInsufficientScope = ''INSUFFICIENT_SCOPE''"
definition ReasonRateLimited :: reason where "ReasonRateLimited = ''RATE_LIMITED''"
definition ReasonQuotaExceeded :: reason where "ReasonQuotaExceeded = ''QUOTA_EXCEEDED''"
definition ReasonWatchBufferOverflow :: reason where
  "ReasonWatchBufferOverflow = ''WATCH_BUFFER_OVERFLOW''"
definition ReasonNotLeader :: reason where "ReasonNotLeader = ''NOT_LEADER''"
definition ReasonNoLeader :: reason where "ReasonNoLeader = ''NO_LEADER''"
definition ReasonStaleReadBoundUnmet :: reason where
  "ReasonStaleReadBoundUnmet = ''STALE_READ_BOUND_UNMET''"
definition ReasonCrossShardTxnUnsupported :: reason where
  "ReasonCrossShardTxnUnsupported = ''CROSS_SHARD_TXN_UNSUPPORTED''"
definition ReasonFeatureNotInCurrentPhase :: reason where
  "ReasonFeatureNotInCurrentPhase = ''FEATURE_NOT_IN_CURRENT_PHASE''"
definition ReasonShuttingDown :: reason where "ReasonShuttingDown = ''SHUTTING_DOWN''"
definition ReasonDeadlineExceeded :: reason where "ReasonDeadlineExceeded = ''DEADLINE_EXCEEDED''"
definition ReasonCanceled :: reason where "ReasonCanceled = ''CANCELED''"
definition ReasonInternal :: reason where "ReasonInternal = ''INTERNAL''"

lemmas reason_defs =
  ReasonKeyEmpty_def ReasonKeyTooLarge_def ReasonValueTooLarge_def ReasonInvalidArgument_def
  ReasonRevisionCompacted_def ReasonMissingCredential_def ReasonInvalidToken_def
  ReasonUnknownKeyID_def ReasonInsufficientScope_def ReasonRateLimited_def
  ReasonQuotaExceeded_def ReasonWatchBufferOverflow_def ReasonNotLeader_def ReasonNoLeader_def
  ReasonStaleReadBoundUnmet_def ReasonCrossShardTxnUnsupported_def
  ReasonFeatureNotInCurrentPhase_def ReasonShuttingDown_def ReasonDeadlineExceeded_def
  ReasonCanceled_def ReasonInternal_def

record reasonInfo =
  ri_kind :: kind
  ri_retryable :: bool
  ri_description :: string

definition reasons :: "(reason \<times> reasonInfo) list" where
  "reasons =
    [(ReasonKeyEmpty, \<lparr>ri_kind = KindInvalidArgument, ri_retryable = False,
        ri_description = ''The key is empty, which is only valid as a range boundary.''\<rparr>),
     (ReasonKeyTooLarge, \<lparr>ri_kind = KindInvalidArgument, ri_retryable = False,
        ri_description = ''The key exceeds the configured maximum key length.''\<rparr>),
     (ReasonValueTooLarge, \<lparr>ri_kind = KindInvalidArgument, ri_retryable = False,
        ri_description = ''The value exceeds the configured maximum value size.''\<rparr>),
     (ReasonInvalidArgument, \<lparr>ri_kind = KindInvalidArgument, ri_retryable = False,
        ri_description = ''The request is malformed or its fields contradict each other.''\<rparr>),
     (ReasonRevisionCompacted, \<lparr>ri_kind = KindOutOfRange, ri_retryable = False,
        ri_description =
          ''The requested revision is below the compaction point and is no longer available.''\<rparr>),
     (ReasonMissingCredential, \<lparr>ri_kind = KindUnauthenticated, ri_retryable = False,
        ri_description = ''The request carried no usable bearer token.''\<rparr>),
     (ReasonInvalidToken, \<lparr>ri_kind = KindUnauthenticated, ri_retryable = False,
        ri_description = ''The bearer token could not be verified.''\<rparr>),
     (ReasonUnknownKeyID, \<lparr>ri_kind = KindUnauthenticated, ri_retryable = False,
        ri_description = ''The token's signing key is not known to this node.''\<rparr>),
     (ReasonInsufficientScope, \<lparr>ri_kind = KindPermissionDenied, ri_retryable = False,
        ri_description = ''The authenticated principal lacks the scope this method requires.''\<rparr>),
     (ReasonRateLimited, \<lparr>ri_kind = KindResourceExhausted, ri_retryable = True,
        ri_description = ''The principal exceeded its request rate limit.''\<rparr>),
     (ReasonQuotaExceeded, \<lparr>ri_kind = KindResourceExhausted, ri_retryable = True,
        ri_description =
          ''The database size quota is exhausted; writes are refused until space is reclaimed.''\<rparr>),
     (ReasonWatchBufferOverflow, \<lparr>ri_kind = KindResourceExhausted, ri_retryable = True,
        ri_description = ''The watch was canceled because its consumer fell too far behind.''\<rparr>),
     (ReasonNotLeader, \<lparr>ri_kind = KindFailedPrecondition, ri_retryable = True,
        ri_description = ''This node is not the leader for the requested keys.''\<rparr>),
     (ReasonNoLeader, \<lparr>ri_kind = KindUnavailable, ri_retryable = True,
        ri_description = ''No leader is currently known for the requested keys.''\<rparr>),
     (ReasonStaleReadBoundUnmet, \<lparr>ri_kind = KindFailedPrecondition, ri_retryable = True,
        ri_description =
          ''This replica has not yet applied the minimum revision the read requires.''\<rparr>),
     (ReasonCrossShardTxnUnsupported, \<lparr>ri_kind = KindFailedPrecondition, ri_retryable = False,
        ri_description =
          ''The transaction spans more than one shard group, which is not supported.''\<rparr>),
     (ReasonFeatureNotInCurrentPhase, \<lparr>ri_kind = KindUnimplemented, ri_retryable = False,
        ri_description =
          ''The requested field or method is defined in the contract but not yet implemented.''\<rparr>),
     (ReasonShuttingDown, \<lparr>ri_kind = KindUnavailable, ri_retryable = True,
        ri_description = ''The node is shutting down and is no longer accepting requests.''\<rparr>),
     (ReasonDeadlineExceeded, \<lparr>ri_kind = KindDeadlineExceeded, ri_retryable = True,
        ri_description = ''The caller's deadline elapsed before the request completed.''\<rparr>),
     (ReasonCanceled, \<lparr>ri_kind = KindCanceled, ri_retryable = False,
        ri_description = ''The caller canceled the request.''\<rparr>),
     (ReasonInternal, \<lparr>ri_kind = KindInternal, ri_retryable = False,
        ri_description = ''An internal error occurred.''\<rparr>)]"

definition KindOf :: "reason \<Rightarrow> kind" where
  "KindOf r = (case map_of reasons r of None \<Rightarrow> KindInternal | Some info \<Rightarrow> ri_kind info)"

definition Retryable :: "reason \<Rightarrow> bool" where
  "Retryable r = (case map_of reasons r of None \<Rightarrow> False | Some info \<Rightarrow> ri_retryable info)"

definition Description :: "reason \<Rightarrow> string" where
  "Description r = (case map_of reasons r of None \<Rightarrow> '''' | Some info \<Rightarrow> ri_description info)"

definition Registered :: "reason \<Rightarrow> bool" where
  "Registered r \<longleftrightarrow> map_of reasons r \<noteq> None"

definition AllReasons :: "reason list" where
  "AllReasons = sort (map fst reasons)"

subsection \<open>The error type (error.go)\<close>

record field_violation =
  Field :: string
  Description_of :: string

datatype oskind = NotExist | OtherOS

text \<open>
  \<open>kverror\<close> is the struct \<^verbatim>\<open>Error\<close>; a pointer to it is a \<open>kverror option\<close>, and \<open>KV None\<close> is the typed nil
  pointer stored in an error interface, which is itself not nil. A nil error is \<open>None\<close> of type
  \<open>error option\<close>. A nil metadata map is \<open>None\<close>; a nil slice of violations is the empty list.
\<close>

datatype kverror =
    Error (kreason: reason) (kmessage: string) (kmetadata: "(string \<times> string) list option")
      (kviolations: "field_violation list") (kretryAfter: int) (kcause: "error option")
and error =
    KV "kverror option"
  | Sentinel string string
  | TextErr string
  | WrapErr string error
  | JoinErr "error list"
  | OSErr oskind string

definition context_Canceled :: error where
  "context_Canceled = Sentinel ''context.Canceled'' ''context canceled''"

definition context_DeadlineExceeded :: error where
  "context_DeadlineExceeded = Sentinel ''context.DeadlineExceeded'' ''context deadline exceeded''"

fun join_lines :: "string list \<Rightarrow> string" where
  "join_lines [] = []"
| "join_lines [s] = s"
| "join_lines (s # ss) = s @ CHR 0x0A # join_lines ss"

fun Error_Error :: "kverror option \<Rightarrow> string" and error_text :: "error \<Rightarrow> string" where
  "Error_Error None = ''<nil>''"
| "Error_Error (Some (Error r m _ _ _ c)) =
     r @ '': '' @ m @ (case c of None \<Rightarrow> '''' | Some e \<Rightarrow> '': '' @ error_text e)"
| "error_text (KV e) = Error_Error e"
| "error_text (Sentinel _ s) = s"
| "error_text (TextErr s) = s"
| "error_text (WrapErr s _) = s"
| "error_text (JoinErr es) = join_lines (map error_text es)"
| "error_text (OSErr _ s) = s"

definition Error_Unwrap :: "kverror option \<Rightarrow> error option" where
  "Error_Unwrap e = (case e of None \<Rightarrow> None | Some e \<Rightarrow> kcause e)"

definition Error_Is :: "kverror option \<Rightarrow> error \<Rightarrow> bool" where
  "Error_Is e target =
     (case target of KV (Some t) \<Rightarrow> (case e of None \<Rightarrow> False | Some e \<Rightarrow> kreason e = kreason t)
      | _ \<Rightarrow> False)"

text \<open>The accessors; metadata and violations are values here, so handing out a copy is handing out the value.\<close>

definition Error_Reason :: "kverror \<Rightarrow> reason" where "Error_Reason e = kreason e"
definition Error_Message :: "kverror \<Rightarrow> string" where "Error_Message e = kmessage e"
definition Error_Metadata :: "kverror \<Rightarrow> (string \<times> string) list option" where
  "Error_Metadata e = kmetadata e"
definition Error_Violations :: "kverror \<Rightarrow> field_violation list" where
  "Error_Violations e = kviolations e"
definition Error_RetryAfter :: "kverror \<Rightarrow> int" where "Error_RetryAfter e = kretryAfter e"

definition Error_Kind :: "kverror \<Rightarrow> kind" where
  "Error_Kind e = KindOf (kreason e)"

definition Error_Retryable :: "kverror \<Rightarrow> bool" where
  "Error_Retryable e = Retryable (kreason e)"

datatype slog_value = StringValue string | GroupValue "(string \<times> slog_value) list"

definition Error_LogValue :: "kverror option \<Rightarrow> slog_value" where
  "Error_LogValue e =
     (case e of
        None \<Rightarrow> StringValue ''<nil>''
      | Some e \<Rightarrow>
          GroupValue
            ([(''reason'', StringValue (kreason e)),
              (''kind'', StringValue (Kind_String (Error_Kind e))),
              (''message'', StringValue (kmessage e))]
             @ (case kcause e of None \<Rightarrow> [] | Some c \<Rightarrow> [(''cause'', StringValue (error_text c))])))"

subsection \<open>Construction (construct.go)\<close>

definition New :: "reason \<Rightarrow> string \<Rightarrow> kverror" where
  "New reason message =
     (let reason = (if Registered reason then reason else ReasonInternal);
          message = (if message = '''' then Description reason else message)
      in Error reason message None [] 0 None)"

fun set_cause :: "kverror \<Rightarrow> error \<Rightarrow> kverror" where
  "set_cause (Error r m md vs ra _) c = Error r m md vs ra (Some c)"

definition Wrap :: "reason \<Rightarrow> error \<Rightarrow> string \<Rightarrow> kverror" where
  "Wrap reason cause message = set_cause (New reason message) cause"

fun WithMetadata :: "kverror \<Rightarrow> string \<Rightarrow> string \<Rightarrow> kverror" where
  "WithMetadata (Error r m md vs ra c) key value =
     Error r m
       (Some ((key, value) # filter (\<lambda>p. fst p \<noteq> key) (case md of None \<Rightarrow> [] | Some kvs \<Rightarrow> kvs)))
       vs ra c"

fun WithViolations :: "kverror \<Rightarrow> field_violation list \<Rightarrow> kverror" where
  "WithViolations (Error r m md vs ra c) violations = Error r m md (vs @ violations) ra c"

fun WithRetryAfter :: "kverror \<Rightarrow> int \<Rightarrow> kverror" where
  "WithRetryAfter (Error r m md vs ra c) d = Error r m md vs (max d 0) c"

text \<open>\<^verbatim>\<open>fmt.Errorf\<close> with one \<^verbatim>\<open>%w\<close> verb: the text around the wrapped error's own text.\<close>

definition Errorf_w :: "string \<Rightarrow> error \<Rightarrow> string \<Rightarrow> error" where
  "Errorf_w pre e post = WrapErr (pre @ error_text e @ post) e"

text \<open>\<^verbatim>\<open>errors.Join\<close>: nil arguments are dropped, and the result is nil when none is left.\<close>

definition errors_Join :: "error option list \<Rightarrow> error option" where
  "errors_Join errs =
     (case List.map_filter id errs of [] \<Rightarrow> None | es \<Rightarrow> Some (JoinErr es))"

subsection \<open>Inspection (inspect.go)\<close>

text \<open>
  \<^verbatim>\<open>errors.Is\<close> and \<^verbatim>\<open>errors.As\<close> walk a chain in pre-order. Sentinels are compared by identity, here by
  their name; the package's errors compare by reason through their \<^verbatim>\<open>Is\<close> method, which subsumes
  the pointer comparison.
\<close>

fun errors_Is :: "error \<Rightarrow> error \<Rightarrow> bool" where
  "errors_Is (KV (Some (Error r m md vs ra c))) t \<longleftrightarrow>
     KV (Some (Error r m md vs ra c)) = t \<or> Error_Is (Some (Error r m md vs ra c)) t \<or>
     (case c of None \<Rightarrow> False | Some e \<Rightarrow> errors_Is e t)"
| "errors_Is (KV None) t \<longleftrightarrow> KV None = t \<or> Error_Is None t"
| "errors_Is (WrapErr s e) t \<longleftrightarrow> WrapErr s e = t \<or> errors_Is e t"
| "errors_Is (JoinErr es) t \<longleftrightarrow> JoinErr es = t \<or> list_ex (\<lambda>e. errors_Is e t) es"
| "errors_Is e t \<longleftrightarrow> e = t"

lemma errors_Is_refl: "errors_Is e e"
  by (cases "(e, e)" rule: errors_Is.cases) auto

fun first_some :: "('a \<Rightarrow> 'b option) \<Rightarrow> 'a list \<Rightarrow> 'b option" where
  "first_some f [] = None"
| "first_some f (x # xs) = (case f x of None \<Rightarrow> first_some f xs | Some y \<Rightarrow> Some y)"

lemma first_some_cong [fundef_cong]:
  "xs = ys \<Longrightarrow> (\<And>x. x \<in> set ys \<Longrightarrow> f x = g x) \<Longrightarrow> first_some f xs = first_some g ys"
  by (induction xs arbitrary: ys) (auto split: option.splits)

fun errors_As :: "error \<Rightarrow> kverror option option" where
  "errors_As (KV e) = Some e"
| "errors_As (WrapErr _ e) = errors_As e"
| "errors_As (JoinErr es) = first_some errors_As es"
| "errors_As _ = None"

definition ReasonOf :: "error option \<Rightarrow> reason" where
  "ReasonOf err =
     (case err of
        None \<Rightarrow> ''''
      | Some err \<Rightarrow>
          (case errors_As err of
             Some (Some e) \<Rightarrow> kreason e
           | _ \<Rightarrow>
               if errors_Is err context_Canceled then ReasonCanceled
               else if errors_Is err context_DeadlineExceeded then ReasonDeadlineExceeded
               else ReasonInternal))"

definition ErrRevisionCompacted :: kverror where
  "ErrRevisionCompacted = New ReasonRevisionCompacted ''''"
definition ErrNotLeader :: kverror where "ErrNotLeader = New ReasonNotLeader ''''"
definition ErrNoLeader :: kverror where "ErrNoLeader = New ReasonNoLeader ''''"
definition ErrQuotaExceeded :: kverror where "ErrQuotaExceeded = New ReasonQuotaExceeded ''''"
definition ErrShuttingDown :: kverror where "ErrShuttingDown = New ReasonShuttingDown ''''"
definition ErrFeatureNotInCurrentPhase :: kverror where
  "ErrFeatureNotInCurrentPhase = New ReasonFeatureNotInCurrentPhase ''''"

text \<open>The kinds for which waiting can help, named in the error-handling handbook.\<close>

definition waiting_kinds :: "kind list" where
  "waiting_kinds = [KindResourceExhausted, KindFailedPrecondition, KindAborted, KindUnavailable,
     KindDeadlineExceeded]"

text \<open>
  The errors client code can hold: whatever the constructors and the With methods return. \<open>kv_nodes\<close>
  lists the package's errors in a chain, in the order \<^verbatim>\<open>errors.Is\<close> meets them.
\<close>

inductive built :: "kverror \<Rightarrow> bool" where
  built_new: "built (New r m)"
| built_wrap: "built (Wrap r c m)"
| built_metadata: "built e \<Longrightarrow> built (WithMetadata e k v)"
| built_violations: "built e \<Longrightarrow> built (WithViolations e vs)"
| built_retry: "built e \<Longrightarrow> built (WithRetryAfter e d)"

definition metadata_entries :: "kverror \<Rightarrow> (string \<times> string) list" where
  "metadata_entries e = (case kmetadata e of None \<Rightarrow> [] | Some kvs \<Rightarrow> kvs)"

fun kv_nodes :: "error \<Rightarrow> kverror list" where
  "kv_nodes (KV (Some (Error r m md vs ra c))) =
     Error r m md vs ra c # (case c of None \<Rightarrow> [] | Some e \<Rightarrow> kv_nodes e)"
| "kv_nodes (WrapErr _ e) = kv_nodes e"
| "kv_nodes (JoinErr es) = concat (map kv_nodes es)"
| "kv_nodes _ = []"

subsection \<open>The registry is consistent\<close>

lemma Registered_reasons: "Registered r \<longleftrightarrow> r \<in> set (map fst reasons)"
  by (auto simp: Registered_def map_of_eq_None_iff)

lemma distinct_reasons: "distinct (map fst reasons)"
  by (simp add: reasons_def reason_defs)

text \<open>Lookup of a registered reason is membership, so a fact about every entry is checked by listing.\<close>

lemma registry_all:
  assumes "list_all (\<lambda>(r, info). P r info) reasons" and "Registered r"
  shows "\<exists>info. map_of reasons r = Some info \<and> P r info"
proof -
  from assms(2) obtain info where i: "map_of reasons r = Some info"
    by (auto simp: Registered_def)
  then have "(r, info) \<in> set reasons"
    by (rule map_of_SomeD)
  with assms(1) i show ?thesis
    by (auto simp: list_all_iff)
qed

lemma Description_registered:
  assumes "Registered r"
  shows "Description r \<noteq> ''''"
proof -
  have "list_all (\<lambda>(r, info). ri_description info \<noteq> '''') reasons"
    by (simp add: reasons_def)
  from registry_all [OF this assms] show ?thesis
    by (auto simp: Description_def)
qed

lemma Registered_used [simp]:
  "Registered ReasonInternal" "Registered ReasonCanceled" "Registered ReasonDeadlineExceeded"
  "Registered ReasonInvalidArgument"
  by (simp_all add: Registered_reasons reasons_def)

lemma retryable_registered: "Retryable r \<Longrightarrow> Registered r"
  by (auto simp: Retryable_def Registered_def split: option.splits)

lemma AllReasons_catalog:
  "sorted AllReasons" "distinct AllReasons" "r \<in> set AllReasons \<longleftrightarrow> Registered r"
  by (simp_all add: AllReasons_def distinct_reasons Registered_reasons)

text \<open>
  Only reasons whose kind is one where waiting can help are retryable, and none of those kinds
  blames the client, so a client fault is never reported as worth retrying unchanged.
\<close>

theorem retryable_only_if_waiting_helps:
  "Retryable r \<Longrightarrow> KindOf r \<in> set waiting_kinds \<and> \<not> IsClientFault (KindOf r)"
proof -
  assume r: "Retryable r"
  have "list_all (\<lambda>(r, info). ri_retryable info \<longrightarrow>
      ri_kind info \<in> set waiting_kinds \<and> \<not> IsClientFault (ri_kind info)) reasons"
    by (simp add: reasons_def waiting_kinds_def IsClientFault_def kind_defs)
  from registry_all [OF this retryable_registered [OF r]] r show ?thesis
    by (auto simp: Retryable_def KindOf_def)
qed

theorem retryable_only_if_waiting_helps_witness:
  "Retryable ReasonNotLeader \<and> KindOf ReasonNotLeader \<in> set waiting_kinds
     \<and> \<not> IsClientFault (KindOf ReasonNotLeader)"
proof -
  have "Retryable ReasonNotLeader"
    by (simp add: Retryable_def reasons_def reason_defs)
  with retryable_only_if_waiting_helps [OF this] show ?thesis by simp
qed

subsection \<open>Every error the package can build is well-formed\<close>

lemma New_wf: "Registered (kreason (New r m))" "kmessage (New r m) \<noteq> ''''"
  "kretryAfter (New r m) = 0" "kcause (New r m) = None" "kmetadata (New r m) = None"
  by (auto simp: New_def Let_def Description_registered)

lemma New_registered: "Registered r \<Longrightarrow> kreason (New r m) = r"
  by (simp add: New_def Let_def)

lemma set_cause_sel [simp]:
  "kreason (set_cause e c) = kreason e" "kmessage (set_cause e c) = kmessage e"
  "kretryAfter (set_cause e c) = kretryAfter e" "kmetadata (set_cause e c) = kmetadata e"
  "kviolations (set_cause e c) = kviolations e" "kcause (set_cause e c) = Some c"
  by (cases e; simp)+

lemma With_sel [simp]:
  "kreason (WithMetadata e k v) = kreason e" "kmessage (WithMetadata e k v) = kmessage e"
  "kretryAfter (WithMetadata e k v) = kretryAfter e"
  "kreason (WithViolations e vs) = kreason e" "kmessage (WithViolations e vs) = kmessage e"
  "kretryAfter (WithViolations e vs) = kretryAfter e"
  "kmetadata (WithViolations e vs) = kmetadata e"
  "kviolations (WithViolations e vs) = kviolations e @ vs"
  "kreason (WithRetryAfter e d) = kreason e" "kmessage (WithRetryAfter e d) = kmessage e"
  "kretryAfter (WithRetryAfter e d) = max d 0"
  "kmetadata (WithRetryAfter e d) = kmetadata e"
  by (cases e; simp)+

lemma metadata_entries_WithMetadata:
  "metadata_entries (WithMetadata e k v) = (k, v) # filter (\<lambda>p. fst p \<noteq> k) (metadata_entries e)"
  by (cases e) (simp add: metadata_entries_def)

lemma Wrap_sel [simp]:
  "kreason (Wrap r c m) = kreason (New r m)" "kmessage (Wrap r c m) = kmessage (New r m)"
  "kcause (Wrap r c m) = Some c"
  by (simp_all add: Wrap_def)

text \<open>
  C32: Whatever sequence of constructors and With methods built an error, its reason is registered in
  the catalog, its client-facing message is not empty, its retry hint is not negative and no metadata
  key occurs twice.
\<close>

theorem built_errors_well_formed:
  "built e \<Longrightarrow> Registered (kreason e) \<and> kmessage e \<noteq> '''' \<and> 0 \<le> kretryAfter e
     \<and> distinct (map fst (metadata_entries e))"
proof (induction rule: built.induct)
  case (built_metadata e k v)
  then show ?case
    by (auto simp: metadata_entries_WithMetadata distinct_map_filter)
qed (auto simp: New_wf metadata_entries_def Wrap_def)

theorem built_errors_well_formed_witness:
  "Registered (kreason (WithMetadata (New ''NO_SUCH_REASON'' '''') ''limitBytes'' ''1024''))
     \<and> kmessage (WithMetadata (New ''NO_SUCH_REASON'' '''') ''limitBytes'' ''1024'') \<noteq> ''''"
proof -
  have "built (WithMetadata (New ''NO_SUCH_REASON'' '''') ''limitBytes'' ''1024'')"
    by (intro built.intros)
  from built_errors_well_formed [OF this] show ?thesis by blast
qed

text \<open>
  WithMetadata adds or replaces exactly one entry and leaves every other entry of the error as it
  was.
\<close>

theorem WithMetadata_lookup:
  "map_of (metadata_entries (WithMetadata e k v)) = (map_of (metadata_entries e))(k \<mapsto> v)"
  by (simp add: metadata_entries_WithMetadata map_of_filter_neq)

subsection \<open>Classification of error chains\<close>

lemma first_some_Some: "first_some f xs = Some y \<Longrightarrow> \<exists>x \<in> set xs. f x = Some y"
  by (induction xs) (auto split: option.splits)

lemma kv_nodes_KV:
  "kv_nodes (KV (Some k)) = k # (case kcause k of None \<Rightarrow> [] | Some e \<Rightarrow> kv_nodes e)"
  by (cases k) simp

lemma errors_As_in_nodes: "errors_As e = Some (Some k) \<Longrightarrow> k \<in> set (kv_nodes e)"
proof (induction e rule: errors_As.induct)
  case (1 e)
  then show ?case by (simp add: kv_nodes_KV)
next
  case (3 es)
  then show ?case by (fastforce dest: first_some_Some)
qed auto

text \<open>
  The reason reported for any non-nil error, however it was wrapped or joined, is a registered
  reason, provided the package's errors in it were built by its constructors.
\<close>

theorem ReasonOf_registered:
  assumes "list_all built (kv_nodes e)"
  shows "Registered (ReasonOf (Some e))"
proof (cases "errors_As e")
  case None
  then show ?thesis by (simp add: ReasonOf_def)
next
  case (Some k)
  show ?thesis
  proof (cases k)
    case None
    with Some show ?thesis by (simp add: ReasonOf_def)
  next
    case (Some k')
    with \<open>errors_As e = Some k\<close> assms have "built k'"
      using errors_As_in_nodes by (auto simp: list_all_iff)
    then have "Registered (kreason k')"
      by (induction rule: built.induct) (auto simp: New_wf)
    with Some \<open>errors_As e = Some k\<close> show ?thesis by (simp add: ReasonOf_def)
  qed
qed

theorem ReasonOf_registered_witness:
  "Registered (ReasonOf (Some (JoinErr [TextErr ''io'', KV (Some (New ReasonNotLeader ''''))])))"
proof -
  have "list_all built (kv_nodes (JoinErr [TextErr ''io'', KV (Some (New ReasonNotLeader ''''))]))"
    by (simp add: kv_nodes_KV New_wf built_new)
  then show ?thesis by (rule ReasonOf_registered)
qed

text \<open>
  Adding context with fmt.Errorf and %w, any number of times, never changes the reason an error is
  reported under.
\<close>

theorem ReasonOf_wrapping:
  "ReasonOf (Some (foldr (\<lambda>(pre, post) e. Errorf_w pre e post) ctxs err)) = ReasonOf (Some err)"
proof (induction ctxs)
  case Nil
  show ?case by simp
next
  case (Cons c ctxs)
  have "ReasonOf (Some (Errorf_w pre e post)) = ReasonOf (Some e)" for pre e post
    by (simp add: ReasonOf_def Errorf_w_def context_Canceled_def context_DeadlineExceeded_def
        split: option.splits)
  with Cons show ?case by (cases c) simp
qed

text \<open>
  C33: A sentinel such as ErrNotLeader matches an error exactly when some error of the package in its
  chain carries the sentinel's reason, whatever the messages, causes and wrapping around it.
\<close>

theorem sentinel_matches_by_reason:
  "errors_Is err (KV (Some s)) \<longleftrightarrow> kreason s \<in> set (map kreason (kv_nodes err))"
proof (induction err "KV (Some s)" rule: errors_Is.induct)
qed (auto simp: Error_Is_def list_ex_iff split: option.splits)

end
