(* ===== verification/Segment.thy ===== *)
theory Segment
  imports Kverr "HOL-Library.Multiset"
begin

text \<open>
  \<^verbatim>\<open>internal/storage/segment.go\<close>: segment files and their names. A segment is named after the index of its
  first record, padded with zeros to twenty digits. The lemmas show that naming and parsing are
  inverse to each other, that the names sort in index order, and what \<^verbatim>\<open>listSegments\<close> returns.
\<close>

subsection \<open>Definitions\<close>

definition segmentSuffix :: string where "segmentSuffix = ''.log''"
definition segmentDigits :: nat where "segmentDigits = 20"

record segment =
  seg_first :: u64
  seg_last :: u64
  seg_path :: string

text \<open>\<^verbatim>\<open>fmt.Sprintf("%0*d")\<close>: decimal digits, padded on the left with zeros to the given width.\<close>

definition pad_digits :: "nat \<Rightarrow> nat \<Rightarrow> string" where
  "pad_digits width n = replicate (width - length (show_nat n)) (CHR ''0'') @ show_nat n"

definition segmentName :: "u64 \<Rightarrow> string" where
  "segmentName fst_index = pad_digits segmentDigits (unat fst_index) @ segmentSuffix"

text \<open>\<^verbatim>\<open>strings.CutSuffix\<close>, and \<^verbatim>\<open>strconv.ParseUint\<close> in base ten for a given bit size.\<close>

definition CutSuffix :: "string \<Rightarrow> string \<Rightarrow> string option" where
  "CutSuffix s suf =
     (if suffix suf s then Some (take (length s - length suf) s) else None)"

definition digit_val :: "char \<Rightarrow> nat option" where
  "digit_val c = (let n = of_char c in if 48 \<le> n \<and> n \<le> (57 :: nat) then Some (n - 48) else None)"

fun parse_digits :: "nat \<Rightarrow> string \<Rightarrow> nat option" where
  "parse_digits acc [] = Some acc"
| "parse_digits acc (c # cs) =
     (case digit_val c of None \<Rightarrow> None | Some d \<Rightarrow> parse_digits (10 * acc + d) cs)"

definition ParseUint :: "nat \<Rightarrow> string \<Rightarrow> nat option" where
  "ParseUint bits s =
     (if s = [] then None
      else case parse_digits 0 s of None \<Rightarrow> None | Some n \<Rightarrow> if n < 2 ^ bits then Some n else None)"

definition parseSegmentName :: "string \<Rightarrow> u64 option" where
  "parseSegmentName name =
     (case CutSuffix name segmentSuffix of
        None \<Rightarrow> None
      | Some digits \<Rightarrow>
          if length digits \<noteq> segmentDigits then None
          else
            (case ParseUint 64 digits of
               None \<Rightarrow> None
             | Some n \<Rightarrow>
                 let fst_index = word_of_nat n
                 in if segmentName fst_index \<noteq> name then None else Some fst_index))"

text \<open>
  The loop of \<^verbatim>\<open>listSegments\<close> over the directory entries (name, and whether it is a regular file), and
  the sort by first index. \<open>quote\<close> is \<^verbatim>\<open>strconv.Quote\<close>, which only shapes the error message.
\<close>

definition unexpected_entry :: "(string \<Rightarrow> string) \<Rightarrow> string \<Rightarrow> string \<Rightarrow> error" where
  "unexpected_entry quote dir name =
     KV (Some (New ReasonInternal
       (''command log directory '' @ dir @ '' contains an unexpected entry '' @ quote name)))"

fun collect_segments ::
  "(string \<Rightarrow> string) \<Rightarrow> string \<Rightarrow> (string \<times> bool) list \<Rightarrow> error + segment list" where
  "collect_segments quote dir [] = Inr []"
| "collect_segments quote dir ((name, regular) # entries) =
     (case parseSegmentName name of
        Some fst_index \<Rightarrow>
          if regular then
            (case collect_segments quote dir entries of
               Inl e \<Rightarrow> Inl e
             | Inr segs \<Rightarrow> Inr (\<lparr>seg_first = fst_index, seg_last = 0, seg_path = name\<rparr> # segs))
          else Inl (unexpected_entry quote dir name)
      | None \<Rightarrow> Inl (unexpected_entry quote dir name))"

definition listSegments ::
  "(string \<Rightarrow> string) \<Rightarrow> string \<Rightarrow> error + (string \<times> bool) list \<Rightarrow> error + segment list" where
  "listSegments quote dir readdir =
     (case readdir of
        Inl err \<Rightarrow> Inl (KV (Some (Wrap ReasonInternal err ''command log directory could not be read'')))
      | Inr entries \<Rightarrow>
          (case collect_segments quote dir entries of
             Inl e \<Rightarrow> Inl e
           | Inr segs \<Rightarrow> Inr (sort_key seg_first segs)))"

text \<open>What the loop accepts: a regular file whose name parses.\<close>

definition segment_entry :: "string \<times> bool \<Rightarrow> bool" where
  "segment_entry e \<longleftrightarrow> snd e \<and> parseSegmentName (fst e) \<noteq> None"

subsection \<open>Decimal digits\<close>

lemma digit_val_digit_char [simp]: "d < 10 \<Longrightarrow> digit_val (digit_char d) = Some d"
  by (simp add: digit_val_def digit_char_def Let_def)

lemma digit_val_zero [simp]: "digit_val (CHR ''0'') = Some 0"
  by (simp add: digit_val_def)

lemma parse_digits_append:
  "parse_digits acc (xs @ ys) =
     (case parse_digits acc xs of None \<Rightarrow> None | Some a \<Rightarrow> parse_digits a ys)"
  by (induction acc xs rule: parse_digits.induct) (auto split: option.splits)

lemma parse_digits_show: "parse_digits acc (show_nat n) = Some (acc * 10 ^ length (show_nat n) + n)"
proof (induction n arbitrary: acc rule: show_nat.induct)
  case (1 n)
  show ?case
  proof (cases "n < 10")
    case True
    then show ?thesis by (simp add: show_nat.simps [of n])
  next
    case False
    with 1 show ?thesis
      by (simp add: show_nat.simps [of n] parse_digits_append algebra_simps)
  qed
qed

lemma parse_digits_zeros: "parse_digits 0 (replicate k (CHR ''0'')) = Some 0"
  by (induction k) auto

lemma length_show_nat: "0 < k \<Longrightarrow> n < 10 ^ k \<Longrightarrow> length (show_nat n) \<le> k"
proof (induction n arbitrary: k rule: show_nat.induct)
  case (1 n)
  show ?case
  proof (cases "n < 10")
    case True
    with 1 show ?thesis by (simp add: show_nat.simps [of n])
  next
    case False
    with 1(3) obtain j where j: "k = Suc j" "0 < j"
      by (cases k; cases "k - 1") auto
    with 1(3) have "n div 10 < 10 ^ j"
      by (simp add: less_mult_imp_div_less mult.commute)
    with 1(1) False j show ?thesis
      by (simp add: show_nat.simps [of n])
  qed
qed

lemma pad_digits_parse: "parse_digits 0 (pad_digits w n) = Some n"
  by (simp add: pad_digits_def parse_digits_append parse_digits_zeros parse_digits_show)

lemma pad_digits_not_Nil: "pad_digits w n \<noteq> []"
  by (simp add: pad_digits_def)

lemma length_pad_digits: "0 < w \<Longrightarrow> n < 10 ^ w \<Longrightarrow> length (pad_digits w n) = w"
  using length_show_nat [of w n] by (simp add: pad_digits_def)

lemma length_segment_digits: "length (pad_digits segmentDigits (unat (i :: u64))) = 20"
proof -
  have "unat i < 2 ^ 64"
    using unsigned_less [of i, where 'a = nat] by simp
  then show ?thesis
    by (simp add: segmentDigits_def length_pad_digits)
qed

subsection \<open>Names and indexes\<close>

lemma parse_segmentName: "parseSegmentName (segmentName i) = Some i"
proof -
  have "ParseUint 64 (pad_digits segmentDigits (unat i)) = Some (unat i)"
    using unsigned_less [of i, where 'a = nat]
    by (simp add: ParseUint_def pad_digits_parse pad_digits_not_Nil)
  then show ?thesis
    using length_segment_digits [of i]
    by (simp add: parseSegmentName_def segmentName_def CutSuffix_def segmentDigits_def suffixI)
qed

lemma parseSegmentName_SomeD: "parseSegmentName name = Some i \<Longrightarrow> name = segmentName i"
  by (auto simp: parseSegmentName_def Let_def split: option.splits if_splits)

text \<open>
  C27: A file name parses as a segment with first index i exactly when it is the name the log gives that
  segment; so no other spelling (missing padding, sign, other suffix) is ever taken for a segment.
\<close>

theorem parseSegmentName_exact: "parseSegmentName name = Some i \<longleftrightarrow> name = segmentName i"
  using parse_segmentName parseSegmentName_SomeD by blast

lemma segmentName_inj: "segmentName i = segmentName j \<Longrightarrow> i = j"
  using parse_segmentName by (metis option.inject)

lemma parse_digits_bounds:
  "parse_digits acc xs = Some a \<Longrightarrow>
     acc * 10 ^ length xs \<le> a \<and> a < (acc + 1) * 10 ^ length xs"
proof (induction acc xs rule: parse_digits.induct)
  case (1 acc)
  then show ?case by simp
next
  case (2 acc c cs)
  then obtain d where d: "digit_val c = Some d" and p: "parse_digits (10 * acc + d) cs = Some a"
    by (auto split: option.splits)
  have "d < 10"
    using d by (auto simp: digit_val_def Let_def split: if_splits)
  then have "(10 * acc + d + 1) * 10 ^ length cs \<le> (10 * (acc + 1)) * 10 ^ length cs"
    by (intro mult_right_mono) auto
  moreover have "(10 * (acc + 1)) * 10 ^ length cs = (acc + 1) * 10 ^ length (c # cs)"
    by (simp add: algebra_simps)
  moreover have "acc * 10 ^ length (c # cs) \<le> (10 * acc + d) * 10 ^ length cs"
    by simp
  ultimately show ?case
    using 2(1) [OF d p] by linarith
qed

lemma char_less_digit:
  "digit_val c = Some d \<Longrightarrow> digit_val c' = Some d' \<Longrightarrow> c < c' \<longleftrightarrow> d < d'"
  by (auto simp: digit_val_def Let_def less_char_def split: if_splits)

lemma digit_val_inj: "digit_val c = Some d \<Longrightarrow> digit_val c' = Some d \<Longrightarrow> c = c'"
  using char_less_digit [of c d c' d] char_less_digit [of c' d c d] by auto

lemma digits_less_iff:
  assumes "length xs = length ys" and "parse_digits acc xs = Some a" and "parse_digits acc ys = Some b"
  shows "xs < ys \<longleftrightarrow> a < b"
  using assms
proof (induction xs ys arbitrary: acc rule: list_induct2)
  case Nil
  then show ?case by simp
next
  case (Cons x xs y ys)
  then obtain d e where d: "digit_val x = Some d" "parse_digits (10 * acc + d) xs = Some a"
    and e: "digit_val y = Some e" "parse_digits (10 * acc + e) ys = Some b"
    by (auto split: option.splits)
  note bounds = parse_digits_bounds [OF d(2)] parse_digits_bounds [OF e(2)]
  have apart: "a' < b'" if "d' < e'" "a' < (10 * acc + d' + 1) * 10 ^ length xs"
    "(10 * acc + e') * 10 ^ length xs \<le> b'" for d' e' a' b' :: nat
  proof -
    have "(10 * acc + d' + 1) * 10 ^ length xs \<le> (10 * acc + e') * 10 ^ length xs"
      using that(1) by (intro mult_right_mono) auto
    with that show ?thesis by linarith
  qed
  consider "d < e" | "d = e" | "e < d"
    by linarith
  then show ?case
  proof cases
    case 1
    then show ?thesis
      using apart [of d e a b] bounds Cons.hyps d(1) e(1) by (simp add: char_less_digit)
  next
    case 2
    then show ?thesis
      using Cons.IH [of "10 * acc + d"] d e digit_val_inj [of x d y] by auto
  next
    case 3
    then have "b < a" "y < x"
      using apart [of e d b a] bounds Cons.hyps d(1) e(1) by (simp_all add: char_less_digit)
    then show ?thesis by auto
  qed
qed

lemma append_suffix_less: "length xs = length ys \<Longrightarrow> xs @ s < ys @ s \<longleftrightarrow> xs < (ys :: string)"
  by (induction xs ys rule: list_induct2) auto

lemma segmentName_less_iff: "segmentName i < segmentName j \<longleftrightarrow> i < j"
proof -
  have "segmentName i < segmentName j \<longleftrightarrow>
      pad_digits segmentDigits (unat i) < pad_digits segmentDigits (unat j)"
    by (simp add: segmentName_def append_suffix_less length_segment_digits)
  also have "\<dots> \<longleftrightarrow> unat i < unat j"
    by (rule digits_less_iff [where acc = 0]) (simp_all add: pad_digits_parse length_segment_digits)
  finally show ?thesis
    by (simp add: word_less_nat_alt)
qed

text \<open>
  Segment names sort in index order: comparing two names byte by byte gives the same result as
  comparing the indexes they encode, over the whole range of 64-bit indexes.
\<close>

theorem segmentName_order: "segmentName i < segmentName j \<longleftrightarrow> i < j"
  by (rule segmentName_less_iff)

subsection \<open>Listing a directory\<close>

lemma collect_segments_Inr:
  "collect_segments quote dir entries = Inr segs \<Longrightarrow>
     (\<forall>e \<in> set entries. segment_entry e) \<and>
     segs = map (\<lambda>e. \<lparr>seg_first = the (parseSegmentName (fst e)), seg_last = 0, seg_path = fst e\<rparr>)
       entries"
  by (induction quote dir entries arbitrary: segs rule: collect_segments.induct)
    (auto simp: segment_entry_def split: option.splits sum.splits if_splits)

lemma collect_segments_Inl:
  "collect_segments quote dir entries = Inl e \<Longrightarrow> \<exists>e \<in> set entries. \<not> segment_entry e"
  by (induction quote dir entries arbitrary: e rule: collect_segments.induct)
    (auto simp: segment_entry_def split: option.splits sum.splits if_splits)

lemma segment_entry_iff: "segment_entry e \<longleftrightarrow> snd e \<and> (\<exists>i. fst e = segmentName i)"
  using parse_segmentName parseSegmentName_SomeD by (fastforce simp: segment_entry_def)

lemma listSegments_Inr:
  assumes "listSegments quote dir (Inr entries) = Inr segs"
  shows "sorted (map seg_first segs)" "mset (map seg_path segs) = mset (map fst entries)"
    "\<forall>e \<in> set entries. segment_entry e" "\<forall>s \<in> set segs. seg_path s = segmentName (seg_first s)"
proof -
  from assms obtain cs where cs: "collect_segments quote dir entries = Inr cs"
    and segs: "segs = sort_key seg_first cs"
    by (auto simp: listSegments_def split: sum.splits)
  note c = collect_segments_Inr [OF cs]
  show "sorted (map seg_first segs)" and entries: "\<forall>e \<in> set entries. segment_entry e"
    using c by (simp_all add: segs)
  have "mset (map seg_path segs) = mset (map seg_path cs)"
    by (simp add: segs)
  also have "map seg_path cs = map fst entries"
    using c by simp
  finally show "mset (map seg_path segs) = mset (map fst entries)" .
  show "\<forall>s \<in> set segs. seg_path s = segmentName (seg_first s)"
    using c parseSegmentName_SomeD by (fastforce simp: segs segment_entry_def)
qed

text \<open>
  C28: The log directory is accepted exactly when every entry in it is a regular file with a segment
  name; the segments found are then those of the entries, one each, in ascending order of first index.
\<close>

theorem listSegments_spec:
  "case listSegments quote dir (Inr entries) of
     Inl _ \<Rightarrow> \<exists>e \<in> set entries. \<not> (snd e \<and> (\<exists>i. fst e = segmentName i))
   | Inr segs \<Rightarrow>
       (\<forall>e \<in> set entries. snd e \<and> (\<exists>i. fst e = segmentName i))
       \<and> sorted (map seg_first segs) \<and> mset (map seg_path segs) = mset (map fst entries)
       \<and> (\<forall>s \<in> set segs. seg_path s = segmentName (seg_first s))"
proof (cases "listSegments quote dir (Inr entries)")
  case (Inl e)
  then have "\<exists>e \<in> set entries. \<not> segment_entry e"
    by (auto simp: listSegments_def dest: collect_segments_Inl split: sum.splits)
  with Inl show ?thesis by (simp add: segment_entry_iff)
next
  case (Inr segs)
  with listSegments_Inr [OF Inr] show ?thesis by (simp add: segment_entry_iff)
qed

theorem listSegments_spec_witness:
  "\<exists>segs. listSegments id ''log'' (Inr [(segmentName 9, True), (segmentName 1, True)]) = Inr segs
     \<and> sorted (map seg_first segs) \<and> mset (map seg_path segs) = mset [segmentName 9, segmentName 1]"
  using listSegments_spec [where quote = id and dir = "''log''" and entries = "[(segmentName 9, True), (segmentName 1, True)]"]
  by (auto split: sum.splits)

end
