(* ===== verification/Disk.thy ===== *)
theory Disk
  imports Segment
begin

text \<open>
  The operating system as the storage code uses it (package \<^verbatim>\<open>os\<close> and \<^verbatim>\<open>syncdir_unix.go\<close>): the files of one
  directory, with the bytes a read sees and the bytes that are guaranteed to survive a crash, and a
  script of outcomes that decides which calls fail. Every call takes the next outcome of the script;
  an exhausted script succeeds. A failed write may leave any part of its data in the file. Because
  the storage code stops at the first failed call, the disk state at any moment inside an operation
  is the disk state of a run in which the next call fails, so quantifying over scripts also covers a
  crash at every point of an operation.

  A file has pending changes from a write or a truncation until the next successful flush. A crash
  keeps the durable bytes of a file, followed by arbitrary bytes if changes were pending; it may drop
  a file whose directory entry was never flushed and may bring back the old name of a renamed file.
\<close>

subsection \<open>State\<close>

datatype outcome = Ok | Fail error nat

record dfile =
  content :: bytes
  durable :: bytes
  pending :: bool
  entry_durable :: bool
  regular :: bool

record world =
  files :: "(string \<times> dfile) list"
  ghosts :: "(string \<times> dfile) list"
  faults :: "outcome list"
  log_lines :: "(string \<times> string \<times> (string \<times> string) list) list"

record handle =
  h_name :: string
  h_open :: bool

definition next_outcome :: "world \<Rightarrow> outcome \<times> world" where
  "next_outcome w = (case faults w of [] \<Rightarrow> (Ok, w) | f # fs \<Rightarrow> (f, w\<lparr>faults := fs\<rparr>))"

definition get_file :: "world \<Rightarrow> string \<Rightarrow> dfile option" where
  "get_file w name = map_of (files w) name"

definition put_file :: "string \<Rightarrow> dfile \<Rightarrow> world \<Rightarrow> world" where
  "put_file name f w = w\<lparr>files := (name, f) # filter (\<lambda>p. fst p \<noteq> name) (files w)\<rparr>"

definition errNotExist :: error where "errNotExist = OSErr NotExist ''no such file or directory''"
definition errExist :: error where "errExist = OSErr OtherOS ''file exists''"
definition errFileClosed :: error where "errFileClosed = OSErr OtherOS ''file already closed''"

definition slog_line :: "string \<Rightarrow> string \<Rightarrow> (string \<times> string) list \<Rightarrow> world \<Rightarrow> world" where
  "slog_line level msg attrs w = w\<lparr>log_lines := log_lines w @ [(level, msg, attrs)]\<rparr>"

subsection \<open>System calls\<close>

definition os_MkdirAll :: "world \<Rightarrow> error option \<times> world" where
  "os_MkdirAll w = (case next_outcome w of (Ok, w) \<Rightarrow> (None, w) | (Fail e _, w) \<Rightarrow> (Some e, w))"

definition os_ReadDir :: "world \<Rightarrow> (error + (string \<times> bool) list) \<times> world" where
  "os_ReadDir w =
     (case next_outcome w of
        (Fail e _, w) \<Rightarrow> (Inl e, w)
      | (Ok, w) \<Rightarrow>
          (Inr (map (\<lambda>n. (n, case get_file w n of None \<Rightarrow> False | Some f \<Rightarrow> regular f))
             (sort (map fst (files w)))), w))"

definition os_ReadFile :: "string \<Rightarrow> world \<Rightarrow> (error + bytes) \<times> world" where
  "os_ReadFile name w =
     (case next_outcome w of
        (Fail e _, w) \<Rightarrow> (Inl e, w)
      | (Ok, w) \<Rightarrow>
          (case get_file w name of None \<Rightarrow> (Inl errNotExist, w) | Some f \<Rightarrow> (Inr (content f), w)))"

text \<open>\<^verbatim>\<open>O_CREATE|O_EXCL|O_WRONLY|O_APPEND\<close>, and \<^verbatim>\<open>O_WRONLY\<close> with or without \<^verbatim>\<open>O_APPEND\<close>.\<close>

definition os_CreateExcl :: "string \<Rightarrow> world \<Rightarrow> (error + handle) \<times> world" where
  "os_CreateExcl name w =
     (case next_outcome w of
        (Fail e _, w) \<Rightarrow> (Inl e, w)
      | (Ok, w) \<Rightarrow>
          (case get_file w name of
             Some _ \<Rightarrow> (Inl errExist, w)
           | None \<Rightarrow>
               (Inr \<lparr>h_name = name, h_open = True\<rparr>,
                put_file name
                  \<lparr>content = [], durable = [], pending = False, entry_durable = False, regular = True\<rparr> w)))"

definition os_OpenWrite :: "string \<Rightarrow> world \<Rightarrow> (error + handle) \<times> world" where
  "os_OpenWrite name w =
     (case next_outcome w of
        (Fail e _, w) \<Rightarrow> (Inl e, w)
      | (Ok, w) \<Rightarrow>
          (case get_file w name of
             None \<Rightarrow> (Inl errNotExist, w)
           | Some _ \<Rightarrow> (Inr \<lparr>h_name = name, h_open = True\<rparr>, w)))"

definition append_content :: "string \<Rightarrow> bytes \<Rightarrow> world \<Rightarrow> world" where
  "append_content name data w =
     (case get_file w name of
        None \<Rightarrow> w
      | Some f \<Rightarrow> put_file name (f\<lparr>content := content f @ data, pending := True\<rparr>) w)"

definition file_Write :: "handle \<Rightarrow> bytes \<Rightarrow> world \<Rightarrow> error option \<times> world" where
  "file_Write h data w =
     (if \<not> h_open h then (Some errFileClosed, w)
      else
        (case next_outcome w of
           (Ok, w) \<Rightarrow> (None, append_content (h_name h) data w)
         | (Fail e n, w) \<Rightarrow> (Some e, append_content (h_name h) (take n data) w)))"

definition file_Sync :: "handle \<Rightarrow> world \<Rightarrow> error option \<times> world" where
  "file_Sync h w =
     (if \<not> h_open h then (Some errFileClosed, w)
      else
        (case next_outcome w of
           (Fail e _, w) \<Rightarrow> (Some e, w)
         | (Ok, w) \<Rightarrow>
             (None,
              (case get_file w (h_name h) of
                 None \<Rightarrow> w
               | Some f \<Rightarrow> put_file (h_name h) (f\<lparr>durable := content f, pending := False\<rparr>) w))))"

definition file_Close :: "handle \<Rightarrow> world \<Rightarrow> error option \<times> handle \<times> world" where
  "file_Close h w =
     (if \<not> h_open h then (Some errFileClosed, h, w)
      else
        (case next_outcome w of
           (Ok, w) \<Rightarrow> (None, h\<lparr>h_open := False\<rparr>, w)
         | (Fail e _, w) \<Rightarrow> (Some e, h\<lparr>h_open := False\<rparr>, w)))"

definition os_Truncate :: "string \<Rightarrow> nat \<Rightarrow> world \<Rightarrow> error option \<times> world" where
  "os_Truncate name n w =
     (case next_outcome w of
        (Fail e _, w) \<Rightarrow> (Some e, w)
      | (Ok, w) \<Rightarrow>
          (case get_file w name of
             None \<Rightarrow> (Some errNotExist, w)
           | Some f \<Rightarrow>
               (None,
                put_file name
                  (f\<lparr>content := take n (content f) @ replicate (n - length (content f)) 0,
                     durable := take n (durable f), pending := True\<rparr>) w)))"

definition sync_entries :: "world \<Rightarrow> world" where
  "sync_entries w = w\<lparr>files := map (\<lambda>(n, f). (n, f\<lparr>entry_durable := True\<rparr>)) (files w), ghosts := []\<rparr>"

definition syncDir :: "world \<Rightarrow> error option \<times> world" where
  "syncDir w =
     (case next_outcome w of
        (Fail e _, w) \<Rightarrow>
          (Some (KV (Some (Wrap ReasonInternal e ''directory could not be opened for sync''))), w)
      | (Ok, w) \<Rightarrow>
          (let (syncErr, w) =
                 (case next_outcome w of
                    (Ok, w) \<Rightarrow> (None, sync_entries w)
                  | (Fail e _, w) \<Rightarrow> (Some e, w));
               (closeErr, w) =
                 (case next_outcome w of (Ok, w) \<Rightarrow> (None, w) | (Fail e _, w) \<Rightarrow> (Some e, w))
           in (case syncErr of
                 Some e \<Rightarrow>
                   (Some (KV (Some (Wrap ReasonInternal e ''directory could not be synced''))), w)
               | None \<Rightarrow>
                   (case closeErr of
                      Some e \<Rightarrow>
                        (Some (KV (Some (Wrap ReasonInternal e ''directory could not be closed''))), w)
                    | None \<Rightarrow> (None, w)))))"

text \<open>\<^verbatim>\<open>O_CREATE|O_TRUNC|O_WRONLY\<close>, and \<^verbatim>\<open>os.Rename\<close> within the directory.\<close>

definition os_CreateTrunc :: "string \<Rightarrow> world \<Rightarrow> (error + handle) \<times> world" where
  "os_CreateTrunc name w =
     (case next_outcome w of
        (Fail e _, w) \<Rightarrow> (Inl e, w)
      | (Ok, w) \<Rightarrow>
          (Inr \<lparr>h_name = name, h_open = True\<rparr>,
           (case get_file w name of
              None \<Rightarrow>
                put_file name \<lparr>content = [], durable = [], pending = False, entry_durable = False, regular = True\<rparr> w
            | Some f \<Rightarrow> put_file name (f\<lparr>content := [], durable := [], pending := True\<rparr>) w)))"

definition os_Rename :: "string \<Rightarrow> string \<Rightarrow> world \<Rightarrow> error option \<times> world" where
  "os_Rename old new w =
     (case next_outcome w of
        (Fail e _, w) \<Rightarrow> (Some e, w)
      | (Ok, w) \<Rightarrow>
          (case get_file w old of
             None \<Rightarrow> (Some errNotExist, w)
           | Some f \<Rightarrow>
               (None,
                put_file new (f\<lparr>entry_durable := False\<rparr>)
                  (w\<lparr>files := filter (\<lambda>p. fst p \<noteq> old) (files w),
                     ghosts := (old, f) # map (Pair new) (case get_file w new of None \<Rightarrow> [] | Some g \<Rightarrow> [g]) @ ghosts w\<rparr>))))"

subsection \<open>Crashes\<close>

definition crash_file :: "dfile \<Rightarrow> dfile \<Rightarrow> bool" where
  "crash_file f f' \<longleftrightarrow>
     (\<exists>t. (\<not> pending f \<longrightarrow> t = []) \<and>
        f' = \<lparr>content = durable f @ t, durable = durable f @ t, pending = False,
              entry_durable = True, regular = regular f\<rparr>)"

definition crash :: "world \<Rightarrow> world \<Rightarrow> bool" where
  "crash w w' \<longleftrightarrow>
     distinct (map fst (files w')) \<and> ghosts w' = [] \<and>
     (\<forall>name.
        (case get_file w' name of
           None \<Rightarrow> (case get_file w name of None \<Rightarrow> True | Some f \<Rightarrow> \<not> entry_durable f)
         | Some f' \<Rightarrow>
             (\<exists>f. (get_file w name = Some f \<or> (name, f) \<in> set (ghosts w)) \<and> crash_file f f')))"

subsection \<open>What each call does to the directory\<close>

definition tidy :: "world \<Rightarrow> bool" where
  "tidy w \<longleftrightarrow> distinct (map fst (files w)) \<and> ghosts w = []"

lemma get_put_file [simp]: "get_file (put_file n f w) = (get_file w)(n \<mapsto> f)"
  by (rule ext) (auto simp: get_file_def put_file_def map_of_filter_neq)

lemma put_file_sel [simp]:
  "faults (put_file n f w) = faults w" "ghosts (put_file n f w) = ghosts w"
  "log_lines (put_file n f w) = log_lines w"
  by (simp_all add: put_file_def)

lemma tidy_put_file [simp]: "tidy w \<Longrightarrow> tidy (put_file n f w)"
  by (auto simp: tidy_def put_file_def distinct_map_filter)

lemma get_file_faults [simp]: "get_file (w\<lparr>faults := fs\<rparr>) = get_file w"
  by (rule ext) (simp add: get_file_def)

lemma get_file_log_lines [simp]: "get_file (w\<lparr>log_lines := ls\<rparr>) = get_file w"
  by (rule ext) (simp add: get_file_def)

lemma tidy_log_lines [simp]: "tidy (w\<lparr>log_lines := ls\<rparr>) = tidy w" "tidy (w\<lparr>faults := fs\<rparr>) = tidy w"
  by (simp_all add: tidy_def)

text \<open>Worlds that differ only in the script left to consume.\<close>

definition same_disk :: "world \<Rightarrow> world \<Rightarrow> bool" where
  "same_disk w w' \<longleftrightarrow> get_file w' = get_file w \<and> (tidy w \<longrightarrow> tidy w') \<and> log_lines w' = log_lines w"

text \<open>The result of a call succeeds when the script has no fault left.\<close>

definition sound :: "world \<Rightarrow> bool \<Rightarrow> world \<Rightarrow> bool" where
  "sound w success w' \<longleftrightarrow> (faults w = [] \<longrightarrow> success \<and> faults w' = [])"

lemma same_disk_refl [simp]: "same_disk w w"
  by (simp add: same_disk_def)

lemma same_disk_trans [trans]: "same_disk w w' \<Longrightarrow> same_disk w' w'' \<Longrightarrow> same_disk w w''"
  by (simp add: same_disk_def)

lemma next_outcome_same: "next_outcome w = (x, w') \<Longrightarrow> same_disk w w' \<and> sound w (x = Ok) w'"
  by (auto simp: next_outcome_def same_disk_def sound_def split: list.splits)

lemma os_MkdirAll_spec: "os_MkdirAll w = (r, w') \<Longrightarrow> same_disk w w' \<and> sound w (r = None) w'"
  by (auto simp: os_MkdirAll_def sound_def dest: next_outcome_same split: prod.splits outcome.splits)

lemma os_ReadDir_spec:
  assumes "os_ReadDir w = (r, w')"
  shows "same_disk w w'" "sound w (\<not> isl r) w'"
    "r = Inr es \<Longrightarrow> tidy w \<Longrightarrow> distinct (map fst es)
       \<and> set (map fst es) = dom (get_file w)
       \<and> (\<forall>(n, reg) \<in> set es. \<exists>f. get_file w n = Some f \<and> reg = regular f)"
proof -
  from assms show "same_disk w w'" "sound w (\<not> isl r) w'"
    by (auto simp: os_ReadDir_def sound_def dest: next_outcome_same split: prod.splits outcome.splits)
  assume r: "r = Inr es" and t: "tidy w"
  obtain x w1 where x: "next_outcome w = (x, w1)"
    by fastforce
  have files: "files w1 = files w"
    using x by (auto simp: next_outcome_def split: list.splits)
  then have get: "get_file w1 = get_file w"
    by (simp add: get_file_def fun_eq_iff)
  have es: "es = map (\<lambda>n. (n, case get_file w n of None \<Rightarrow> False | Some f \<Rightarrow> regular f))
      (sort (map fst (files w)))"
    using assms r x by (auto simp: os_ReadDir_def files get split: outcome.splits)
  have dom: "dom (get_file w) = fst ` set (files w)"
    by (simp add: get_file_def dom_map_of_conv_image_fst [symmetric] dom_def)
  have "map fst es = sort (map fst (files w))"
    by (simp add: es comp_def)
  moreover have "\<forall>(n, reg) \<in> set es. \<exists>f. get_file w n = Some f \<and> reg = regular f"
  proof (intro ballI, clarify)
    fix n reg assume "(n, reg) \<in> set es"
    then have "n \<in> dom (get_file w)"
      and reg: "reg = (case get_file w n of None \<Rightarrow> False | Some f \<Rightarrow> regular f)"
      by (auto simp: es dom)
    then show "\<exists>f. get_file w n = Some f \<and> reg = regular f" by auto
  qed
  ultimately show "distinct (map fst es) \<and> set (map fst es) = dom (get_file w)
      \<and> (\<forall>(n, reg) \<in> set es. \<exists>f. get_file w n = Some f \<and> reg = regular f)"
    using t by (simp add: dom tidy_def)
qed

lemma os_ReadFile_spec:
  assumes "os_ReadFile name w = (r, w')" and "get_file w name = Some f"
  shows "same_disk w w' \<and> sound w (\<not> isl r) w' \<and> (\<forall>d. r = Inr d \<longrightarrow> d = content f)"
  using assms next_outcome_same [of w]
  by (auto simp: os_ReadFile_def sound_def same_disk_def split: prod.splits outcome.splits option.splits)

lemma os_OpenWrite_spec:
  assumes "os_OpenWrite name w = (r, w')" and "get_file w name = Some f"
  shows "same_disk w w' \<and> sound w (\<not> isl r) w' \<and> (\<forall>h. r = Inr h \<longrightarrow> h = \<lparr>h_name = name, h_open = True\<rparr>)"
  using assms next_outcome_same [of w]
  by (auto simp: os_OpenWrite_def sound_def same_disk_def split: prod.splits outcome.splits option.splits)

abbreviation new_file :: dfile where
  "new_file \<equiv> \<lparr>content = [], durable = [], pending = False, entry_durable = False, regular = True\<rparr>"

lemma os_CreateExcl_spec:
  assumes "os_CreateExcl name w = (r, w')" and "get_file w name = None"
  shows "(case r of
            Inl e \<Rightarrow> same_disk w w'
          | Inr h \<Rightarrow> h = \<lparr>h_name = name, h_open = True\<rparr> \<and> get_file w' = (get_file w)(name \<mapsto> new_file)
              \<and> (tidy w \<longrightarrow> tidy w') \<and> log_lines w' = log_lines w)
     \<and> sound w (\<not> isl r) w'"
  using assms next_outcome_same [of w]
  by (auto simp: os_CreateExcl_def sound_def same_disk_def split: prod.splits outcome.splits option.splits)

lemma file_Write_spec:
  assumes "file_Write h data w = (r, w')" and "h_open h" and "get_file w (h_name h) = Some f"
  obtains n where "r = None \<Longrightarrow> length data \<le> n"
    and "get_file w' = (get_file w)(h_name h \<mapsto> f\<lparr>content := content f @ take n data, pending := True\<rparr>)"
    and "tidy w \<Longrightarrow> tidy w'" and "log_lines w' = log_lines w" and "sound w (r = None) w'"
proof -
  obtain x w1 where x: "next_outcome w = (x, w1)" by fastforce
  from next_outcome_same [OF x] have same: "same_disk w w1" and "sound w (x = Ok) w1" by auto
  then show thesis
    using that [of "case x of Ok \<Rightarrow> length data | Fail e n \<Rightarrow> n"] assms x
    by (cases x) (auto simp: file_Write_def append_content_def same_disk_def sound_def)
qed

lemma file_Sync_spec:
  assumes "file_Sync h w = (r, w')" and "h_open h" and "get_file w (h_name h) = Some f"
  shows "get_file w' = (if r = None then (get_file w)(h_name h \<mapsto> f\<lparr>durable := content f, pending := False\<rparr>)
      else get_file w)"
    and "tidy w \<Longrightarrow> tidy w'" and "log_lines w' = log_lines w" and "sound w (r = None) w'"
  using assms next_outcome_same [of w]
  by (auto simp: file_Sync_def sound_def same_disk_def split: prod.splits outcome.splits option.splits)

lemma file_Close_spec:
  assumes "file_Close h w = (r, h', w')"
  shows "same_disk w w' \<and> h' = h\<lparr>h_open := False\<rparr> \<and> sound w (h_open h \<longrightarrow> r = None) w'"
  using assms next_outcome_same [of w]
  by (auto simp: file_Close_def sound_def split: if_splits prod.splits outcome.splits)

lemma os_Truncate_spec:
  assumes "os_Truncate name n w = (r, w')" and "get_file w name = Some f" and "n \<le> length (content f)"
  shows "get_file w' = (if r = None then (get_file w)(name \<mapsto>
      f\<lparr>content := take n (content f), durable := take n (durable f), pending := True\<rparr>) else get_file w)"
    and "tidy w \<Longrightarrow> tidy w'" and "log_lines w' = log_lines w" and "sound w (r = None) w'"
  using assms next_outcome_same [of w]
  by (auto simp: os_Truncate_def sound_def same_disk_def split: prod.splits outcome.splits option.splits)

definition entries_durable :: "(string \<Rightarrow> dfile option) \<Rightarrow> string \<Rightarrow> dfile option" where
  "entries_durable d = (\<lambda>n. map_option (\<lambda>f. f\<lparr>entry_durable := True\<rparr>) (d n))"

lemma get_sync_entries: "get_file (sync_entries w) = entries_durable (get_file w)"
  by (rule ext) (simp add: get_file_def sync_entries_def entries_durable_def map_of_map comp_def)

lemma tidy_sync_entries: "tidy w \<Longrightarrow> tidy (sync_entries w)"
  by (simp add: tidy_def sync_entries_def comp_def case_prod_beta)

lemma syncDir_spec:
  assumes "syncDir w = (r, w')"
  shows "get_file w' = get_file w \<or> get_file w' = entries_durable (get_file w)"
    and "r = None \<Longrightarrow> get_file w' = entries_durable (get_file w)"
    and "tidy w \<Longrightarrow> tidy w'" and "log_lines w' = log_lines w" and "sound w (r = None) w'"
proof -
  obtain x1 w1 where 1: "next_outcome w = (x1, w1)" by fastforce
  obtain x2 w2 where 2: "next_outcome w1 = (x2, w2)" by fastforce
  define w2' where "w2' = (if x2 = Ok then sync_entries w2 else w2)"
  obtain x3 w3 where 3: "next_outcome w2' = (x3, w3)" by fastforce
  have lines: "log_lines w2' = log_lines w2" "faults w2' = faults w2"
    by (simp_all add: w2'_def sync_entries_def)
  note same = next_outcome_same [OF 1] next_outcome_same [OF 2] next_outcome_same [OF 3]
  have tidy: "tidy w2 \<Longrightarrow> tidy w2'"
    by (simp add: w2'_def tidy_sync_entries)
  have w': "w' = (if x1 = Ok then w3 else w1)" and r: "r = None \<longleftrightarrow> x1 = Ok \<and> x2 = Ok \<and> x3 = Ok"
    using assms 1 2 3
    by (auto simp: syncDir_def w2'_def Let_def split: outcome.splits if_splits)
  have get: "get_file w2' = (if x2 = Ok then entries_durable (get_file w) else get_file w)"
    using same by (simp add: w2'_def get_sync_entries same_disk_def)
  show "get_file w' = get_file w \<or> get_file w' = entries_durable (get_file w)"
    and "r = None \<Longrightarrow> get_file w' = entries_durable (get_file w)"
    and "tidy w \<Longrightarrow> tidy w'" and "log_lines w' = log_lines w" and "sound w (r = None) w'"
    using same get w' r lines tidy by (auto simp: same_disk_def sound_def)
qed

lemma slog_line_spec [simp]:
  "get_file (slog_line lv m as w) = get_file w" "tidy (slog_line lv m as w) = tidy w"
  "faults (slog_line lv m as w) = faults w"
  "log_lines (slog_line lv m as w) = log_lines w @ [(lv, m, as)]"
  by (simp_all add: slog_line_def)

end
