(* ===== verification/Crc32c.thy ===== *)
theory Crc32c
  imports Prelude
begin

text \<open>
  The CRC32C checksum (\<^verbatim>\<open>hash/crc32\<close> with the Castagnoli table), which the command log puts on every
  record and the slot function reduces to a slot number. The definitions follow the table-driven
  algorithm of the standard library: the table entry of a byte is eight steps of the reflected shift
  register, and an update consumes one table entry per input byte. The lemmas show that the register
  is linear and invertible, and from that the error-detection guarantee the storage layer relies on:
  two inputs of equal length that differ only inside a window of at most four bytes never have the
  same checksum.
\<close>

subsection \<open>The algorithm\<close>

definition castagnoli_poly :: u32 where
  "castagnoli_poly = 0x82F63B78"

definition crc_bit :: "u32 \<Rightarrow> u32" where
  "crc_bit c = (if bit c 0 then drop_bit 1 c XOR castagnoli_poly else drop_bit 1 c)"

definition crc_entry :: "byte \<Rightarrow> u32" where
  "crc_entry b =
     crc_bit (crc_bit (crc_bit (crc_bit (crc_bit (crc_bit (crc_bit (crc_bit (ucast b))))))))"

definition crcTable :: "u32 list" where
  "crcTable = map (\<lambda>i. crc_entry (word_of_nat i)) [0..<256]"

definition crc_update :: "u32 \<Rightarrow> byte \<Rightarrow> u32" where
  "crc_update c v = crcTable ! unat (ucast c XOR v) XOR drop_bit 8 c"

fun crc_loop :: "u32 \<Rightarrow> bytes \<Rightarrow> u32" where
  "crc_loop c [] = c"
| "crc_loop c (v # p) = crc_loop (crc_update c v) p"

definition crc32c :: "bytes \<Rightarrow> u32" where
  "crc32c p = NOT (crc_loop (NOT 0) p)"

subsection \<open>The shift register is linear and invertible\<close>

lemma bit_crc_bit:
  "bit (crc_bit c) n \<longleftrightarrow> bit c (Suc n) \<noteq> (bit c 0 \<and> bit castagnoli_poly n)"
  by (auto simp: crc_bit_def bit_simps dest: bit_imp_le_length)

lemma crc_bit_xor: "crc_bit (a XOR b) = crc_bit a XOR crc_bit b"
  by (rule bit_word_eqI) (auto simp: bit_crc_bit bit_xor_iff)

lemma crc_bits_xor: "(crc_bit ^^ n) (a XOR b) = (crc_bit ^^ n) a XOR (crc_bit ^^ n) b"
  by (induction n) (simp_all add: crc_bit_xor)

lemma castagnoli_top_bit: "bit castagnoli_poly 31"
  by (simp add: castagnoli_poly_def)

lemma crc_bit_zero: "crc_bit c = 0 \<Longrightarrow> c = 0"
proof (rule bit_word_eqI)
  fix n
  assume z: "crc_bit c = 0"
  have out: "\<not> bit c 32"
    using bit_imp_le_length [of c 32] by auto
  from z have b: "\<And>n. bit c (Suc n) = (bit c 0 \<and> bit castagnoli_poly n)"
    using bit_crc_bit [of c] by simp
  from b [of 31] out castagnoli_top_bit have "\<not> bit c 0"
    by simp
  with b show "bit c n \<longleftrightarrow> bit 0 n"
    by (cases n) auto
qed

lemma crc_bit_inj: "crc_bit a = crc_bit b \<Longrightarrow> a = b"
proof -
  assume "crc_bit a = crc_bit b"
  then have "crc_bit (a XOR b) = 0"
    by (simp add: crc_bit_xor)
  then have "a XOR b = 0"
    by (rule crc_bit_zero)
  then have "a XOR b = b XOR b"
    by simp
  then show "a = b"
    by (rule word_xor_cancel)
qed

lemma crc_bits_inj: "(crc_bit ^^ n) a = (crc_bit ^^ n) b \<Longrightarrow> a = b"
  by (induction n) (auto dest: crc_bit_inj)

lemma crc_bits_push: "take_bit (32 - n) w = w \<Longrightarrow> (crc_bit ^^ n) (push_bit n w) = w"
proof (induction n)
  case 0
  then show ?case by simp
next
  case (Suc n)
  have even: "\<not> bit (push_bit (Suc n) w) 0"
    by (simp add: bit_push_bit_iff del: push_bit_Suc)
  have lt: "\<And>m. bit w m \<Longrightarrow> m < 32 - Suc n"
    using Suc.prems by (metis bit_take_bit_iff)
  have shift: "crc_bit (push_bit (Suc n) w) = push_bit n w"
  proof (rule bit_word_eqI)
    fix m
    show "bit (crc_bit (push_bit (Suc n) w)) m \<longleftrightarrow> bit (push_bit n w) m"
      using even lt [of "m - n"]
      by (auto simp: bit_crc_bit bit_push_bit_iff simp del: push_bit_Suc)
  qed
  have "take_bit (32 - n) w = w"
    using lt by (intro bit_word_eqI) (fastforce simp: bit_simps)
  then have "(crc_bit ^^ n) (push_bit n w) = w"
    by (rule Suc.IH)
  with shift show ?case
    by (simp add: funpow_swap1 del: push_bit_Suc)
qed

subsection \<open>Table lookups are eight register steps\<close>

lemma crc_entry_funpow: "crc_entry b = (crc_bit ^^ 8) (ucast b)"
  by (simp add: crc_entry_def eval_nat_numeral)

lemma crcTable_nth: "crcTable ! unat b = crc_entry b"
  using unsigned_less [of b, where 'a = nat] by (simp add: crcTable_def)

lemma crc_update_entry: "crc_update c v = crc_entry (ucast c XOR v) XOR drop_bit 8 c"
  by (simp add: crc_update_def crcTable_nth)

lemma crc_update_register: "crc_update c v = (crc_bit ^^ 8) (c XOR ucast v)"
proof -
  have "take_bit (32 - 8) (drop_bit 8 c) = drop_bit 8 c"
    by (rule bit_word_eqI) (auto simp: bit_simps dest: bit_imp_le_length)
  then have high: "(crc_bit ^^ 8) (push_bit 8 (drop_bit 8 c)) = drop_bit 8 c"
    by (rule crc_bits_push)
  have "c XOR ucast v = ucast (ucast c XOR v) XOR push_bit 8 (drop_bit 8 c)"
    by (rule bit_word_eqI) (auto simp: bit_simps dest: bit_imp_le_length)
  then have "(crc_bit ^^ 8) (c XOR ucast v) = crc_entry (ucast c XOR v) XOR drop_bit 8 c"
    by (simp add: crc_bits_xor high crc_entry_funpow)
  then show ?thesis
    by (simp add: crc_update_entry)
qed

lemma crc_update_inj: "crc_update a v = crc_update b v \<Longrightarrow> a = b"
proof -
  assume "crc_update a v = crc_update b v"
  then have "a XOR ucast v = b XOR ucast v"
    unfolding crc_update_register by (rule crc_bits_inj)
  then show "a = b"
    by (rule word_xor_cancel)
qed

lemma crc_loop_append: "crc_loop c (p @ q) = crc_loop (crc_loop c p) q"
  by (induction p arbitrary: c) auto

lemma crc_loop_inj: "crc_loop a p = crc_loop b p \<Longrightarrow> a = b"
  by (induction p arbitrary: a b) (auto dest: crc_update_inj)

text \<open>Up to four bytes enter the register as if they were one little-endian word.\<close>

lemma crc_loop_window:
  "length xs \<le> 4 \<Longrightarrow>
     crc_loop c xs = (crc_bit ^^ (8 * length xs)) (c XOR le_get xs)"
proof (induction xs arbitrary: c)
  case Nil
  show ?case by simp
next
  case (Cons x xs)
  then have len: "length xs \<le> 3" by simp
  have "take_bit (8 * length xs) (le_get xs) = (le_get xs :: u32)"
    by (rule le_get_bound)
  then have small: "take_bit (32 - 8) (le_get xs) = (le_get xs :: u32)"
    by (rule take_bit_widen) (use len in simp)
  have "crc_loop c (x # xs)
      = (crc_bit ^^ (8 * length xs)) ((crc_bit ^^ 8) (c XOR ucast x) XOR le_get xs)"
    using Cons.IH [of "crc_update c x"] len by (simp add: crc_update_register)
  also have "\<dots> = (crc_bit ^^ (8 * length xs)) ((crc_bit ^^ 8) (c XOR le_get (x # xs)))"
    using crc_bits_push [OF small]
    by (simp add: word_or_push_byte crc_bits_xor xor.assoc)
  also have "\<dots> = (crc_bit ^^ (8 * length (x # xs))) (c XOR le_get (x # xs))"
    by (simp only: length_Cons mult_Suc_right add.commute [of 8] funpow_add o_apply)
  finally show ?case .
qed

subsection \<open>Error detection\<close>

lemma crc_loop_window_inj:
  assumes "length xs \<le> 4" and "length ys = length xs"
    and "crc_loop c xs = crc_loop c ys"
  shows "xs = ys"
proof -
  have "(crc_bit ^^ (8 * length xs)) (c XOR le_get xs)
      = (crc_bit ^^ (8 * length xs)) (c XOR le_get ys)"
    using assms by (simp add: crc_loop_window)
  then have "c XOR le_get xs = c XOR (le_get ys :: u32)"
    by (rule crc_bits_inj)
  then have "le_get xs = (le_get ys :: u32)"
    using word_xor_cancel [of "le_get xs" c "le_get ys"] by (simp add: xor.commute)
  moreover have "8 * length xs \<le> LENGTH(32)"
    using assms(1) by simp
  ultimately show ?thesis
    using le_put_le_get [of xs, where 'a = 32] le_put_le_get [of ys, where 'a = 32] assms(2)
    by simp
qed

text \<open>
  The guarantee the record checksum gives: damage inside one window of at most four bytes, whatever
  it is, changes the checksum.
\<close>

lemma crc32c_window_detects:
  assumes "length xs \<le> 4" and "length ys = length xs" and "xs \<noteq> ys"
  shows "crc32c (p @ xs @ s) \<noteq> crc32c (p @ ys @ s)"
proof
  assume "crc32c (p @ xs @ s) = crc32c (p @ ys @ s)"
  then have "crc_loop (crc_loop (crc_loop (NOT 0) p) xs) s
      = crc_loop (crc_loop (crc_loop (NOT 0) p) ys) s"
    by (simp add: crc32c_def crc_loop_append)
  then have "crc_loop (crc_loop (NOT 0) p) xs
      = crc_loop (crc_loop (NOT 0) p) ys"
    by (rule crc_loop_inj)
  with assms show False
    using crc_loop_window_inj by blast
qed

text \<open>
  Evaluation: the table entry is computed instead of looked up, and a register step on a numeral
  is a division by two. The published check value of CRC32C pins the definition to the standard.
\<close>

lemma crc32c_eval: "crc32c p = crc_loop 0xFFFFFFFF p XOR 0xFFFFFFFF"
proof -
  have "(0xFFFFFFFF :: u32) = NOT 0"
    by simp
  then show ?thesis
    by (simp only: crc32c_def) simp
qed

lemmas crc_eval = crc32c_eval crc_update_entry crc_entry_def crc_bit_def castagnoli_poly_def

lemma crc32c_check_value:
  "crc32c [0x31, 0x32, 0x33, 0x34, 0x35, 0x36, 0x37, 0x38, 0x39] = 0xE3069283"
  by (simp add: crc_eval)

end
