(* ===== verification/LogRecord.thy ===== *)
theory LogRecord
  imports Crc32c Kverr
begin

text \<open>
  \<^verbatim>\<open>internal/storage/record.go\<close>: the on-disk layout of a command log record. A record is a four-byte
  length, a four-byte CRC32C of the body, and the body: an eight-byte index and the command. The
  locale \<open>record_codec\<close> states what the log relies on (round trip, inversion, no record is a prefix of
  another's truncation); it is interpreted on \<open>encodeRecord\<close> and \<open>decodeRecord\<close>, and the scanner of the
  recovery code works over it.
\<close>

subsection \<open>Encoding and decoding\<close>

definition recordHeaderSize :: nat where "recordHeaderSize = 8"
definition recordIndexSize :: nat where "recordIndexSize = 8"
definition maxRecordBodySize :: nat where "maxRecordBodySize = 64 * 2 ^ 20"
definition maxCommandSize :: nat where "maxCommandSize = maxRecordBodySize - recordIndexSize"

lemmas record_sizes =
  recordHeaderSize_def recordIndexSize_def maxRecordBodySize_def maxCommandSize_def

definition errTornRecord :: error where
  "errTornRecord = Sentinel ''errTornRecord'' ''record is cut short by the end of the segment''"
definition errBadLength :: error where
  "errBadLength = Sentinel ''errBadLength'' ''record length is out of range''"
definition errBadChecksum :: error where
  "errBadChecksum = Sentinel ''errBadChecksum'' ''record checksum does not match''"

definition encodeRecord :: "u64 \<Rightarrow> bytes \<Rightarrow> bytes" where
  "encodeRecord index command =
     (let body = le_put recordIndexSize index @ command
      in le_put 4 (word_of_nat (length body) :: u32) @ le_put 4 (crc32c body) @ body)"

definition decodeRecord :: "bytes \<Rightarrow> error + u64 \<times> bytes \<times> nat" where
  "decodeRecord buf =
     (if length buf < recordHeaderSize then Inl errTornRecord
      else
        let len = unat (le_get (take 4 buf) :: u32)
        in if len < recordIndexSize \<or> maxRecordBodySize < len then Inl errBadLength
           else
             let size = recordHeaderSize + len
             in if length buf < size then Inl errTornRecord
                else
                  let body = take len (drop recordHeaderSize buf)
                  in if crc32c body \<noteq> le_get (take 4 (drop 4 buf)) then Inl errBadChecksum
                     else Inr (le_get (take recordIndexSize body), drop recordIndexSize body, size))"

subsection \<open>The search for a later record\<close>

function has_later_from :: "bytes \<Rightarrow> u64 \<Rightarrow> nat \<Rightarrow> bool" where
  "has_later_from tail damaged p =
     (if p + recordHeaderSize + recordIndexSize \<le> length tail then
        (let index = (le_get (take 8 (drop (p + recordHeaderSize) tail)) :: u64)
         in if index \<le> damaged \<or> word_of_nat (length tail) < index - damaged
            then has_later_from tail damaged (p + 1)
            else
              (case decodeRecord (drop p tail) of
                 Inr (got, _, _) \<Rightarrow>
                   if got = index then True else has_later_from tail damaged (p + 1)
               | Inl _ \<Rightarrow> has_later_from tail damaged (p + 1)))
      else False)"
  by pat_completeness auto
termination
  by (relation "measure (\<lambda>(tail, damaged, p). length tail - p)") (auto simp: record_sizes)

declare has_later_from.simps [simp del]

definition hasLaterRecord :: "bytes \<Rightarrow> u64 \<Rightarrow> bool" where
  "hasLaterRecord tail damaged = has_later_from tail damaged 1"

text \<open>The bytes of a run of records with consecutive indexes, starting at a given index.\<close>

fun image :: "u64 \<Rightarrow> bytes list \<Rightarrow> bytes" where
  "image i [] = []"
| "image i (c # cs) = encodeRecord i c @ image (i + 1) cs"

subsection \<open>Round trip and inversion\<close>

lemma length_encodeRecord [simp]: "length (encodeRecord i c) = 16 + length c"
  by (simp add: encodeRecord_def Let_def record_sizes)

lemma unat_body_length:
  "length c \<le> maxCommandSize \<Longrightarrow> unat (word_of_nat (8 + length c) :: u32) = 8 + length c"
  by (simp add: unat_of_nat record_sizes take_bit_nat_eq_self del: of_nat_add)

lemma decodeRecord_encodeRecord:
  assumes "length c \<le> maxCommandSize"
  shows "decodeRecord (encodeRecord i c @ rest) = Inr (i, c, 16 + length c)"
  using assms unat_body_length [OF assms]
  by (auto simp: decodeRecord_def encodeRecord_def Let_def record_sizes)

text \<open>A buffer that decodes starts with the very bytes the encoder writes.\<close>

lemma decodeRecord_InrD:
  assumes "decodeRecord buf = Inr (i, c, n)"
  shows "length c \<le> maxCommandSize" "n = 16 + length c" "buf = encodeRecord i c @ drop n buf"
proof -
  define len where "len = unat (le_get (take 4 buf) :: u32)"
  define body where "body = take len (drop 8 buf)"
  from assms have buf: "8 + len \<le> length buf" and len: "8 \<le> len" "len \<le> maxRecordBodySize"
    and crc: "crc32c body = le_get (take 4 (drop 4 buf))"
    and i: "i = le_get (take 8 body)" and c: "c = drop 8 body" and n: "n = 8 + len"
    by (auto simp: decodeRecord_def Let_def recordHeaderSize_def recordIndexSize_def len_def body_def
        split: if_splits)
  have lbody: "length body = len"
    using buf by (simp add: body_def)
  have "le_put 8 i = take 8 body"
    using lbody len i by (simp add: le_put_le_get_8)
  with c have bodyi: "body = le_put 8 i @ c"
    by simp
  have lenw: "le_put 4 (word_of_nat len :: u32) = take 4 buf"
    using buf by (simp add: len_def le_put_le_get_4)
  have crcb: "le_put 4 (crc32c body) = take 4 (drop 4 buf)"
    using buf crc by (simp add: le_put_le_get_4)
  have "encodeRecord i c = take 4 buf @ take 4 (drop 4 buf) @ body"
    using lenw crcb bodyi lbody by (simp add: encodeRecord_def Let_def record_sizes del: of_nat_add)
  also have "\<dots> = take (8 + len) buf"
    using take_add [of 4 4 buf] take_add [of 8 len buf] by (simp add: body_def)
  finally show "buf = encodeRecord i c @ drop n buf"
    using n by simp
  show "length c \<le> maxCommandSize" "n = 16 + length c"
    using c lbody len n by (simp_all add: record_sizes)
qed

text \<open>
  C12: Decoding is exactly the inverse of encoding: a buffer decodes to an index, a command and a size
  if and only if it starts with the encoding of that index and command, the command fits the limit
  and the size is the record's size.
\<close>

theorem record_decode_iff_encoded:
  "decodeRecord buf = Inr (i, c, n) \<longleftrightarrow>
     length c \<le> maxCommandSize \<and> n = 16 + length c \<and> (\<exists>rest. buf = encodeRecord i c @ rest)"
  using decodeRecord_InrD [of buf i c n] decodeRecord_encodeRecord by metis

subsection \<open>Torn and damaged records\<close>

lemma encodeRecord_length_field:
  "length c \<le> maxCommandSize \<Longrightarrow> unat (le_get (take 4 (encodeRecord i c)) :: u32) = 8 + length c"
  using unat_body_length [of c] by (simp add: encodeRecord_def Let_def record_sizes del: of_nat_add)

lemma decodeRecord_torn:
  assumes "length c \<le> maxCommandSize" and "strict_prefix p (encodeRecord i c)"
  shows "decodeRecord p = Inl errTornRecord"
proof (cases "length p < 8")
  case True
  then show ?thesis by (simp add: decodeRecord_def record_sizes)
next
  case False
  from assms(2) have "length p < 16 + length c"
    using prefix_length_less by fastforce
  moreover have "take 4 p = take 4 (encodeRecord i c)"
    using assms(2) False by (intro take_prefix_same) auto
  ultimately show ?thesis
    using False assms(1) encodeRecord_length_field [OF assms(1)]
    by (auto simp: decodeRecord_def Let_def record_sizes)
qed

text \<open>
  C14: However a crash cuts the write of a record short, the remaining bytes decode as a torn record:
  no proper prefix of a record is ever read as a record or blamed on a bad checksum.
\<close>

theorem record_torn_write_detected:
  assumes "length c \<le> maxCommandSize" and "strict_prefix p (encodeRecord i c)"
  shows "decodeRecord p = Inl errTornRecord"
  using assms by (rule decodeRecord_torn)

theorem record_torn_write_detected_witness:
  "decodeRecord (take 18 (encodeRecord 7 [1, 2, 3])) = Inl errTornRecord"
proof (rule record_torn_write_detected [of "[1, 2, 3]"])
  show "length [1, 2, 3 :: byte] \<le> maxCommandSize"
    by (simp add: record_sizes)
  show "strict_prefix (take 18 (encodeRecord 7 [1, 2, 3])) (encodeRecord 7 [1, 2, 3])"
    by (rule strict_prefix_take) simp
qed

lemma decodeRecord_bad_checksum:
  assumes "length hdr = 4" "length crc = 4" "8 \<le> length body" "length body \<le> maxRecordBodySize"
    and "hdr = le_put 4 (word_of_nat (length body) :: u32)" and "crc \<noteq> le_put 4 (crc32c body)"
  shows "decodeRecord (hdr @ crc @ body @ rest) = Inl errBadChecksum"
proof -
  have "length body < 2 ^ LENGTH(32)"
    using assms(4) by (simp add: record_sizes)
  then have "unat (le_get hdr :: u32) = length body"
    using assms(5) by (simp add: unat_of_nat take_bit_nat_eq_self)
  moreover have "le_get crc \<noteq> crc32c body"
    using assms(2,6) le_put_le_get_4 by metis
  ultimately show ?thesis
    using assms(1-4) by (auto simp: decodeRecord_def Let_def record_sizes)
qed

text \<open>
  C13: Damage to a stored record that stays inside one window of at most four bytes of its body (index
  and command), or that hits its checksum field in any way, is always reported as a bad checksum; it
  can never be applied under the damaged content.
\<close>

theorem record_damage_detected:
  assumes "length c \<le> maxCommandSize"
    and enc: "encodeRecord i c = hdr @ crc @ pre @ xs @ post" "length hdr = 4" "length crc = 4"
    and window: "length xs \<le> 4" "length ys = length xs" "length crc' = 4"
    and damage: "xs \<noteq> ys \<and> crc' = crc \<or> xs = ys \<and> crc' \<noteq> crc"
  shows "decodeRecord (hdr @ crc' @ pre @ ys @ post @ rest) = Inl errBadChecksum"
proof -
  let ?body = "le_put 8 i @ c"
  have "hdr @ crc @ (pre @ xs @ post)
      = le_put 4 (word_of_nat (length ?body) :: u32) @ le_put 4 (crc32c ?body) @ ?body"
    using enc(1) by (simp add: encodeRecord_def Let_def record_sizes)
  then have parts: "hdr = le_put 4 (word_of_nat (length ?body) :: u32)"
    "crc = le_put 4 (crc32c ?body)" "?body = pre @ xs @ post"
    using enc(2,3) by (metis append_eq_append_conv length_le_put)+
  have len: "length (pre @ ys @ post) = length ?body"
    using parts(3) window(2) by (metis append_assoc length_append)
  have "crc' \<noteq> le_put 4 (crc32c (pre @ ys @ post))"
  proof (cases "xs = ys")
    case True
    with damage parts show ?thesis by auto
  next
    case False
    then have "crc32c (pre @ xs @ post) \<noteq> crc32c (pre @ ys @ post)"
      using window by (intro crc32c_window_detects) auto
    then have "le_put 4 (crc32c ?body) \<noteq> le_put 4 (crc32c (pre @ ys @ post))"
      using parts(3) le_get_le_put_u32 by metis
    with False damage parts(2) show ?thesis by auto
  qed
  with len assms(1) enc(2) window(3) parts(1) show ?thesis
    using decodeRecord_bad_checksum [of hdr crc' "pre @ ys @ post" rest]
    by (simp add: record_sizes del: of_nat_add)
qed

theorem record_damage_detected_witness:
  "decodeRecord (le_put 4 (word_of_nat 11 :: u32) @ le_put 4 (crc32c (le_put 8 (7 :: u64) @ [1, 2, 3]))
     @ le_put 8 (7 :: u64) @ [1, 66, 3] @ [] @ []) = Inl errBadChecksum"
  by (rule record_damage_detected [of "[1, 2, 3]" 7 _ _ _ "[1, 2, 3]"])
    (simp_all add: record_sizes encodeRecord_def Let_def)

subsection \<open>The later-record search is exact\<close>

lemma decodeRecord_index_field:
  "decodeRecord buf = Inr (i, c, n) \<Longrightarrow> (le_get (take 8 (drop 8 buf)) :: u64) = i"
proof -
  assume "decodeRecord buf = Inr (i, c, n)"
  then have "buf = encodeRecord i c @ drop n buf"
    by (rule decodeRecord_InrD)
  then have "take 8 (drop 8 buf) = take 8 (drop 8 (encodeRecord i c @ drop n buf))"
    by simp
  also have "\<dots> = le_put 8 i"
    by (simp add: encodeRecord_def Let_def record_sizes)
  finally show ?thesis by simp
qed

lemma decodeRecord_fits: "decodeRecord (drop q tail) = Inr (i, c, n) \<Longrightarrow> q + 16 \<le> length tail"
  using arg_cong [OF decodeRecord_InrD(3) [of "drop q tail" i c n], of length] by simp

definition later_record_at :: "bytes \<Rightarrow> u64 \<Rightarrow> nat \<Rightarrow> bool" where
  "later_record_at tail damaged q \<longleftrightarrow>
     (case decodeRecord (drop q tail) of
        Inr (i, _, _) \<Rightarrow> damaged < i \<and> i - damaged \<le> word_of_nat (length tail)
      | Inl _ \<Rightarrow> False)"

lemma later_record_at_iff:
  "later_record_at tail damaged q \<longleftrightarrow>
     (\<exists>i c n. decodeRecord (drop q tail) = Inr (i, c, n)
        \<and> damaged < i \<and> i - damaged \<le> word_of_nat (length tail))"
  by (auto simp: later_record_at_def split: sum.splits)

lemma later_record_at_index:
  "later_record_at tail damaged p \<longleftrightarrow>
     (\<exists>c n. decodeRecord (drop p tail) = Inr (le_get (take 8 (drop (p + 8) tail)), c, n))
     \<and> damaged < le_get (take 8 (drop (p + 8) tail))
     \<and> le_get (take 8 (drop (p + 8) tail)) - damaged \<le> word_of_nat (length tail)"
  unfolding later_record_at_iff
  using decodeRecord_index_field [of "drop p tail"] by (fastforce simp: add.commute)

lemma has_later_from_step:
  "has_later_from tail damaged p \<longleftrightarrow>
     p + 16 \<le> length tail \<and> (later_record_at tail damaged p \<or> has_later_from tail damaged (Suc p))"
  unfolding later_record_at_index
  by (subst has_later_from.simps) (auto simp: record_sizes Let_def not_le not_less split: sum.splits)

lemma has_later_from_iff:
  "has_later_from tail damaged p \<longleftrightarrow> (\<exists>q\<ge>p. later_record_at tail damaged q)"
proof (induction "length tail - p" arbitrary: p)
  case 0
  then have "\<not> later_record_at tail damaged q" if "q \<ge> p" for q
    using decodeRecord_fits [of q tail] that by (force simp: later_record_at_iff)
  with 0 show ?case
    by (subst has_later_from_step) auto
next
  case (Suc k)
  have split: "(\<exists>q\<ge>p. later_record_at tail damaged q) \<longleftrightarrow>
      later_record_at tail damaged p \<or> (\<exists>q\<ge>Suc p. later_record_at tail damaged q)"
    by (auto simp: Suc_le_eq) (metis le_neq_implies_less, metis less_imp_le)
  have "p + 16 \<le> length tail" if "later_record_at tail damaged q" "q \<ge> p" for q
    using decodeRecord_fits [of q tail] that by (force simp: later_record_at_iff)
  with Suc.hyps(1) [of "Suc p"] Suc.hyps(2) split show ?case
    by (subst has_later_from_step) auto
qed


subsection \<open>The codec as an interface\<close>

text \<open>
  What the log relies on: a record that fits decodes back with its exact size whatever follows it, a
  buffer that decodes starts with an encoding, and a record cut short is reported as torn. \<open>img\<close> is the
  byte string of records with consecutive indexes.
\<close>

locale record_codec =
  fixes enc :: "u64 \<Rightarrow> bytes \<Rightarrow> bytes"
    and dec :: "bytes \<Rightarrow> error + u64 \<times> bytes \<times> nat"
    and fits :: "bytes \<Rightarrow> bool"
    and img :: "u64 \<Rightarrow> bytes list \<Rightarrow> bytes"
    and torn :: error
  assumes dec_enc: "fits c \<Longrightarrow> dec (enc i c @ rest) = Inr (i, c, length (enc i c))"
    and dec_sound: "dec buf = Inr (i, c, n) \<Longrightarrow> fits c \<and> n = length (enc i c) \<and> buf = enc i c @ drop n buf"
    and dec_torn: "fits c \<Longrightarrow> strict_prefix p (enc i c) \<Longrightarrow> dec p = Inl torn"
    and enc_nonempty: "enc i c \<noteq> []"
    and img_Nil: "img i [] = []"
    and img_Cons: "img i (c # cs) = enc i c @ img (i + 1) cs"
begin

lemma img_append: "img i (xs @ ys) = img i xs @ img (i + word_of_nat (length xs)) ys"
  by (induction xs arbitrary: i) (simp_all add: img_Nil img_Cons algebra_simps)

lemma img_eq_Nil: "img i cs = [] \<longleftrightarrow> cs = []"
  by (cases cs) (simp_all add: img_Nil img_Cons enc_nonempty)

lemma dec_at:
  "fits c \<Longrightarrow> dec (drop (length (img i xs)) (img i (xs @ c # ys) @ t))
     = Inr (i + word_of_nat (length xs), c, length (enc (i + word_of_nat (length xs)) c))"
  by (simp add: img_append img_Cons dec_enc)

lemma length_img: "length cs \<le> length (img i cs)"
proof (induction cs arbitrary: i)
  case (Cons c cs)
  have "1 \<le> length (enc i c)"
    using enc_nonempty [of i c] by (cases "enc i c") auto
  with Cons [of "i + 1"] show ?case
    by (simp add: img_Cons)
qed simp

lemma img_inj: "list_all fits cs \<Longrightarrow> list_all fits ds \<Longrightarrow> img i cs = img i ds \<Longrightarrow> cs = ds"
proof (induction cs arbitrary: i ds)
  case Nil
  then show ?case by (metis img_eq_Nil)
next
  case (Cons c cs)
  then obtain d ds' where ds: "ds = d # ds'"
    by (cases ds) (simp_all add: img_Nil img_Cons enc_nonempty)
  from Cons.prems have "dec (enc i c @ img (i + 1) cs) = dec (enc i d @ img (i + 1) ds')"
    by (simp add: ds img_Cons)
  with Cons.prems have "c = d"
    by (simp add: ds dec_enc)
  with Cons.IH [of ds' "i + 1"] Cons.prems show ?case
    by (simp add: ds img_Cons)
qed

text \<open>However the last record is cut, the bytes before it still decode, and the rest is torn.\<close>

lemma dec_cut:
  assumes "fits c" and "strict_prefix p (enc (i + word_of_nat (length xs)) c)"
  shows "dec (drop (length (img i xs)) (img i xs @ p)) = Inl torn"
  using assms by (simp add: dec_torn)

end

interpretation rc: record_codec encodeRecord decodeRecord "\<lambda>c. length c \<le> maxCommandSize" image errTornRecord
proof
  show "decodeRecord buf = Inr (i, c, n) \<Longrightarrow>
      length c \<le> maxCommandSize \<and> n = length (encodeRecord i c) \<and> buf = encodeRecord i c @ drop n buf"
    for buf i c n
    using decodeRecord_InrD [of buf i c n] by simp
  show "encodeRecord i c \<noteq> []" for i c
    using length_encodeRecord [of i c] by fastforce
qed (simp_all add: decodeRecord_encodeRecord decodeRecord_torn)

end
