(* ===== verification/ConfigTypes.thy ===== *)
theory ConfigTypes
  imports Complex_Main Prelude
begin

text \<open>
  The configuration of a node (\<^verbatim>\<open>internal/config\<close>): the structs of \<^verbatim>\<open>config.go\<close>, \<^verbatim>\<open>auth.go\<close>, \<^verbatim>\<open>tls.go\<close>,
  \<^verbatim>\<open>limits.go\<close>, \<^verbatim>\<open>storage.go\<close>, \<^verbatim>\<open>cluster.go\<close> and \<^verbatim>\<open>observability.go\<close> as records, field by field. Named string types (environments, modes, policies) stay strings, because
  a file may hold any text for them; durations are nanoseconds; a \<^verbatim>\<open>float64\<close> is a rational number, an
  infinity or NaN, with Go's comparisons, under which every comparison with NaN is false.
\<close>

subsection \<open>Floating-point settings\<close>

datatype float64 = NaN | NegInf | PosInf | Fin rat

fun f_less :: "float64 \<Rightarrow> float64 \<Rightarrow> bool" where
  "f_less NaN y = False"
| "f_less x NaN = False"
| "f_less PosInf y = False"
| "f_less x NegInf = False"
| "f_less (Fin a) (Fin b) = (a < b)"
| "f_less x y = True"

fun f_eq :: "float64 \<Rightarrow> float64 \<Rightarrow> bool" where
  "f_eq NaN y = False"
| "f_eq x y = (x = y)"

definition f_le :: "float64 \<Rightarrow> float64 \<Rightarrow> bool" where
  "f_le x y \<longleftrightarrow> f_less x y \<or> f_eq x y"

subsection \<open>Durations\<close>

definition Millisecond :: int where "Millisecond = 1000000"
definition Second :: int where "Second = 1000 * Millisecond"
definition Minute :: int where "Minute = 60 * Second"

subsection \<open>Node, listeners (config.go)\<close>

definition EnvironmentProduction :: string where "EnvironmentProduction = ''production''"
definition EnvironmentStaging :: string where "EnvironmentStaging = ''staging''"
definition EnvironmentDevelopment :: string where "EnvironmentDevelopment = ''development''"

record Node =
  ID :: string
  Environment :: string
  DataDir :: string
  ShutdownGrace :: int

record Listen =
  L_Client :: string
  L_Peer :: string
  L_Metrics :: string
  L_Diagnostics :: string

record Advertise =
  A_Client :: string
  A_Peer :: string

subsection \<open>Authentication (auth.go)\<close>

definition AuthModeEnabled :: string where "AuthModeEnabled = ''enabled''"
definition AuthModeDisabled :: string where "AuthModeDisabled = ''disabled''"

record ClaimsCache =
  MaxEntries :: int

record JWT =
  IssuerURL :: string
  JWKSURL :: string
  Audience :: "string list"
  Algorithms :: "string list"
  ClockSkew :: int
  RefreshInterval :: int
  MinRefreshInterval :: int
  HTTPTimeout :: int
  MaxResponseBytes :: int
  MinRSABits :: int
  ClaimsCache :: ClaimsCache

record Scopes =
  S_Read :: string
  S_Write :: string
  S_Watch :: string
  S_Admin :: string

record Auth =
  Mode :: string
  InsecureAllowRemote :: bool
  JWT :: JWT
  Scopes :: Scopes

subsection \<open>TLS (tls.go)\<close>

record TLS =
  TLS_Enabled :: bool
  MinVersion :: string
  CertFile :: string
  KeyFile :: string
  ClientCAFile :: string
  PeerCAFile :: string
  Reload :: bool
  AllowedPeerSANs :: "string list"
  AllowedClientSANs :: "string list"

subsection \<open>Limits (limits.go)\<close>

record RateLimit =
  Rate :: float64
  Burst :: int

record RateLimits =
  RL_Read :: RateLimit
  RL_Write :: RateLimit
  RL_Admin :: RateLimit

record Limits =
  MaxKeyBytes :: int
  MaxValueBytes :: int
  MaxRequestBytes :: int
  MaxConcurrentStreams :: int
  MaxWatchersPerPrincipal :: int
  RateLimit :: RateLimits

subsection \<open>Storage (storage.go)\<close>

definition FsyncAlways :: string where "FsyncAlways = ''always''"
definition FsyncInterval :: string where "FsyncInterval = ''interval''"
definition FsyncOS :: string where "FsyncOS = ''os''"

lemmas fsync_defs = FsyncAlways_def FsyncInterval_def FsyncOS_def

record Storage =
  Engine :: string
  Fsync :: string
  Fsync_Interval :: int
  WALSegmentBytes :: int
  WALRetainSegments :: int
  SnapshotEntries :: int
  SnapshotInterval :: int
  QuotaBytes :: int
  AutoCompactionRetention :: int

subsection \<open>Cluster (cluster.go)\<close>

record Raft =
  TickInterval :: int
  HeartbeatTicks :: int
  ElectionTicks :: int
  MaxInflightMsgs :: int
  MaxSizePerMsg :: int
  PreVote :: bool
  CheckQuorum :: bool
  LeaderTransferOnShutdown :: bool

record Read =
  DefaultConsistency :: string
  ForwardWritesToLeader :: bool
  LeaderWaitTimeout :: int

record Cluster =
  Bootstrap :: bool
  InitialPeers :: "string list"
  SlotCount :: u32
  Groups :: int
  ReplicationFactor :: int
  Raft :: Raft
  Read :: Read

subsection \<open>Observability (observability.go)\<close>

record Log_settings =
  Level :: string
  Format :: string

record Tracing =
  T_Enabled :: bool
  OTLPEndpoint :: string
  Sampler :: string
  SampleRatio :: float64

record Metrics =
  M_Enabled :: bool

record Health =
  MaxApplyLagEntries :: int

record Observability =
  Log :: Log_settings
  Tracing :: Tracing
  Metrics :: Metrics
  Health :: Health

subsection \<open>The whole configuration (config.go)\<close>

record Config =
  Node :: Node
  Listen :: Listen
  Advertise :: Advertise
  Auth :: Auth
  TLS :: TLS
  Limits :: Limits
  Storage :: Storage
  Cluster :: Cluster
  Observability :: Observability

end
