(* ===== verification/Log.thy ===== *)
theory Log
  imports Disk LogRecord ConfigTypes
begin

text \<open>
  \<^verbatim>\<open>internal/storage/log.go\<close>: the file-backed command log. A \<open>Log\<close> value holds the fields the mutex guards;
  every method is one critical section, so a run of the concurrent program is a sequence of these
  operations. Each operation takes the log and the world and returns its result with both updated.
  A segment is addressed by its file name inside the log directory, a context by the error its \<^verbatim>\<open>Err\<close>
  method returns.

  \<^item> \<open>Append\<close>, \<open>log_rotate\<close>, \<open>log_sync\<close>, \<open>createSegment\<close>: the write path;
  \<^item> \<open>Replay\<close>, \<open>replaySegment\<close>: the read path, with the callback threading a state of its own;
  \<^item> \<open>Close\<close>, \<open>syncIfDirty\<close>, \<open>runSyncer\<close>: shutdown and the background flush.
\<close>

subsection \<open>Configuration and state\<close>

record LogConfig =
  lc_Dir :: string
  lc_SegmentBytes :: int
  lc_Fsync :: string
  lc_FsyncInterval :: int

definition violation :: "string \<Rightarrow> string \<Rightarrow> field_violation" where
  "violation f d = \<lparr>Field = f, Description_of = d\<rparr>"

definition log_problems :: "LogConfig \<Rightarrow> field_violation list" where
  "log_problems c =
     (if lc_Dir c = [] then [violation ''Dir'' ''is required''] else []) @
     (if lc_SegmentBytes c \<le> 0 then [violation ''SegmentBytes'' ''must be greater than zero''] else []) @
     (if lc_Fsync c = FsyncAlways \<or> lc_Fsync c = FsyncOS then []
      else if lc_Fsync c = FsyncInterval then
        (if lc_FsyncInterval c \<le> 0 then [violation ''FsyncInterval'' ''must be greater than zero''] else [])
      else [violation ''Fsync'' ''must be always, interval, or os''])"

definition LogConfig_Validate :: "LogConfig \<Rightarrow> error option" where
  "LogConfig_Validate c =
     (let problems = log_problems c
      in if problems \<noteq> [] then
           Some (KV (Some (WithViolations
             (New ReasonInvalidArgument ''command log configuration is invalid'') problems)))
         else None)"

record Log =
  l_cfg :: LogConfig
  l_segments :: "segment list"
  l_active :: handle
  l_activeSize :: int
  l_lastIndex :: u64
  l_dirty :: bool
  l_failed :: "error option"
  l_closed :: bool
  l_syncer :: bool

subsection \<open>Errors\<close>

abbreviation internal :: "error \<Rightarrow> string \<Rightarrow> error" where
  "internal err msg \<equiv> KV (Some (Wrap ReasonInternal err msg))"

definition contextError :: "error option \<Rightarrow> error option" where
  "contextError ctx =
     (case ctx of None \<Rightarrow> None | Some err \<Rightarrow> Some (KV (Some (Wrap (ReasonOf (Some err)) err ''''))))"

definition errClosed :: error where "errClosed = Sentinel ''errClosed'' ''closed''"

definition writable :: "Log \<Rightarrow> error option" where
  "writable l =
     (if l_closed l then Some (internal errClosed ''command log is closed'')
      else
        (case l_failed l of
           Some f \<Rightarrow> Some (internal f ''command log is unusable after an earlier failure'')
         | None \<Rightarrow> None))"

subsection \<open>The write path\<close>

definition log_sync :: "Log \<Rightarrow> world \<Rightarrow> error option \<times> Log \<times> world" where
  "log_sync l w =
     (case file_Sync (l_active l) w of
        (Some err, w) \<Rightarrow>
          (let f = internal err ''command log fsync failed'' in (Some f, l\<lparr>l_failed := Some f\<rparr>, w))
      | (None, w) \<Rightarrow> (None, l\<lparr>l_dirty := False\<rparr>, w))"

definition createSegment :: "string \<Rightarrow> world \<Rightarrow> (error + handle) \<times> world" where
  "createSegment path w =
     (case os_CreateExcl path w of
        (Inl err, w) \<Rightarrow> (Inl (internal err ''command log segment could not be created''), w)
      | (Inr f, w) \<Rightarrow>
          (case syncDir w of
             (Some err, w) \<Rightarrow> (case file_Close f w of (_, _, w) \<Rightarrow> (Inl err, w))
           | (None, w) \<Rightarrow> (Inr f, w)))"

definition rotate_closed :: "u64 \<Rightarrow> Log \<Rightarrow> world \<Rightarrow> error option \<times> Log \<times> world" where
  "rotate_closed nxt l w =
     (case file_Close (l_active l) w of
        (Some err, h, w) \<Rightarrow>
          (Some (internal err ''command log segment could not be closed''), l\<lparr>l_active := h\<rparr>, w)
      | (None, h, w) \<Rightarrow>
          (let l = l\<lparr>l_active := h\<rparr>; path = segmentName nxt
           in case createSegment path w of
                (Inl err, w) \<Rightarrow> (Some err, l, w)
              | (Inr f, w) \<Rightarrow>
                  (None,
                   l\<lparr>l_segments := l_segments l @ [\<lparr>seg_first = nxt, seg_last = nxt - 1, seg_path = path\<rparr>],
                     l_active := f, l_activeSize := 0\<rparr>, w)))"

definition log_rotate :: "u64 \<Rightarrow> Log \<Rightarrow> world \<Rightarrow> error option \<times> Log \<times> world" where
  "log_rotate nxt l w =
     (if l_dirty l then
        (case log_sync l w of
           (Some err, l, w) \<Rightarrow> (Some err, l, w)
         | (None, l, w) \<Rightarrow> rotate_closed nxt l w)
      else rotate_closed nxt l w)"

definition set_last :: "u64 \<Rightarrow> segment list \<Rightarrow> segment list" where
  "set_last i segs = segs[length segs - 1 := (last segs)\<lparr>seg_last := i\<rparr>]"

definition write_record :: "u64 \<Rightarrow> bytes \<Rightarrow> Log \<Rightarrow> world \<Rightarrow> (error + u64) \<times> Log \<times> world" where
  "write_record index rec l w =
     (case file_Write (l_active l) rec w of
        (Some err, w) \<Rightarrow>
          (let f = internal err ''command log write failed'' in (Inl f, l\<lparr>l_failed := Some f\<rparr>, w))
      | (None, w) \<Rightarrow>
          (let l = l\<lparr>l_activeSize := l_activeSize l + int (length rec), l_dirty := True\<rparr>;
               (err, l, w) = (if lc_Fsync (l_cfg l) = FsyncAlways then log_sync l w else (None, l, w))
           in case err of
                Some e \<Rightarrow> (Inl e, l, w)
              | None \<Rightarrow>
                  (Inr index, l\<lparr>l_lastIndex := index, l_segments := set_last index (l_segments l)\<rparr>, w)))"

definition Append :: "error option \<Rightarrow> bytes \<Rightarrow> Log \<Rightarrow> world \<Rightarrow> (error + u64) \<times> Log \<times> world" where
  "Append ctx command l w =
     (case contextError ctx of
        Some err \<Rightarrow> (Inl err, l, w)
      | None \<Rightarrow>
          if maxCommandSize < length command then
            (Inl (KV (Some (New ReasonInvalidArgument
               (''command of '' @ show_nat (length command) @ '' bytes exceeds the '' @
                show_nat maxCommandSize @ ''-byte record limit'')))), l, w)
          else
            (case writable l of
               Some err \<Rightarrow> (Inl err, l, w)
             | None \<Rightarrow>
                 (let index = l_lastIndex l + 1; rec = encodeRecord index command
                  in if 0 < l_activeSize l
                        \<and> lc_SegmentBytes (l_cfg l) < l_activeSize l + int (length rec) then
                       (case log_rotate index l w of
                          (Some err, l, w) \<Rightarrow> (Inl err, l\<lparr>l_failed := Some err\<rparr>, w)
                        | (None, l, w) \<Rightarrow> write_record index rec l w)
                     else write_record index rec l w)))"

definition LastIndex :: "Log \<Rightarrow> u64" where
  "LastIndex l = l_lastIndex l"

subsection \<open>The read path\<close>

text \<open>
  The loop of \<^verbatim>\<open>replaySegment\<close>: \<open>ctx want\<close> is the state of the context when the loop reaches record
  \<open>want\<close>. A successful decode consumes at least sixteen of the remaining bytes, so the loop ends for
  every bound, also when \<open>want\<close> would wrap around.
\<close>

lemma decodeRecord_consumes:
  "decodeRecord (drop q data) = Inr (i, c, n) \<Longrightarrow> 0 < n \<and> q + n \<le> length data"
  using arg_cong [OF decodeRecord_InrD(3) [of "drop q data" i c n], of length]
    decodeRecord_InrD(2) [of "drop q data" i c n] by auto

definition changed :: "segment \<Rightarrow> nat \<Rightarrow> error \<Rightarrow> error" where
  "changed seg offset err =
     internal err (''command log segment '' @ seg_path seg @ '' changed on disk at offset '' @ show_nat offset)"

function replay_loop ::
  "(u64 \<Rightarrow> error option) \<Rightarrow> segment \<Rightarrow> bytes \<Rightarrow> nat \<Rightarrow> u64 \<Rightarrow> u64 \<Rightarrow> u64 \<Rightarrow>
    (u64 \<Rightarrow> bytes \<Rightarrow> 's \<Rightarrow> error option \<times> 's) \<Rightarrow> 's \<Rightarrow> error option \<times> 's" where
  "replay_loop ctx seg data offset want stop from fn s =
     (if want \<le> stop then
        (case contextError (ctx want) of
           Some err \<Rightarrow> (Some err, s)
         | None \<Rightarrow>
             (case decodeRecord (drop offset data) of
                Inl err \<Rightarrow> (Some (changed seg offset err), s)
              | Inr (index, command, sz) \<Rightarrow>
                  if index \<noteq> want then
                    (Some (changed seg offset (TextErr
                       (''record index '' @ show_nat (unat index) @ '', expected '' @ show_nat (unat want)))), s)
                  else if from \<le> index then
                    (case fn index command s of
                       (Some err, s) \<Rightarrow> (Some (Errorf_w ''storage.Log.Replay: '' err ''''), s)
                     | (None, s) \<Rightarrow> replay_loop ctx seg data (offset + sz) (want + 1) stop from fn s)
                  else replay_loop ctx seg data (offset + sz) (want + 1) stop from fn s))
      else (None, s))"
  by pat_completeness auto
termination
  by (relation "measure (\<lambda>(ctx, seg, data, offset, _). length data - offset)")
    (auto dest!: sym [of "Inr _"] decodeRecord_consumes)

declare replay_loop.simps [simp del]

definition replaySegment ::
  "(u64 \<Rightarrow> error option) \<Rightarrow> segment \<Rightarrow> u64 \<Rightarrow> u64 \<Rightarrow>
    (u64 \<Rightarrow> bytes \<Rightarrow> 's \<Rightarrow> error option \<times> 's) \<Rightarrow> 's \<Rightarrow> world \<Rightarrow> error option \<times> 's \<times> world" where
  "replaySegment ctx seg from last_index fn s w =
     (case os_ReadFile (seg_path seg) w of
        (Inl err, w) \<Rightarrow> (Some (internal err ''command log segment could not be read''), s, w)
      | (Inr data, w) \<Rightarrow>
          (let (err, s) =
             replay_loop ctx seg data 0 (seg_first seg) (min (seg_last seg) last_index) from fn s
           in (err, s, w)))"

fun replay_segments ::
  "(u64 \<Rightarrow> error option) \<Rightarrow> segment list \<Rightarrow> u64 \<Rightarrow> u64 \<Rightarrow>
    (u64 \<Rightarrow> bytes \<Rightarrow> 's \<Rightarrow> error option \<times> 's) \<Rightarrow> 's \<Rightarrow> world \<Rightarrow> error option \<times> 's \<times> world" where
  "replay_segments ctx [] from last_index fn s w = (None, s, w)"
| "replay_segments ctx (seg # segs) from last_index fn s w =
     (if seg_last seg < from \<or> last_index < seg_first seg
      then replay_segments ctx segs from last_index fn s w
      else
        (case replaySegment ctx seg from last_index fn s w of
           (Some err, s, w) \<Rightarrow> (Some err, s, w)
         | (None, s, w) \<Rightarrow> replay_segments ctx segs from last_index fn s w))"

definition Replay ::
  "(u64 \<Rightarrow> error option) \<Rightarrow> u64 \<Rightarrow> (u64 \<Rightarrow> bytes \<Rightarrow> 's \<Rightarrow> error option \<times> 's) \<Rightarrow> 's \<Rightarrow>
    Log \<Rightarrow> world \<Rightarrow> error option \<times> 's \<times> world" where
  "Replay ctx from fn s l w = replay_segments ctx (l_segments l) from (l_lastIndex l) fn s w"

subsection \<open>Closing and the background flush\<close>

text \<open>
  While \<^verbatim>\<open>Close\<close> waits for the syncer the log is already marked closed, so a last tick changes nothing;
  the two critical sections of \<^verbatim>\<open>Close\<close> are therefore one step of the model.
\<close>

definition Close :: "Log \<Rightarrow> world \<Rightarrow> error option \<times> Log \<times> world" where
  "Close l w =
     (if l_closed l then (None, l, w)
      else
        let l = l\<lparr>l_closed := True\<rparr>;
            (syncErr, l, w) =
              (if l_failed l = None \<and> l_dirty l then log_sync l w else (None, l, w))
        in case file_Close (l_active l) w of
             (Some err, h, w) \<Rightarrow>
               (Some (internal (the (errors_Join [syncErr, Some err])) ''command log could not be closed''),
                l\<lparr>l_active := h\<rparr>, w)
           | (None, h, w) \<Rightarrow> (syncErr, l\<lparr>l_active := h\<rparr>, w))"

definition syncIfDirty :: "Log \<Rightarrow> world \<Rightarrow> Log \<times> world" where
  "syncIfDirty l w =
     (if \<not> l_dirty l \<or> l_failed l \<noteq> None \<or> l_closed l then (l, w)
      else
        (case log_sync l w of
           (Some err, l, w) \<Rightarrow>
             (l, slog_line ''ERROR'' ''command log background fsync failed; refusing further writes''
                [(''error'', error_text err)] w)
         | (None, l, w) \<Rightarrow> (l, w)))"

datatype syncer_event = TickEvent | StopEvent

fun runSyncer :: "syncer_event list \<Rightarrow> Log \<Rightarrow> world \<Rightarrow> Log \<times> world" where
  "runSyncer [] l w = (l, w)"
| "runSyncer (TickEvent # es) l w = (case syncIfDirty l w of (l, w) \<Rightarrow> runSyncer es l w)"
| "runSyncer (StopEvent # es) l w = (l, w)"

end
