(* ===== verification/Recovery.thy ===== *)
theory Recovery
  imports Log
begin

text \<open>
  \<^verbatim>\<open>internal/storage/log_recovery.go\<close> and \<^verbatim>\<open>OpenLog\<close>: reading the segments back at start, telling a torn
  tail from corruption, truncating the former and refusing the latter.
\<close>

subsection \<open>Verification of one segment\<close>

definition errOutOfSequence :: error where
  "errOutOfSequence = Sentinel ''errOutOfSequence'' ''record index is out of sequence''"

definition corruption :: "string \<Rightarrow> nat \<Rightarrow> error \<Rightarrow> error" where
  "corruption path offset damage =
     internal damage
       (''command log is corrupted in segment '' @ path @ '' at offset '' @ show_nat offset @
        ''; refusing to open it, restore the node from a backup or a replica'')"

function scan_records :: "bytes \<Rightarrow> nat \<Rightarrow> u64 \<Rightarrow> nat \<times> u64 \<times> error option" where
  "scan_records data offset nxt =
     (if offset < length data then
        (case decodeRecord (drop offset data) of
           Inl err \<Rightarrow> (offset, nxt, Some err)
         | Inr (index, _, sz) \<Rightarrow>
             if index \<noteq> nxt then
               (offset, nxt,
                Some (Errorf_w '''' errOutOfSequence
                  ('': found '' @ show_nat (unat index) @ '', expected '' @ show_nat (unat nxt))))
             else scan_records data (offset + sz) (nxt + 1))
      else (offset, nxt, None))"
  by pat_completeness auto
termination
  by (relation "measure (\<lambda>(data, offset, nxt). length data - offset)")
    (auto dest!: sym [of "Inr _"] decodeRecord_consumes)

declare scan_records.simps [simp del]

definition truncateTail :: "string \<Rightarrow> nat \<Rightarrow> error \<Rightarrow> world \<Rightarrow> error option \<times> world" where
  "truncateTail path offset damage w =
     (case os_Truncate path offset w of
        (Some err, w) \<Rightarrow> (Some (internal err ''torn command log tail could not be truncated''), w)
      | (None, w) \<Rightarrow>
          (case os_OpenWrite path w of
             (Inl err, w) \<Rightarrow> (Some (internal err ''command log segment could not be opened''), w)
           | (Inr f, w) \<Rightarrow>
               (let (syncErr, w) = file_Sync f w;
                    (closeErr, _, w) = file_Close f w
                in case errors_Join [syncErr, closeErr] of
                     Some err \<Rightarrow>
                       (Some (internal err ''truncated command log segment could not be flushed''), w)
                   | None \<Rightarrow>
                       (None,
                        slog_line ''WARN''
                          ''command log tail was damaged, probably by a crash during a write; truncated it''
                          [(''segment'', path), (''offset'', show_nat offset),
                           (''damage'', error_text damage)] w))))"

definition verifySegment ::
  "segment \<Rightarrow> bool \<Rightarrow> world \<Rightarrow> (error + nat \<times> segment) \<times> world" where
  "verifySegment seg isLast w =
     (case os_ReadFile (seg_path seg) w of
        (Inl err, w) \<Rightarrow> (Inl (internal err ''command log segment could not be read''), w)
      | (Inr data, w) \<Rightarrow>
          (case scan_records data 0 (seg_first seg) of
             (offset, nxt, damage) \<Rightarrow>
               (let seg = seg\<lparr>seg_last := nxt - 1\<rparr>
                in case damage of
                     None \<Rightarrow> (Inr (offset, seg), w)
                   | Some dmg \<Rightarrow>
                       if \<not> isLast \<or> errors_Is dmg errOutOfSequence
                          \<or> hasLaterRecord (drop offset data) nxt then
                         (Inl (corruption (seg_path seg) offset dmg), w)
                       else
                         (case truncateTail (seg_path seg) offset dmg w of
                            (Some err, w) \<Rightarrow> (Inl err, w)
                          | (None, w) \<Rightarrow> (Inr (offset, seg), w)))))"

subsection \<open>Recovery of the whole log\<close>

text \<open>
  The loop of \<^verbatim>\<open>recover\<close>: the first argument carries the last index of the previous segment, the result
  the verified segments and the valid size of the last one.
\<close>

definition segment_gap :: "u64 option \<Rightarrow> segment \<Rightarrow> error option" where
  "segment_gap prev seg =
     (case prev of
        None \<Rightarrow> None
      | Some p \<Rightarrow>
          if seg_first seg \<noteq> p + 1 then
            Some (corruption (seg_path seg) 0 (TextErr
              (''segment starts at index '' @ show_nat (unat (seg_first seg)) @
               '', expected '' @ show_nat (unat (p + 1)))))
          else None)"

fun verify_segments ::
  "u64 option \<Rightarrow> segment list \<Rightarrow> world \<Rightarrow> (error + segment list \<times> nat) \<times> world" where
  "verify_segments prev [] w = (Inr ([], 0), w)"
| "verify_segments prev (seg # segs) w =
     (case segment_gap prev seg of
        Some err \<Rightarrow> (Inl err, w)
      | None \<Rightarrow>
          (case verifySegment seg (segs = []) w of
             (Inl err, w) \<Rightarrow> (Inl err, w)
           | (Inr (sz, seg'), w) \<Rightarrow>
               if segs = [] then (Inr ([seg'], sz), w)
               else
                 (case verify_segments (Some (seg_last seg')) segs w of
                    (Inl err, w) \<Rightarrow> (Inl err, w)
                  | (Inr (segs', n), w) \<Rightarrow> (Inr (seg' # segs', n), w))))"

text \<open>The zero value of a log with its configuration; the handle stands for a nil \<^verbatim>\<open>*os.File\<close>.\<close>

definition zero_log :: "LogConfig \<Rightarrow> Log" where
  "zero_log cfg =
     \<lparr>l_cfg = cfg, l_segments = [], l_active = \<lparr>h_name = [], h_open = False\<rparr>, l_activeSize = 0,
      l_lastIndex = 0, l_dirty = False, l_failed = None, l_closed = False, l_syncer = False\<rparr>"

definition startFirstSegment :: "Log \<Rightarrow> world \<Rightarrow> (error + Log) \<times> world" where
  "startFirstSegment l w =
     (let path = segmentName 1
      in case createSegment path w of
           (Inl err, w) \<Rightarrow> (Inl err, w)
         | (Inr f, w) \<Rightarrow>
             (Inr (l\<lparr>l_segments := [\<lparr>seg_first = 1, seg_last = 0, seg_path = path\<rparr>], l_active := f\<rparr>), w))"

definition recover :: "(string \<Rightarrow> string) \<Rightarrow> Log \<Rightarrow> world \<Rightarrow> (error + Log) \<times> world" where
  "recover quote l w =
     (case os_ReadDir w of
        (rd, w) \<Rightarrow>
          (case listSegments quote (lc_Dir (l_cfg l)) rd of
             Inl err \<Rightarrow> (Inl err, w)
           | Inr segs \<Rightarrow>
               if segs = [] then startFirstSegment l w
               else
                 (case verify_segments None segs w of
                    (Inl err, w) \<Rightarrow> (Inl err, w)
                  | (Inr (segs, sz), w) \<Rightarrow>
                      (let lst = last segs
                       in case os_OpenWrite (seg_path lst) w of
                            (Inl err, w) \<Rightarrow>
                              (Inl (internal err ''command log segment could not be opened''), w)
                          | (Inr f, w) \<Rightarrow>
                              (Inr (l\<lparr>l_activeSize := int sz, l_segments := segs, l_active := f,
                                 l_lastIndex := seg_last lst\<rparr>), w)))))"

definition OpenLog ::
  "(string \<Rightarrow> string) \<Rightarrow> error option \<Rightarrow> LogConfig \<Rightarrow> world \<Rightarrow> (error + Log) \<times> world" where
  "OpenLog quote ctx cfg w =
     (case contextError ctx of
        Some err \<Rightarrow> (Inl err, w)
      | None \<Rightarrow>
          (case LogConfig_Validate cfg of
             Some err \<Rightarrow> (Inl err, w)
           | None \<Rightarrow>
               (case os_MkdirAll w of
                  (Some err, w) \<Rightarrow>
                    (Inl (internal err ''command log directory could not be created''), w)
                | (None, w) \<Rightarrow>
                    (case recover quote (zero_log cfg) w of
                       (Inl err, w) \<Rightarrow> (Inl err, w)
                     | (Inr l, w) \<Rightarrow>
                         (Inr (if lc_Fsync cfg = FsyncInterval then l\<lparr>l_syncer := True\<rparr> else l), w)))))"

subsection \<open>The scanner finds the maximal run of records\<close>

text \<open>
  A scanner steps over a codec's records while their indexes are consecutive. It stops exactly behind
  the longest run of records the data starts with.
\<close>

locale record_scanner = record_codec +
  fixes scan :: "bytes \<Rightarrow> nat \<Rightarrow> u64 \<Rightarrow> nat \<times> u64 \<times> error option"
    and misplaced :: "u64 \<Rightarrow> u64 \<Rightarrow> error"
  assumes scan_step: "scan data off nxt =
     (if off < length data then
        (case dec (drop off data) of
           Inl err \<Rightarrow> (off, nxt, Some err)
         | Inr (index, _, n) \<Rightarrow>
             if index \<noteq> nxt then (off, nxt, Some (misplaced index nxt)) else scan data (off + n) (nxt + 1))
      else (off, nxt, None))"
begin

lemma scan_over:
  assumes "list_all fits cs" and "drop off data = img i cs @ t"
  shows "scan data off i = scan data (off + length (img i cs)) (i + word_of_nat (length cs))"
  using assms
proof (induction cs arbitrary: off i)
  case (Cons c cs)
  then have d: "drop off data = enc i c @ (img (i + 1) cs @ t)" and c: "fits c"
    by (simp_all add: img_Cons)
  have "off < length data"
    using d enc_nonempty [of i c] by (metis append_is_Nil_conv drop_eq_Nil not_le)
  then have "scan data off i = scan data (off + length (enc i c)) (i + 1)"
    using c by (simp add: scan_step [of data off] d dec_enc)
  moreover have "drop (off + length (enc i c)) data = img (i + 1) cs @ t"
    using arg_cong [OF d, of "drop (length (enc i c))"] by (simp add: add.commute)
  ultimately show ?case
    using Cons.IH [of "off + length (enc i c)" "i + 1"] Cons.prems by (simp add: img_Cons algebra_simps)
qed (simp add: img_Nil)

lemma scan_result:
  assumes "scan data off i = (o', n', dmg)" and "off \<le> length data"
  obtains cs where "list_all fits cs" and "drop off data = img i cs @ drop o' data"
    and "o' = off + length (img i cs)" and "o' \<le> length data" and "n' = i + word_of_nat (length cs)"
    and "dmg = None \<longleftrightarrow> o' = length data"
    and "\<And>e. dmg = Some e \<Longrightarrow> dec (drop o' data) = Inl e \<or>
      (\<exists>j c n. dec (drop o' data) = Inr (j, c, n) \<and> j \<noteq> n' \<and> e = misplaced j n')"
proof -
  have "\<exists>cs. list_all fits cs \<and> drop off data = img i cs @ drop o' data
      \<and> o' = off + length (img i cs) \<and> o' \<le> length data \<and> n' = i + word_of_nat (length cs)
      \<and> (dmg = None \<longleftrightarrow> o' = length data)
      \<and> (\<forall>e. dmg = Some e \<longrightarrow> dec (drop o' data) = Inl e \<or>
          (\<exists>j c n. dec (drop o' data) = Inr (j, c, n) \<and> j \<noteq> n' \<and> e = misplaced j n'))"
    using assms
  proof (induction "length data - off" arbitrary: off i rule: less_induct)
    case less
    show ?case
    proof (cases "off < length data \<and> (\<exists>c n. dec (drop off data) = Inr (i, c, n))")
      case True
      then obtain c n where dec: "dec (drop off data) = Inr (i, c, n)" and lt: "off < length data"
        by auto
      note s = dec_sound [OF dec]
      have d: "drop off data = enc i c @ drop (off + n) data"
        using s by (simp add: add.commute)
      have "length (drop off data) = n + length (drop (off + n) data)"
        using d s by (metis length_append)
      then have n: "0 < n" "off + n \<le> length data"
        using s enc_nonempty [of i c] lt by auto
      have smaller: "length data - (off + n) < length data - off"
        using n lt by linarith
      have rest: "scan data (off + n) (i + 1) = (o', n', dmg)"
        using less.prems(1) lt dec by (simp add: scan_step [of data off])
      obtain cs where cs: "list_all fits cs" "drop (off + n) data = img (i + 1) cs @ drop o' data"
        "o' = off + n + length (img (i + 1) cs)" "o' \<le> length data" "n' = i + 1 + word_of_nat (length cs)"
        "(dmg = None \<longleftrightarrow> o' = length data)
        \<and> (\<forall>e. dmg = Some e \<longrightarrow> dec (drop o' data) = Inl e \<or>
          (\<exists>j c n. dec (drop o' data) = Inr (j, c, n) \<and> j \<noteq> n' \<and> e = misplaced j n'))"
        using less.hyps [OF smaller rest n(2)] by blast
      show ?thesis
      proof (intro exI [of _ "c # cs"] conjI)
        show "list_all fits (c # cs)"
          using cs(1) s by simp
        show "drop off data = img i (c # cs) @ drop o' data"
          using d cs(2) by (metis append_assoc img_Cons)
        show "o' = off + length (img i (c # cs))"
          using cs(3) s by (simp add: img_Cons)
        show "n' = i + word_of_nat (length (c # cs))"
          using cs(5) by (simp add: algebra_simps)
      qed (use cs(4,6) in blast)+
    next
      case False
      with less.prems show ?thesis
        by (intro exI [of _ "[]"])
          (auto simp: scan_step [of data off] img_Nil split: if_splits sum.splits)
    qed
  qed
  then show thesis
    using that by metis
qed

text \<open>Records known to be at the start of the data are never lost by a scan; it only finds more.\<close>

lemma scan_keeps:
  assumes "scan data 0 i = (o', n', dmg)" and "data = img i ds @ t" and "list_all fits ds"
  obtains cs where "list_all fits (ds @ cs)" and "data = img i (ds @ cs) @ drop o' data"
    and "o' = length (img i (ds @ cs))" and "o' \<le> length data"
    and "n' = i + word_of_nat (length (ds @ cs))" and "dmg = None \<longleftrightarrow> o' = length data"
    and "\<And>e. dmg = Some e \<Longrightarrow> dec (drop o' data) = Inl e \<or>
      (\<exists>j c n. dec (drop o' data) = Inr (j, c, n) \<and> j \<noteq> n' \<and> e = misplaced j n')"
proof -
  have "scan data (length (img i ds)) (i + word_of_nat (length ds)) = (o', n', dmg)"
    using scan_over [of ds 0 data i t] assms by simp
  moreover have "length (img i ds) \<le> length data"
    using assms(2) by simp
  ultimately obtain cs where cs: "list_all fits cs"
    "drop (length (img i ds)) data = img (i + word_of_nat (length ds)) cs @ drop o' data"
    "o' = length (img i ds) + length (img (i + word_of_nat (length ds)) cs)" "o' \<le> length data"
    "n' = i + word_of_nat (length ds) + word_of_nat (length cs)" "dmg = None \<longleftrightarrow> o' = length data"
    "\<And>e. dmg = Some e \<Longrightarrow> dec (drop o' data) = Inl e \<or>
      (\<exists>j c n. dec (drop o' data) = Inr (j, c, n) \<and> j \<noteq> n' \<and> e = misplaced j n')"
    by (rule scan_result) blast
  show thesis
  proof (rule that [of cs])
    have "data = img i ds @ drop (length (img i ds)) data"
      using assms(2) by simp
    with cs(2) show "data = img i (ds @ cs) @ drop o' data"
      by (metis append_assoc img_append)
  qed (use cs assms(3) in \<open>simp_all add: img_append algebra_simps\<close>)
qed

text \<open>Intact data scans without damage; data cut inside a record stops right before it.\<close>

lemma scan_intact:
  "list_all fits cs \<Longrightarrow> scan (img i cs) 0 i = (length (img i cs), i + word_of_nat (length cs), None)"
  using scan_over [of cs 0 "img i cs" i "[]"] by (simp add: scan_step [of _ "length (img i cs)"])

lemma scan_cut:
  assumes "list_all fits cs" and "fits c" and "p \<noteq> []"
    and "strict_prefix p (enc (i + word_of_nat (length cs)) c)"
  shows "scan (img i cs @ p) 0 i = (length (img i cs), i + word_of_nat (length cs), Some torn)"
  using scan_over [of cs 0 "img i cs @ p" i p] assms
  by (simp add: scan_step [of _ "length (img i cs)"] dec_torn)

end

definition misplaced_record :: "u64 \<Rightarrow> u64 \<Rightarrow> error" where
  "misplaced_record index nxt =
     Errorf_w '''' errOutOfSequence
       ('': found '' @ show_nat (unat index) @ '', expected '' @ show_nat (unat nxt))"

interpretation sc: record_scanner encodeRecord decodeRecord "\<lambda>c. length c \<le> maxCommandSize" image
  errTornRecord scan_records misplaced_record
  by unfold_locales (rule scan_records.simps [folded misplaced_record_def])

end
