(* ===== verification/LogState.thy ===== *)
theory LogState
  imports Recovery
begin

text \<open>
  The abstract state of the command log and its representation on disk. A log is a start index and a
  list of segments, each a list of commands; \<open>layout\<close> gives the segment table the code keeps for it,
  \<open>shelf\<close> the files of the closed segments, \<open>numbered\<close> the records with their indexes. \<open>live\<close> relates an
  open, healthy log to its directory; \<open>at_rest\<close> describes a directory no healthy log is open on.
\<close>

subsection \<open>Layout of the segments\<close>

definition fits :: "bytes list \<Rightarrow> bool" where
  "fits cs \<longleftrightarrow> list_all (\<lambda>c. length c \<le> maxCommandSize) cs"

fun layout :: "u64 \<Rightarrow> bytes list list \<Rightarrow> segment list" where
  "layout b [] = []"
| "layout b (cs # css) =
     \<lparr>seg_first = b, seg_last = b + word_of_nat (length cs) - 1, seg_path = segmentName b\<rparr>
     # layout (b + word_of_nat (length cs)) css"

definition sealed :: "u64 \<Rightarrow> bytes list \<Rightarrow> dfile" where
  "sealed i cs =
     \<lparr>content = image i cs, durable = image i cs, pending = False, entry_durable = True, regular = True\<rparr>"

fun shelf :: "u64 \<Rightarrow> bytes list list \<Rightarrow> (string \<times> dfile) list" where
  "shelf b [] = []"
| "shelf b (cs # css) = (segmentName b, sealed b cs) # shelf (b + word_of_nat (length cs)) css"

fun numbered :: "u64 \<Rightarrow> bytes list \<Rightarrow> (u64 \<times> bytes) list" where
  "numbered i [] = []"
| "numbered i (c # cs) = (i, c) # numbered (i + 1) cs"

definition next_index :: "u64 \<Rightarrow> bytes list list \<Rightarrow> u64" where
  "next_index b css = b + word_of_nat (length (concat css))"

text \<open>
  Closed segments are never empty, every command fits a record, and indexes stay far from the end of
  the 64-bit range: the start of the active segment is at most \<open>2 ^ 62\<close>.
\<close>

definition wf_closed :: "u64 \<Rightarrow> bytes list list \<Rightarrow> bool" where
  "wf_closed b css \<longleftrightarrow>
     1 \<le> unat b \<and> unat b + length (concat css) \<le> 2 ^ 62 \<and> [] \<notin> set css \<and> list_all fits css"

lemma fits_simps [simp]:
  "fits []" "fits (c # cs) \<longleftrightarrow> length c \<le> maxCommandSize \<and> fits cs" "fits (xs @ ys) \<longleftrightarrow> fits xs \<and> fits ys"
  by (simp_all add: fits_def)

lemma unat_plus_nat: "unat (b :: u64) + n < 2 ^ 64 \<Longrightarrow> unat (b + word_of_nat n) = unat b + n"
  by (simp add: unat_word_ariths unat_of_nat take_bit_nat_eq_self)

lemma unat_last:
  assumes "1 \<le> unat (i :: u64)" and "unat i + n < 2 ^ 64"
  shows "unat (i + word_of_nat n - 1) + 1 = unat i + n"
proof -
  note n = unat_plus_nat [OF assms(2)]
  have "i + word_of_nat n \<noteq> 0"
    using n assms(1) by (metis add_is_0 not_one_le_zero unat_0)
  then show ?thesis
    using n assms(1) by (simp add: unat_minus_one)
qed

lemma numbered_append: "numbered i (xs @ ys) = numbered i xs @ numbered (i + word_of_nat (length xs)) ys"
  by (induction xs arbitrary: i) (simp_all add: algebra_simps)

lemma numbered_prefix: "prefix xs ys \<Longrightarrow> set (numbered i xs) \<subseteq> set (numbered i ys)"
  by (auto simp: prefix_def numbered_append)

lemma length_numbered [simp]: "length (numbered i cs) = length cs"
  by (induction cs arbitrary: i) simp_all

lemma map_snd_numbered [simp]: "map snd (numbered i cs) = cs"
  by (induction cs arbitrary: i) simp_all

lemma numbered_index_bounds:
  "unat i + length cs < 2 ^ 64 \<Longrightarrow> (j, c) \<in> set (numbered i cs) \<Longrightarrow>
     unat i \<le> unat j \<and> unat j < unat i + length cs"
proof (induction cs arbitrary: i)
  case (Cons d cs)
  have "unat (i + 1) = unat i + 1"
    using unat_plus_nat [of i 1] Cons.prems(1) by simp
  with Cons.IH [of "i + 1"] Cons.prems show ?case by auto
qed simp

lemma next_index_Nil [simp]: "next_index b [] = b"
  by (simp add: next_index_def)

lemma next_index_Cons: "next_index b (cs # css) = next_index (b + word_of_nat (length cs)) css"
  by (simp add: next_index_def algebra_simps)

lemma next_index_snoc: "next_index b (css @ [cs]) = next_index b css + word_of_nat (length cs)"
  by (simp add: next_index_def algebra_simps)

lemma layout_append: "layout b (css @ dss) = layout b css @ layout (next_index b css) dss"
  by (induction css arbitrary: b) (simp_all add: next_index_Cons)

lemma shelf_append: "shelf b (css @ dss) = shelf b css @ shelf (next_index b css) dss"
  by (induction css arbitrary: b) (simp_all add: next_index_Cons)

lemma layout_eq_Nil [simp]: "layout b css = [] \<longleftrightarrow> css = []"
  by (cases css) simp_all

lemma layout_path: "s \<in> set (layout b css) \<Longrightarrow> seg_path s = segmentName (seg_first s)"
  by (induction b css rule: layout.induct) auto

lemma shelf_names: "map fst (shelf b css) = map seg_path (layout b css)"
  by (induction b css rule: layout.induct) auto

lemma wf_closed_Cons:
  "wf_closed b (cs # css) \<Longrightarrow> cs \<noteq> [] \<and> fits cs \<and> wf_closed (b + word_of_nat (length cs)) css
     \<and> unat (b + word_of_nat (length cs)) = unat b + length cs"
  using unat_plus_nat [of b "length cs"] by (auto simp: wf_closed_def)

lemma wf_closed_snoc:
  "wf_closed b (css @ [cs]) \<longleftrightarrow>
     wf_closed b css \<and> cs \<noteq> [] \<and> fits cs \<and> unat b + length (concat css) + length cs \<le> 2 ^ 62"
  by (auto simp: wf_closed_def)

lemma wf_closed_unat: "wf_closed b css \<Longrightarrow> unat (next_index b css) = unat b + length (concat css)"
  using unat_plus_nat [of b "length (concat css)"] by (auto simp: wf_closed_def next_index_def)

lemma layout_firsts:
  "wf_closed b css \<Longrightarrow> s \<in> set (layout b css) \<Longrightarrow>
     unat b \<le> unat (seg_first s) \<and> unat (seg_first s) < unat b + length (concat css)"
proof (induction b css rule: layout.induct)
  case (2 b cs css)
  note w = wf_closed_Cons [OF 2(2)]
  have "0 < length cs"
    using w by simp
  with 2 w show ?case
    by (auto simp: wf_closed_def)
qed simp

lemma layout_sorted: "wf_closed b css \<Longrightarrow> sorted_wrt (<) (map seg_first (layout b css))"
proof (induction b css rule: layout.induct)
  case (2 b cs css)
  note w = wf_closed_Cons [OF 2(2)]
  have "b < seg_first s" if "s \<in> set (layout (b + word_of_nat (length cs)) css)" for s
  proof -
    have "0 < length cs"
      using w by simp
    with layout_firsts [OF _ that] w show ?thesis
      by (simp add: word_less_nat_alt del: length_greater_0_conv)
  qed
  with 2 w show ?case by simp
qed simp

lemma layout_sorted_all:
  assumes "wf_closed b css"
  shows "sorted_wrt (<) (map seg_first (layout b (css @ [cs])))"
proof -
  have "seg_first s < next_index b css" if "s \<in> set (layout b css)" for s
    using layout_firsts [OF assms that] wf_closed_unat [OF assms] by (simp add: word_less_nat_alt)
  with layout_sorted [OF assms] show ?thesis
    by (simp add: layout_append sorted_wrt_append)
qed

lemma shelf_fresh: "wf_closed b css \<Longrightarrow> map_of (shelf b css) (segmentName (next_index b css)) = None"
proof -
  assume wf: "wf_closed b css"
  have "segmentName (next_index b css) \<notin> set (map fst (shelf b css))"
  proof
    assume "segmentName (next_index b css) \<in> set (map fst (shelf b css))"
    then obtain s where s: "s \<in> set (layout b css)" "seg_path s = segmentName (next_index b css)"
      by (auto simp: shelf_names)
    then have "seg_first s = next_index b css"
      using layout_path [of s] segmentName_inj by metis
    then show False
      using layout_firsts [OF wf s(1)] wf_closed_unat [OF wf] by simp
  qed
  then show ?thesis
    by (simp add: map_of_eq_None_iff)
qed

subsection \<open>The directory of a log\<close>

text \<open>
  The directory holds the closed segments of \<open>css\<close>, flushed, and the active segment as the file \<open>f\<close>.
\<close>

definition stored :: "u64 \<Rightarrow> bytes list list \<Rightarrow> dfile \<Rightarrow> world \<Rightarrow> bool" where
  "stored b css f w \<longleftrightarrow>
     wf_closed b css \<and> tidy w \<and>
     get_file w = (map_of (shelf b css))(segmentName (next_index b css) \<mapsto> f)"

text \<open>Every change is flushed, as after a restart of the machine.\<close>

definition settled :: "world \<Rightarrow> bool" where
  "settled w \<longleftrightarrow> (\<forall>n f. get_file w n = Some f \<longrightarrow> \<not> pending f \<and> entry_durable f)"

text \<open>A healthy open log with the commands \<open>css\<close> in closed segments and \<open>cs\<close> in the active one.\<close>

definition live ::
  "u64 \<Rightarrow> bytes list list \<Rightarrow> bytes list \<Rightarrow> dfile \<Rightarrow> Log \<Rightarrow> world \<Rightarrow> bool" where
  "live b css cs f l w \<longleftrightarrow>
     stored b css f w \<and> fits cs \<and> unat b + length (concat css) + length cs \<le> 2 ^ 63 \<and>
     regular f \<and> entry_durable f \<and> content f = image (next_index b css) cs \<and>
     prefix (durable f) (content f) \<and> (pending f \<longrightarrow> l_dirty l) \<and> (\<not> pending f \<longrightarrow> durable f = content f) \<and>
     l_segments l = layout b (css @ [cs]) \<and> l_lastIndex l = next_index b (css @ [cs]) - 1 \<and>
     l_active l = \<lparr>h_name = segmentName (next_index b css), h_open = True\<rparr> \<and>
     l_activeSize l = int (length (content f)) \<and> \<not> l_closed l \<and> l_failed l = None"

text \<open>
  The directory keeps the records of the set \<open>R\<close> through any crash: they are in the closed segments or
  at the start of the flushed part of the active one.
\<close>

definition keeps :: "(u64 \<times> bytes) set \<Rightarrow> u64 \<Rightarrow> bytes list list \<Rightarrow> dfile \<Rightarrow> bool" where
  "keeps R b css f \<longleftrightarrow>
     (\<exists>ds. fits ds \<and> R \<subseteq> set (numbered b (concat css @ ds)) \<and>
        prefix (image (next_index b css) ds) (durable f) \<and>
        prefix (image (next_index b css) ds) (content f) \<and> (ds \<noteq> [] \<longrightarrow> entry_durable f))"

definition at_rest :: "(u64 \<times> bytes) set \<Rightarrow> world \<Rightarrow> bool" where
  "at_rest R w \<longleftrightarrow>
     (R = {} \<and> tidy w \<and> get_file w = Map.empty) \<or>
     (\<exists>b css f. stored b css f w \<and> regular f \<and> (\<not> pending f \<longrightarrow> durable f = content f) \<and> keeps R b css f)"

lemma stored_same: "stored b css f w \<Longrightarrow> same_disk w w' \<Longrightarrow> stored b css f w'"
  by (simp add: stored_def same_disk_def)

lemma live_same: "live b css cs f l w \<Longrightarrow> same_disk w w' \<Longrightarrow> live b css cs f l w'"
  unfolding live_def using stored_same by blast

lemma at_rest_same:
  assumes "at_rest R w" and "same_disk w w'"
  shows "at_rest R w'"
proof -
  have "get_file w' = get_file w" "tidy w \<Longrightarrow> tidy w'" "\<And>b css f. stored b css f w \<Longrightarrow> stored b css f w'"
    using assms(2) stored_same by (auto simp: same_disk_def)
  with assms(1) show ?thesis
    unfolding at_rest_def by metis
qed

lemma stored_get [simp]: "stored b css f w \<Longrightarrow> get_file w (segmentName (next_index b css)) = Some f"
  by (simp add: stored_def)

lemma stored_update:
  "stored b css f w \<Longrightarrow> get_file w' = (get_file w)(segmentName (next_index b css) \<mapsto> g) \<Longrightarrow> tidy w' \<Longrightarrow>
     stored b css g w'"
  by (simp add: stored_def)

lemma stored_seg:
  assumes "stored b css f w" and "css = xs @ cs # ys"
  shows "get_file w (segmentName (next_index b xs)) = Some (sealed (next_index b xs) cs)"
proof -
  have wf: "wf_closed b css"
    using assms by (simp add: stored_def)
  have d: "distinct (map fst (shelf b css))"
  proof -
    have "sorted_wrt (<) (map seg_first (layout b css))"
      by (rule layout_sorted [OF wf])
    then have "distinct (map segmentName (map seg_first (layout b css)))"
      using segmentName_inj by (subst distinct_map) (auto simp: inj_on_def strict_sorted_iff)
    moreover have names: "map seg_path (layout b css) = map segmentName (map seg_first (layout b css))"
      using layout_path by auto
    ultimately show ?thesis
      by (simp only: shelf_names names)
  qed
  have "(segmentName (next_index b xs), sealed (next_index b xs) cs) \<in> set (shelf b css)"
    by (simp add: assms(2) shelf_append)
  then have "map_of (shelf b css) (segmentName (next_index b xs)) = Some (sealed (next_index b xs) cs)"
    using d by (simp add: map_of_is_SomeI)
  then show ?thesis
    using shelf_fresh [OF wf] assms(1) by (auto simp: stored_def)
qed

lemma live_keeps:
  assumes "live b css cs f l w" and "\<not> l_dirty l"
  shows "keeps (set (numbered b (concat css @ cs))) b css f"
  using assms by (auto simp: live_def keeps_def)

lemma live_at_rest: "live b css cs f l w \<Longrightarrow> keeps R b css f \<Longrightarrow> at_rest R w"
  by (auto simp: live_def at_rest_def)

lemma keeps_mono: "keeps R b css f \<Longrightarrow> S \<subseteq> R \<Longrightarrow> keeps S b css f"
  unfolding keeps_def by blast

text \<open>An empty active segment adds nothing: its predecessor can be taken as the active one.\<close>

lemma keeps_content:
  assumes "keeps R b css f" and "content f = image (next_index b css) cs" and "fits cs"
  shows "R \<subseteq> set (numbered b (concat css @ cs))"
proof -
  let ?i = "next_index b css"
  from assms obtain ds t where ds: "fits ds" "R \<subseteq> set (numbered b (concat css @ ds))"
    "image ?i cs = image ?i ds @ t"
    by (auto simp: keeps_def prefix_def)
  have "scan_records (image ?i cs) 0 ?i = (length (image ?i cs), ?i + word_of_nat (length cs), None)"
    using assms(3) by (intro sc.scan_intact) (simp add: fits_def)
  then obtain es where es: "list_all (\<lambda>c. length c \<le> maxCommandSize) (ds @ es)"
    "image ?i cs = image ?i (ds @ es)"
    using ds(1,3) by (elim sc.scan_keeps) (auto simp: fits_def)
  then have "cs = ds @ es"
    using assms(3) by (intro rc.img_inj) (auto simp: fits_def)
  then show ?thesis
    using ds(2) by (auto simp: numbered_append)
qed

lemma keeps_empty_active:
  assumes "wf_closed b (css @ [cs])"
  shows "keeps R b css (sealed (next_index b css) cs) \<longleftrightarrow> R \<subseteq> set (numbered b (concat css @ cs))"
proof
  assume "keeps R b css (sealed (next_index b css) cs)"
  then show "R \<subseteq> set (numbered b (concat css @ cs))"
    using assms by (elim keeps_content) (simp_all add: sealed_def wf_closed_snoc)
next
  assume "R \<subseteq> set (numbered b (concat css @ cs))"
  with assms show "keeps R b css (sealed (next_index b css) cs)"
    unfolding keeps_def by (intro exI [of _ cs]) (auto simp: sealed_def wf_closed_snoc)
qed

subsection \<open>Crashes\<close>

lemma shelf_sealed:
  "map_of (shelf b css) n = Some g \<Longrightarrow>
     \<not> pending g \<and> durable g = content g \<and> entry_durable g \<and> regular g"
  by (induction b css rule: shelf.induct) (auto simp: sealed_def split: if_splits)

lemma crash_sealed:
  "crash_file g g' \<Longrightarrow> \<not> pending g \<and> durable g = content g \<and> entry_durable g \<and> regular g \<Longrightarrow> g' = g"
  by (auto simp: crash_file_def)

lemma crash_file_active:
  assumes "crash_file f f'" and "keeps R b css f"
  shows "keeps R b css f'"
  using assms unfolding keeps_def crash_file_def by (auto intro: prefix_prefix)

text \<open>After a crash the directory is that of the closed segments, with the active segment or without it.\<close>

lemma crash_stored:
  assumes "stored b css f w" and "crash w w'"
  obtains f' where "crash_file f f'" and "stored b css f' w'"
  | "\<not> entry_durable f" and "get_file w' = map_of (shelf b css)" and "tidy w'"
proof -
  let ?n = "segmentName (next_index b css)"
  from assms have wf: "wf_closed b css" and get: "get_file w = (map_of (shelf b css))(?n \<mapsto> f)"
    and g: "ghosts w = []" and t': "tidy w'"
    by (auto simp: stored_def tidy_def crash_def)
  have step: "case get_file w' m of None \<Rightarrow> (case get_file w m of None \<Rightarrow> True | Some f \<Rightarrow> \<not> entry_durable f)
      | Some f' \<Rightarrow> \<exists>f. get_file w m = Some f \<and> crash_file f f'" for m
    using assms(2) g unfolding crash_def by (elim conjE allE [of _ m]) (auto split: option.splits)
  have others: "get_file w' m = map_of (shelf b css) m" if "m \<noteq> ?n" for m
  proof (cases "map_of (shelf b css) m")
    case None
    then show ?thesis
      using step [of m] that get by (auto split: option.splits)
  next
    case (Some h)
    then have h: "get_file w m = Some h"
      using that get by simp
    note hs = shelf_sealed [OF Some]
    with step [of m] h Some show ?thesis
      by (auto split: option.splits dest: crash_sealed)
  qed
  show thesis
  proof (cases "get_file w' ?n")
    case None
    moreover have "\<not> entry_durable f"
      using step [of ?n] None get by simp
    moreover have "get_file w' = map_of (shelf b css)"
      using others None shelf_fresh [OF wf] by (intro ext) metis
    ultimately show thesis
      using that(2) t' by blast
  next
    case (Some f')
    have "crash_file f f'"
      using step [of ?n] Some get by simp
    moreover have "get_file w' = (map_of (shelf b css))(?n \<mapsto> f')"
      using others Some by fastforce
    ultimately show thesis
      using that(1) t' wf by (simp add: stored_def)
  qed
qed

lemma stored_drop_active:
  assumes "wf_closed b css" and "get_file w = map_of (shelf b css)" and "tidy w"
    and "R \<subseteq> set (numbered b (concat css))"
  shows "at_rest R w"
proof (cases css rule: rev_cases)
  case Nil
  with assms show ?thesis by (simp add: at_rest_def)
next
  case (snoc css0 cs)
  let ?f = "sealed (next_index b css0) cs"
  have "stored b css0 ?f w"
    using assms(1-3) shelf_fresh [of b css0]
    by (auto simp: stored_def snoc wf_closed_snoc shelf_append map_add_def fun_eq_iff split: option.splits)
  moreover have "keeps R b css0 ?f"
    using assms(1,4) by (simp add: snoc keeps_empty_active)
  ultimately show ?thesis
    unfolding at_rest_def by (intro disjI2 exI [of _ b] exI [of _ css0] exI [of _ ?f]) (simp add: sealed_def)
qed

lemma crash_settled: "crash w w' \<Longrightarrow> settled w'"
  by (fastforce simp: crash_def settled_def crash_file_def split: option.splits)

lemma crash_at_rest:
  assumes "at_rest R w" and "crash w w'"
  shows "at_rest R w'"
proof -
  consider "R = {}" "tidy w" "get_file w = Map.empty"
    | b css f where "stored b css f w" "regular f" "keeps R b css f"
    using assms(1) unfolding at_rest_def by blast
  then show ?thesis
  proof cases
    case 1
    have "get_file w' m = None" for m
      using assms(2) 1 by (auto simp: crash_def tidy_def split: option.splits)
    then show ?thesis
      using 1(1) assms(2) by (auto simp: at_rest_def crash_def tidy_def)
  next
    case 2
    from 2(1) assms(2) show ?thesis
    proof (cases rule: crash_stored)
      case (1 f')
      then show ?thesis
        using crash_file_active [OF 1(1) 2(3)] 2(2) unfolding at_rest_def
        by (intro disjI2 exI [of _ b] exI [of _ css] exI [of _ f']) (auto simp: crash_file_def)
    next
      case dropped: 2
      have "R \<subseteq> set (numbered b (concat css))"
        using 2(3) dropped(1) by (auto simp: keeps_def)
      then show ?thesis
        using dropped 2(1) by (intro stored_drop_active) (simp_all add: stored_def)
    qed
  qed
qed

end
