(* ===== verification/LogWrite.thy ===== *)
theory LogWrite
  imports LogState
begin

text \<open>
  The write path preserves the abstract state: a successful append adds one record to it, a failed one
  leaves every record the directory keeps where it is and marks the log as failed.
\<close>

subsection \<open>Indexes\<close>

lemma live_unat:
  assumes "live b css cs f l w"
  shows "unat (next_index b (css @ [cs])) = unat b + length (concat css) + length cs"
    and "unat (l_lastIndex l) + 1 = unat b + length (concat css) + length cs"
    and "l_lastIndex l + 1 = next_index b (css @ [cs])"
proof -
  have b: "1 \<le> unat b" and bound: "unat b + length (concat css) + length cs \<le> 2 ^ 63"
    using assms by (auto simp: live_def stored_def wf_closed_def)
  show n: "unat (next_index b (css @ [cs])) = unat b + length (concat css) + length cs"
    using unat_plus_nat [of b "length (concat (css @ [cs]))"] bound
    by (simp add: next_index_def algebra_simps)
  show s: "l_lastIndex l + 1 = next_index b (css @ [cs])"
    using assms by (simp add: live_def)
  have "next_index b (css @ [cs]) \<noteq> 0"
    using n b by (metis add_is_0 not_one_le_zero unat_0)
  then have "unat (next_index b (css @ [cs]) - 1) + 1 = unat (next_index b (css @ [cs]))"
    by (simp add: unat_minus_one unat_gt_0)
  with n show "unat (l_lastIndex l) + 1 = unat b + length (concat css) + length cs"
    using assms by (simp add: live_def)
qed

lemma image_snoc: "image i (cs @ [c]) = image i cs @ encodeRecord (i + word_of_nat (length cs)) c"
  by (simp add: rc.img_append)

lemma next_index_two:
  "next_index b (css @ [cs, ds]) = next_index b css + word_of_nat (length cs) + word_of_nat (length ds)"
  by (simp add: next_index_def algebra_simps)

lemma set_last_layout:
  "set_last i (layout b (css @ [cs])) =
     layout b css @ [\<lparr>seg_first = next_index b css, seg_last = i, seg_path = segmentName (next_index b css)\<rparr>]"
  by (simp add: set_last_def layout_append)

lemma keeps_grow:
  "keeps R b css f \<Longrightarrow> prefix (durable f) (durable f') \<Longrightarrow> prefix (content f) (content f') \<Longrightarrow>
     (entry_durable f \<Longrightarrow> entry_durable f') \<Longrightarrow> keeps R b css f'"
  unfolding keeps_def by (elim exE) (rule exI, auto intro: prefix_order.trans)

subsection \<open>Flushing\<close>

abbreviation flushed :: "dfile \<Rightarrow> dfile" where
  "flushed f \<equiv> f\<lparr>durable := content f, pending := False\<rparr>"

lemma log_sync_spec:
  assumes "log_sync l w = (r, l', w')" and "h_open (l_active l)"
    and "h_name (l_active l) = segmentName (next_index b css)" and "stored b css f w"
  shows "r = None \<Longrightarrow> l' = l\<lparr>l_dirty := False\<rparr> \<and> stored b css (flushed f) w'"
    and "r = Some e \<Longrightarrow> l' = l\<lparr>l_failed := Some e\<rparr> \<and> stored b css f w'"
    and "sound w (r = None) w'" and "log_lines w' = log_lines w"
proof -
  obtain r1 w1 where sync: "file_Sync (l_active l) w = (r1, w1)"
    by fastforce
  have get: "get_file w (h_name (l_active l)) = Some f"
    using assms by simp
  note s = file_Sync_spec [OF sync assms(2) get]
  have t: "tidy w1"
    using s(2) assms(4) by (simp add: stored_def)
  have eqs: "w' = w1" "r = None \<longleftrightarrow> r1 = None"
    "r = None \<Longrightarrow> l' = l\<lparr>l_dirty := False\<rparr>" "r = Some e \<Longrightarrow> l' = l\<lparr>l_failed := Some e\<rparr>"
    using assms(1) sync by (auto simp: log_sync_def Let_def split: option.splits)
  show "r = None \<Longrightarrow> l' = l\<lparr>l_dirty := False\<rparr> \<and> stored b css (flushed f) w'"
    using eqs s(1) assms(3,4) t by (auto intro: stored_update)
  show "r = Some e \<Longrightarrow> l' = l\<lparr>l_failed := Some e\<rparr> \<and> stored b css f w'"
    using eqs s(1) assms(4) t by (auto simp: stored_def)
  show "sound w (r = None) w'" "log_lines w' = log_lines w"
    using eqs s by auto
qed

lemma log_sync_live:
  assumes "log_sync l w = (r, l', w')" and "live b css cs f l w"
  shows "r = None \<Longrightarrow> l' = l\<lparr>l_dirty := False\<rparr> \<and> live b css cs (flushed f) l' w'"
    and "r = Some e \<Longrightarrow> l' = l\<lparr>l_failed := Some e\<rparr> \<and> stored b css f w'"
    and "sound w (r = None) w'" and "log_lines w' = log_lines w"
  using log_sync_spec [OF assms(1), of b css f] assms(2) by (auto simp: live_def)

subsection \<open>Writing a record\<close>

text \<open>The state after a record was written in full, flushed or not.\<close>

definition appended :: "u64 \<Rightarrow> bytes \<Rightarrow> bool \<Rightarrow> Log \<Rightarrow> Log" where
  "appended index rec d l =
     l\<lparr>l_activeSize := l_activeSize l + int (length rec), l_dirty := d, l_lastIndex := index,
       l_segments := set_last index (l_segments l)\<rparr>"

lemma live_appended:
  assumes live: "live b css cs f l w" and index: "index = next_index b (css @ [cs])"
    and c: "length c \<le> maxCommandSize" "unat b + length (concat css) + length cs < 2 ^ 63"
    and g: "stored b css g w'" "content g = content f @ encodeRecord index c" "regular g" "entry_durable g"
      "prefix (durable g) (content g)" "pending g \<longrightarrow> d" "\<not> pending g \<longrightarrow> durable g = content g"
  shows "live b css (cs @ [c]) g (appended index (encodeRecord index c) d l) w'"
proof -
  have img: "content g = image (next_index b css) (cs @ [c])"
    using live index g(2) by (simp add: live_def image_snoc next_index_snoc)
  have segs: "set_last index (l_segments l) = layout b (css @ [cs @ [c]])"
    using live index by (simp add: live_def set_last_layout) (simp add: layout_append next_index_snoc)
  have size: "l_activeSize l + int (length (encodeRecord index c)) = int (length (content g))"
    using live g(2) by (simp add: live_def)
  have last: "index = next_index b (css @ [cs @ [c]]) - 1"
    using index by (simp add: next_index_snoc)
  show ?thesis
    unfolding live_def appended_def
    using live c g(1,3-7) segs size last img by (simp add: live_def del: length_encodeRecord)
qed

lemma write_record_cases:
  assumes "write_record index rec l w = (r, l', w')" and "h_open (l_active l)"
    and "h_name (l_active l) = segmentName (next_index b css)" and "stored b css f w"
  obtains (torn) e n where "r = Inl e" "l_failed l' = Some e" "faults w \<noteq> []"
      "stored b css (f\<lparr>content := content f @ take n rec, pending := True\<rparr>) w'" "l_cfg l' = l_cfg l"
  | (unflushed) "r = Inr index" "l' = appended index rec True l" "lc_Fsync (l_cfg l) \<noteq> FsyncAlways"
      "stored b css (f\<lparr>content := content f @ rec, pending := True\<rparr>) w'" "sound w True w'"
  | (flushed) "r = Inr index" "l' = appended index rec False l"
      "stored b css (flushed (f\<lparr>content := content f @ rec, pending := True\<rparr>)) w'" "sound w True w'"
proof -
  have get: "get_file w (h_name (l_active l)) = Some f"
    using assms by simp
  obtain r1 w1 where wr: "file_Write (l_active l) rec w = (r1, w1)"
    by fastforce
  obtain n where n: "r1 = None \<Longrightarrow> length rec \<le> n"
    "get_file w1 = (get_file w)(h_name (l_active l) \<mapsto> f\<lparr>content := content f @ take n rec, pending := True\<rparr>)"
    "tidy w \<Longrightarrow> tidy w1" "sound w (r1 = None) w1"
    using file_Write_spec [OF wr assms(2) get] by blast
  define f1 where "f1 = f\<lparr>content := content f @ take n rec, pending := True\<rparr>"
  have st1: "stored b css f1 w1"
    using assms(3,4) n(2,3) by (auto simp: f1_def stored_def)
  define l1 where "l1 = l\<lparr>l_activeSize := l_activeSize l + int (length rec), l_dirty := True\<rparr>"
  have l1: "h_open (l_active l1)" "h_name (l_active l1) = segmentName (next_index b css)"
    using assms by (simp_all add: l1_def)
  show thesis
  proof (cases r1)
    case (Some e)
    then show thesis
      using assms(1) wr st1 n(4)
      by (intro torn [of _ n]) (auto simp: write_record_def Let_def f1_def sound_def)
  next
    case None
    then have full: "take n rec = rec"
      using n(1) by simp
    show thesis
    proof (cases "lc_Fsync (l_cfg l) = FsyncAlways")
      case False
      then show thesis
        using assms(1) wr None st1 n(4) full
        by (intro unflushed) (auto simp: write_record_def Let_def f1_def appended_def sound_def)
    next
      case True
      obtain r2 l2 w2 where sy: "log_sync l1 w1 = (r2, l2, w2)"
        by (metis prod_cases3)
      note s = log_sync_spec [OF sy l1 st1]
      show thesis
      proof (cases r2)
        case r2: None
        then show thesis
          using assms(1) wr None True sy s(1,3) n(4) full
          by (intro flushed) (auto simp: write_record_def Let_def f1_def appended_def sound_def l1_def)
      next
        case (Some e)
        then show thesis
          using assms(1) wr None True sy s(2,3) n(4) full
          by (intro torn [of _ n]) (auto simp: write_record_def Let_def f1_def sound_def l1_def)
      qed
    qed
  qed
qed

lemma write_record_live:
  assumes "write_record index (encodeRecord index c) l w = (r, l', w')" and live: "live b css cs f l w"
    and "index = next_index b (css @ [cs])" and "length c \<le> maxCommandSize"
    and "unat b + length (concat css) + length cs < 2 ^ 63"
  obtains (ok) f' where "r = Inr index" "live b css (cs @ [c]) f' l' w'" "prefix (durable f) (durable f')"
      "prefix (content f) (content f')" "entry_durable f'" "lc_Fsync (l_cfg l) = FsyncAlways \<Longrightarrow> \<not> l_dirty l'"
      "l_cfg l' = l_cfg l" "sound w True w'"
  | (failed) e f' where "r = Inl e" "l_failed l' = Some e" "stored b css f' w'" "regular f'" "pending f'"
      "durable f' = durable f" "prefix (content f) (content f')" "entry_durable f'" "l_cfg l' = l_cfg l"
      "faults w \<noteq> []"
proof -
  let ?rec = "encodeRecord index c"
  have act: "h_open (l_active l)" "h_name (l_active l) = segmentName (next_index b css)"
    and st: "stored b css f w" and reg: "regular f" "entry_durable f" "prefix (durable f) (content f)"
    using live by (auto simp: live_def)
  from assms(1) act st show thesis
  proof (cases rule: write_record_cases)
    case (torn e n)
    then show thesis
      using reg by (intro failed [OF torn(1,2,4)]) auto
  next
    case unflushed
    let ?g = "f\<lparr>content := content f @ ?rec, pending := True\<rparr>"
    have lv: "live b css (cs @ [c]) ?g l' w'"
      unfolding unflushed(2) using live assms(3-5) unflushed(4) reg by (intro live_appended) auto
    show thesis
      using reg unflushed by (intro ok [OF unflushed(1) lv]) (auto simp: appended_def)
  next
    case flushed
    let ?g = "flushed (f\<lparr>content := content f @ ?rec, pending := True\<rparr>)"
    have lv: "live b css (cs @ [c]) ?g l' w'"
      unfolding flushed(2) using live assms(3-5) flushed(3) reg by (intro live_appended) auto
    show thesis
      using reg flushed by (intro ok [OF flushed(1) lv]) (auto simp: appended_def prefix_prefix)
  qed
qed

subsection \<open>Starting a segment\<close>

lemma createSegment_spec:
  assumes "createSegment path w = (r, w')" and "get_file w path = None"
  obtains (ok) h where "r = Inr h" "h = \<lparr>h_name = path, h_open = True\<rparr>"
      "get_file w' = entries_durable ((get_file w)(path \<mapsto> new_file))" "tidy w \<Longrightarrow> tidy w'" "sound w True w'"
  | (untouched) e where "r = Inl e" "same_disk w w'" "faults w \<noteq> []"
  | (created) e where "r = Inl e" "tidy w \<Longrightarrow> tidy w'" "faults w \<noteq> []"
      "get_file w' = (get_file w)(path \<mapsto> new_file) \<or> get_file w' = entries_durable ((get_file w)(path \<mapsto> new_file))"
proof -
  obtain r1 w1 where cr: "os_CreateExcl path w = (r1, w1)"
    by fastforce
  note c = os_CreateExcl_spec [OF cr assms(2)]
  show thesis
  proof (cases r1)
    case (Inl e)
    then show thesis
      using assms(1) cr c untouched by (auto simp: createSegment_def sound_def)
  next
    case (Inr h)
    obtain r2 w2 where sd: "syncDir w1 = (r2, w2)"
      by fastforce
    note s = syncDir_spec [OF sd]
    show thesis
    proof (cases r2)
      case None
      then show thesis
        using assms(1) cr c Inr sd s by (intro ok [of h]) (auto simp: createSegment_def sound_def)
    next
      case (Some e)
      obtain x h' w3 where cl: "file_Close h w2 = (x, h', w3)"
        by (metis prod_cases3)
      note c3 = file_Close_spec [OF cl]
      show thesis
        using assms(1) cr c Inr sd s Some cl c3
        by (intro created [of e]) (auto simp: createSegment_def sound_def same_disk_def)
    qed
  qed
qed

lemma shelf_close:
  "(map_of (shelf b css))(segmentName (next_index b css) \<mapsto> sealed (next_index b css) cs)
     = map_of (shelf b (css @ [cs]))" if "wf_closed b css"
  using shelf_fresh [OF that]
  by (auto simp: shelf_append map_add_def fun_eq_iff split: option.splits)

lemma entries_durable_shelf:
  "entries_durable ((map_of (shelf b css))(n \<mapsto> f)) = (map_of (shelf b css))(n \<mapsto> f\<lparr>entry_durable := True\<rparr>)"
proof
  fix m
  show "entries_durable ((map_of (shelf b css))(n \<mapsto> f)) m
      = ((map_of (shelf b css))(n \<mapsto> f\<lparr>entry_durable := True\<rparr>)) m"
    using shelf_sealed [of b css m] by (cases "map_of (shelf b css) m") (auto simp: entries_durable_def)
qed

lemma live_sealed:
  assumes "live b css cs f l w" and "\<not> pending f"
  shows "f = sealed (next_index b css) cs"
  using assms by (auto simp: live_def sealed_def)

text \<open>A rotation that fails after its flush has left the old segment whole, with or without the new file.\<close>

text \<open>Once a closed segment is on the shelf, everything kept is in closed segments.\<close>

lemma keeps_rotated:
  assumes "keeps R b css f" and "f = sealed (next_index b css) cs" and "wf_closed b (css @ [cs])"
  shows "keeps R b (css @ [cs]) g"
proof -
  have "R \<subseteq> set (numbered b (concat (css @ [cs]) @ []))"
    using assms keeps_empty_active [of b css cs R] by simp
  then show ?thesis
    unfolding keeps_def by (intro exI [of _ "[]"]) simp
qed

lemma createSegment_shelf:
  assumes "createSegment (segmentName (next_index b css)) w = (r, w')" and "get_file w = map_of (shelf b css)"
    and t: "tidy w" and wf: "wf_closed b css"
  obtains (ok) h where "r = Inr h" "h = \<lparr>h_name = segmentName (next_index b css), h_open = True\<rparr>"
      "stored b css (new_file\<lparr>entry_durable := True\<rparr>) w'" "sound w True w'"
  | (untouched) e where "r = Inl e" "same_disk w w'" "faults w \<noteq> []"
  | (created) e g where "r = Inl e" "stored b css g w'" "regular g" "durable g = content g" "faults w \<noteq> []"
proof -
  let ?d = "new_file\<lparr>entry_durable := True\<rparr>"
  have new: "stored b css g w'" if "get_file w' = (map_of (shelf b css))(segmentName (next_index b css) \<mapsto> g)" "tidy w'" for g
    using that wf by (simp add: stored_def)
  have "get_file w (segmentName (next_index b css)) = None"
    using shelf_fresh [OF wf] by (simp add: assms(2))
  from assms(1) this show thesis
  proof (cases rule: createSegment_spec)
    case (ok h)
    then show thesis
      using new [of ?d] t by (intro that(1) [of h]) (simp_all add: assms(2) entries_durable_shelf)
  next
    case (untouched e)
    then show thesis
      by (intro that(2)) auto
  next
    case (created e)
    then have "stored b css new_file w' \<or> stored b css ?d w'"
      using new [of new_file] new [of ?d] t by (auto simp: assms(2) entries_durable_shelf)
    then show thesis
      using created by (auto intro: that(3) [of e new_file] that(3) [of e ?d])
  qed
qed

lemma rotate_closed_live:
  assumes "rotate_closed nxt l w = (r, l', w')" and live: "live b css cs f l w" and "\<not> pending f"
    and nxt: "nxt = next_index b (css @ [cs])" and cs: "cs \<noteq> []"
    and bound: "unat b + length (concat css) + length cs \<le> 2 ^ 62"
  obtains (ok) "r = None" "live b (css @ [cs]) [] (new_file\<lparr>entry_durable := True\<rparr>) l' w'"
      "l_cfg l' = l_cfg l" "l_dirty l' = l_dirty l" "sound w True w'"
  | (failed) e where "r = Some e" "\<And>R. keeps R b css f \<Longrightarrow> at_rest R w'" "l_cfg l' = l_cfg l" "faults w \<noteq> []"
proof -
  have st: "stored b css f w" and fc: "fits cs" and h: "h_open (l_active l)"
    using live by (auto simp: live_def)
  then have wf: "wf_closed b css" and wf2: "wf_closed b (css @ [cs])"
    using cs bound by (auto simp: stored_def wf_closed_snoc)
  note sl = live_sealed [OF live assms(3)]
  obtain x h' w1 where cl: "file_Close (l_active l) w = (x, h', w1)"
    by (metis prod_cases3)
  note c = file_Close_spec [OF cl]
  have st1: "stored b css f w1"
    using st c stored_same by blast
  then have get1: "get_file w1 = map_of (shelf b (css @ [cs]))" and t1: "tidy w1"
    using wf sl by (simp_all add: stored_def shelf_close)
  have rest: "at_rest R w1" if "keeps R b css f" for R
    using that st1 live unfolding at_rest_def live_def by blast
  show thesis
  proof (cases x)
    case (Some e)
    then show thesis
      using assms(1) cl c rest h
      by (intro failed [of "internal e ''command log segment could not be closed''"])
        (auto simp: rotate_closed_def sound_def dest: at_rest_same)
  next
    case None
    obtain r2 w2 where cr: "createSegment (segmentName (next_index b (css @ [cs]))) w1 = (r2, w2)"
      by fastforce
    have snd: "faults w = [] \<Longrightarrow> faults w1 = []"
      using c None by (auto simp: sound_def)
    have run: "(r, l', w') = (case (r2, w2) of (Inl err, w) \<Rightarrow> (Some err, l\<lparr>l_active := h'\<rparr>, w)
        | (Inr h2, w) \<Rightarrow> (None, l\<lparr>l_active := h2, l_segments := l_segments l @ [\<lparr>seg_first = nxt, seg_last = nxt - 1,
           seg_path = segmentName nxt\<rparr>], l_activeSize := 0\<rparr>, w))"
      using assms(1) cl None cr by (cases r2) (auto simp: rotate_closed_def Let_def nxt)
    from cr get1 t1 wf2 show thesis
    proof (cases rule: createSegment_shelf)
      case (ok h2)
      then have "live b (css @ [cs]) [] (new_file\<lparr>entry_durable := True\<rparr>) l' w'"
        using live run wf2 by (simp add: live_def nxt layout_append next_index_snoc next_index_two)
      then show thesis
        using run ok snd that(1) by (simp add: sound_def)
    next
      case (untouched e)
      then show thesis
        using run rest snd by (intro failed [of e]) (auto dest: at_rest_same)
    next
      case (created e g)
      then have "at_rest R w2" if "keeps R b css f" for R
        using keeps_rotated [OF that sl wf2, of g] unfolding at_rest_def by blast
      then show thesis
        using run created snd by (intro failed [of e]) auto
    qed
  qed
qed

lemma log_rotate_live:
  assumes "log_rotate nxt l w = (r, l', w')" and live: "live b css cs f l w"
    and nxt: "nxt = next_index b (css @ [cs])" and cs: "cs \<noteq> []"
    and bound: "unat b + length (concat css) + length cs \<le> 2 ^ 62"
  obtains (ok) "r = None" "live b (css @ [cs]) [] (new_file\<lparr>entry_durable := True\<rparr>) l' w'"
      "l_cfg l' = l_cfg l" "sound w True w'"
  | (failed) e where "r = Some e" "\<And>R. keeps R b css f \<Longrightarrow> at_rest R w'" "l_cfg l' = l_cfg l" "faults w \<noteq> []"
proof (cases "l_dirty l")
  case False
  then have "\<not> pending f" and rot: "rotate_closed nxt l w = (r, l', w')"
    using assms(1) live by (auto simp: log_rotate_def live_def)
  from rot live this(1) nxt cs bound show thesis
    by (cases rule: rotate_closed_live) (use that in auto)
next
  case True
  obtain r1 l1 w1 where sy: "log_sync l w = (r1, l1, w1)"
    by (metis prod_cases3)
  note s = log_sync_live [OF sy live]
  have grow: "keeps R b css (flushed f)" if "keeps R b css f" for R
    using that live by (elim keeps_grow) (auto simp: live_def)
  show thesis
  proof (cases r1)
    case (Some e)
    then have "at_rest R w1" if "keeps R b css f" for R
      using that s(2) live unfolding at_rest_def live_def by blast
    then show thesis
      using assms(1) True sy Some s(2,3) by (intro failed [of e]) (auto simp: log_rotate_def sound_def)
  next
    case None
    then have lv: "live b css cs (flushed f) l1 w1" and rot: "rotate_closed nxt l1 w1 = (r, l', w')"
      and l1: "l_cfg l1 = l_cfg l" and snd: "faults w = [] \<Longrightarrow> faults w1 = []"
      using assms(1) True sy s(1,3) by (auto simp: log_rotate_def sound_def)
    have "\<not> pending (flushed f)" by simp
    from rot lv this nxt cs bound show thesis
    proof (cases rule: rotate_closed_live)
      case ok
      then show thesis
        using that(1) l1 snd by (auto simp: sound_def)
    next
      case (failed e)
      then show thesis
        using that(2) [of e] l1 snd grow by auto
    qed
  qed
qed

subsection \<open>Appending\<close>

lemma contextError_None [simp]: "contextError ctx = None \<longleftrightarrow> ctx = None" "contextError None = None"
  by (simp_all add: contextError_def split: option.splits)

lemma live_writable [simp]: "live b css cs f l w \<Longrightarrow> writable l = None"
  by (simp add: live_def writable_def)

text \<open>Writing the next record, after a rotation or without one.\<close>

lemma write_next_live:
  assumes wr: "write_record i (encodeRecord i c) l w = (r, l', w')" and lv: "live b css cs f l w"
    and i: "i = next_index b (css @ [cs])" and len: "length c \<le> maxCommandSize"
    and bound: "unat b + length (concat css) + length cs < 2 ^ 63"
  obtains (ok) f' where "r = Inr i" "live b css (cs @ [c]) f' l' w'" "\<And>R. keeps R b css f \<Longrightarrow> keeps R b css f'"
      "lc_Fsync (l_cfg l) = FsyncAlways \<Longrightarrow> \<not> l_dirty l'" "l_cfg l' = l_cfg l" "sound w True w'"
  | (failed) e where "r = Inl e" "l_failed l' = Some e" "\<And>R. keeps R b css f \<Longrightarrow> at_rest R w'"
      "l_cfg l' = l_cfg l" "faults w \<noteq> []"
  using wr lv i len bound
proof (cases rule: write_record_live)
  case (ok f')
  then have "keeps R b css f'" if "keeps R b css f" for R
    using that by (elim keeps_grow)
  then show thesis
    using ok by (intro that(1) [of f']) auto
next
  case (failed e f')
  have "keeps R b css f'" if "keeps R b css f" for R
    using that failed(6-8) by (elim keeps_grow) auto
  then have "at_rest R w'" if "keeps R b css f" for R
    using that failed(3-5) unfolding at_rest_def by blast
  then show thesis
    using failed by (intro that(2) [of e]) auto
qed

lemma Append_live:
  assumes app: "Append ctx c l w = (r, l', w')" and live: "live b css cs f l w"
    and bound: "unat (l_lastIndex l) < 2 ^ 62"
  obtains (ok) css' cs' f' where "r = Inr (l_lastIndex l + 1)" "live b css' cs' f' l' w'"
      "concat css' @ cs' = concat css @ cs @ [c]" "\<And>R. keeps R b css f \<Longrightarrow> keeps R b css' f'"
      "lc_Fsync (l_cfg l) = FsyncAlways \<Longrightarrow> \<not> l_dirty l'" "l_cfg l' = l_cfg l"
      "ctx = None" "length c \<le> maxCommandSize" "sound w True w'"
  | (refused) e where "r = Inl e" "l' = l" "w' = w" "ctx \<noteq> None \<or> maxCommandSize < length c"
  | (failed) e where "r = Inl e" "l_failed l' = Some e" "\<And>R. keeps R b css f \<Longrightarrow> at_rest R w'"
      "l_cfg l' = l_cfg l" "faults w \<noteq> []"
proof (cases "ctx \<noteq> None \<or> maxCommandSize < length c")
  case True
  then show thesis
    using app refused by (auto simp: Append_def split: option.splits if_splits)
next
  case False
  then have args: "ctx = None" "length c \<le> maxCommandSize"
    by auto
  let ?i = "l_lastIndex l + 1"
  note success = ok and failure = failed
  note idx = live_unat [OF live]
  have small: "unat b + length (concat css) + length cs \<le> 2 ^ 62"
    using idx(2) bound by simp
  have wr: thesis
    if wr: "write_record ?i (encodeRecord ?i c) l1 w1 = (r, l', w')" and lv: "live b css1 cs1 f1 l1 w1"
      and i: "?i = next_index b (css1 @ [cs1])" and eq: "concat css1 @ cs1 = concat css @ cs"
      and cfg: "l_cfg l1 = l_cfg l" and snd: "faults w = [] \<Longrightarrow> faults w1 = []"
      and k: "\<And>R. keeps R b css f \<Longrightarrow> keeps R b css1 f1" for css1 cs1 f1 l1 w1
  proof -
    have b1: "unat b + length (concat css1) + length cs1 < 2 ^ 63"
      using small arg_cong [OF eq, of length] by simp
    have all: "concat css1 @ cs1 @ [c] = concat css @ cs @ [c]"
      using eq by (metis append_assoc)
    from wr lv i args(2) b1 show thesis
    proof (cases rule: write_next_live)
      case (ok f2)
      then show thesis
        using cfg args snd k all by (intro success [of css1 "cs1 @ [c]" f2]) (auto simp: sound_def)
    next
      case (failed e)
      then show thesis
        using cfg snd k by (intro failure [of e]) auto
    qed
  qed
  show thesis
  proof (cases "0 < l_activeSize l
      \<and> lc_SegmentBytes (l_cfg l) < l_activeSize l + int (length (encodeRecord ?i c))")
    case False
    then have "write_record ?i (encodeRecord ?i c) l w = (r, l', w')"
      using app args live by (auto simp: Append_def Let_def)
    then show thesis
      using live idx(3) by (intro wr) auto
  next
    case True
    obtain r1 l1 w1 where rot: "log_rotate ?i l w = (r1, l1, w1)"
      by (metis prod_cases3)
    have "cs \<noteq> []"
      using True live by (auto simp: live_def)
    from rot live idx(3) this small show thesis
    proof (cases rule: log_rotate_live)
      case ok
      have rest: "keeps R b (css @ [cs]) (new_file\<lparr>entry_durable := True\<rparr>)" if "keeps R b css f" for R
        unfolding keeps_def using keeps_content [OF that, of cs] live
        by (intro exI [of _ "[]"]) (simp add: live_def)
      show thesis
        using app args live True rot ok rest idx(3)
        by (intro wr [of l1 w1 "css @ [cs]" "[]"]) (auto simp: Append_def Let_def next_index_snoc next_index_two sound_def)
    next
      case (failed e)
      then show thesis
        using app args live True rot by (intro failure [of e]) (auto simp: Append_def Let_def)
    qed
  qed
qed

subsection \<open>Background flush and closing\<close>

lemma syncIfDirty_live:
  assumes "syncIfDirty l w = (l', w')" and live: "live b css cs f l w"
  obtains (ok) f' where "live b css cs f' l' w'" "\<not> l_dirty l'" "\<And>R. keeps R b css f \<Longrightarrow> keeps R b css f'"
      "l_cfg l' = l_cfg l"
  | (failed) e where "l_failed l' = Some e" "\<And>R. keeps R b css f \<Longrightarrow> at_rest R w'" "l_cfg l' = l_cfg l"
      "faults w \<noteq> []"
proof (cases "l_dirty l")
  case False
  then have "l' = l \<and> w' = w"
    using assms(1) by (simp add: syncIfDirty_def)
  then show thesis
    using False live by (intro ok) auto
next
  case True
  obtain r1 l1 w1 where sy: "log_sync l w = (r1, l1, w1)"
    by (metis prod_cases3)
  note s = log_sync_live [OF sy live]
  have run: "syncIfDirty l w = (case r1 of None \<Rightarrow> (l1, w1) | Some err \<Rightarrow> (l1, slog_line ''ERROR''
      ''command log background fsync failed; refusing further writes'' [(''error'', error_text err)] w1))"
    using True live sy by (simp add: syncIfDirty_def live_def split: option.splits)
  show thesis
  proof (cases r1)
    case None
    have "keeps R b css (flushed f)" if "keeps R b css f" for R
      using that live by (elim keeps_grow) (auto simp: live_def)
    then show thesis
      using assms(1) run None s(1) by (intro ok [of "flushed f"]) auto
  next
    case (Some e)
    then have "stored b css f w'"
      using assms(1) run s(2) by (auto simp: stored_def)
    then have "at_rest R w'" if "keeps R b css f" for R
      using that live unfolding at_rest_def live_def by blast
    then show thesis
      using assms(1) run Some s(2,3) by (intro failed [of e]) (auto simp: sound_def)
  qed
qed

lemma Close_live:
  assumes "Close l w = (r, l', w')" and live: "live b css cs f l w"
  shows "l_closed l'" and "keeps R b css f \<Longrightarrow> at_rest R w'"
    and "r = None \<Longrightarrow> keeps (set (numbered b (concat css @ cs))) b css (flushed f) \<and> stored b css (flushed f) w'"
    and "sound w (r = None) w'"
proof -
  let ?l = "l\<lparr>l_closed := True\<rparr>"
  have st: "stored b css f w" and act: "h_open (l_active ?l)"
    "h_name (l_active ?l) = segmentName (next_index b css)" and fl: "l_failed l = None" "\<not> l_closed l"
    using live by (auto simp: live_def)
  obtain r1 l1 w1 where sy: "(if l_dirty l then log_sync ?l w else (None, ?l, w)) = (r1, l1, w1)"
    by (metis prod_cases3)
  have s: "r1 = None \<Longrightarrow> stored b css (flushed f) w1" "r1 \<noteq> None \<Longrightarrow> stored b css f w1"
    "l_active l1 = l_active l" "l_closed l1" "sound w (r1 = None) w1"
  proof -
    have clean: "f = flushed f" if "\<not> l_dirty l"
      using live that by (auto simp: live_def)
    note spec = log_sync_spec [OF _ act st]
    show "r1 = None \<Longrightarrow> stored b css (flushed f) w1"
      using sy spec(1) [of r1 l1 w1] clean st by (auto split: if_splits)
    show "r1 \<noteq> None \<Longrightarrow> stored b css f w1"
      using sy spec(2) [of r1 l1 w1] by (auto split: if_splits)
    show "l_active l1 = l_active l" "l_closed l1"
      using sy spec(1,2) [of r1 l1 w1] by (cases r1; auto split: if_splits)+
    show "sound w (r1 = None) w1"
      using sy spec(3) [of r1 l1 w1] by (auto simp: sound_def split: if_splits)
  qed
  obtain x h w2 where cl: "file_Close (l_active l1) w1 = (x, h, w2)"
    by (metis prod_cases3)
  note c = file_Close_spec [OF cl]
  have run: "Close l w = (case x of Some err \<Rightarrow> (Some (internal (the (errors_Join [r1, Some err]))
      ''command log could not be closed''), l1\<lparr>l_active := h\<rparr>, w2) | None \<Rightarrow> (r1, l1\<lparr>l_active := h\<rparr>, w2))"
    using fl sy cl by (simp add: Close_def Let_def split: option.splits)
  then have w': "w' = w2" and "l' = l1\<lparr>l_active := h\<rparr>" and r: "r = None \<longleftrightarrow> x = None \<and> r1 = None"
    using assms(1) by (auto split: option.splits)
  then show "l_closed l'"
    using s(4) by simp
  have st2: "r1 = None \<Longrightarrow> stored b css (flushed f) w'" "r1 \<noteq> None \<Longrightarrow> stored b css f w'"
    using s(1,2) c stored_same by (auto simp: w')
  have grow: "keeps R b css (flushed f)" if "keeps R b css f" for R
    using that live by (elim keeps_grow) (auto simp: live_def)
  show "at_rest R w'" if "keeps R b css f"
  proof (cases "r1 = None")
    case True
    then show ?thesis
      using st2(1) grow [OF that] live unfolding at_rest_def live_def
      by (intro disjI2 exI [of _ b] exI [of _ css] exI [of _ "flushed f"]) simp
  next
    case False
    then show ?thesis
      using st2(2) that live unfolding at_rest_def live_def by blast
  qed
  show "keeps (set (numbered b (concat css @ cs))) b css (flushed f) \<and> stored b css (flushed f) w'"
    if "r = None"
    using that r st2(1) live by (auto simp: keeps_def live_def)
  show "sound w (r = None) w'"
    using r s(3,5) c live w' by (auto simp: sound_def live_def)
qed

end
