(* ===== verification/LogOpen.thy ===== *)
theory LogOpen
  imports LogWrite
begin

text \<open>
  What \<^verbatim>\<open>OpenLog\<close> makes of a settled directory, case by case: an intact log opens with exactly its
  records; a damaged tail is truncated behind the last whole record and reported; damage followed by
  a later record is refused and nothing on disk changes; a failing system call leaves every record in
  place.
\<close>

subsection \<open>Listing\<close>

abbreviation bare :: "u64 \<Rightarrow> segment" where
  "bare i \<equiv> \<lparr>seg_first = i, seg_last = 0, seg_path = segmentName i\<rparr>"

lemma listSegments_names:
  assumes dist: "distinct (map fst entries)" and names: "set (map fst entries) = segmentName ` set is"
    and reg: "\<forall>e \<in> set entries. snd e" and is_sorted: "sorted_wrt (<) is"
  shows "listSegments quote dir (Inr entries) = Inr (map bare is)"
proof -
  have "\<forall>e \<in> set entries. segment_entry e"
    using names reg by (auto simp: segment_entry_iff)
  then obtain cs where cs: "collect_segments quote dir entries = Inr cs"
    using collect_segments_Inl [of quote dir entries] by (cases "collect_segments quote dir entries") auto
  have map_cs: "cs = map (\<lambda>e. bare (the (parseSegmentName (fst e)))) entries"
    using collect_segments_Inr [OF cs] parseSegmentName_SomeD by (fastforce simp: segment_entry_def)
  let ?segs = "sort_key seg_first cs"
  have firsts: "map seg_first cs = map (the \<circ> parseSegmentName) (map fst entries)"
    by (simp add: map_cs)
  have set_firsts: "set (map seg_first cs) = set is"
    unfolding firsts set_map [of _ "map fst entries"] names by (simp add: image_image parse_segmentName)
  have "inj_on (the \<circ> parseSegmentName) (set (map fst entries))"
    unfolding names by (auto simp: inj_on_def parse_segmentName)
  then have "distinct (map seg_first cs)"
    unfolding firsts using dist distinct_map [of "the \<circ> parseSegmentName" "map fst entries"] by blast
  then have "map seg_first ?segs = is"
    using set_firsts is_sorted
    by (intro sorted_distinct_set_unique) (auto simp: strict_sorted_iff sort_key_simps distinct_map)
  moreover have "s = bare (seg_first s)" if "s \<in> set ?segs" for s
    using that by (auto simp: map_cs)
  ultimately have "?segs = map bare is"
    by (metis (no_types, lifting) map_idI map_map comp_apply)
  with cs show ?thesis
    by (simp add: listSegments_def)
qed

lemma map_bare_layout: "map bare (map seg_first (layout b (css @ [cs]))) =
    map bare (map seg_first (layout b css)) @ [bare (next_index b css)]"
  by (simp add: layout_append)

lemma stored_listing:
  assumes "stored b css f w" and "regular f" and "os_ReadDir w = (rd, w')" and "rd = Inr entries"
  shows "listSegments quote dir rd =
    Inr (map bare (map seg_first (layout b css)) @ [bare (next_index b css)])"
proof -
  have wf: "wf_closed b css" and tidy: "tidy w"
    and get: "get_file w = (map_of (shelf b css))(segmentName (next_index b css) \<mapsto> f)"
    using assms(1) by (simp_all add: stored_def)
  note rd = os_ReadDir_spec(3) [OF assms(3,4) tidy]
  let ?is = "map seg_first (layout b (css @ [[]]))"
  have "dom (get_file w) = insert (segmentName (next_index b css)) (set (map fst (shelf b css)))"
    by (simp add: get dom_map_of_conv_image_fst)
  also have "set (map fst (shelf b css)) = segmentName ` seg_first ` set (layout b css)"
    unfolding shelf_names using layout_path by (force simp: image_iff)
  finally have dom: "dom (get_file w) = segmentName ` set ?is"
    by (simp add: layout_append image_image)
  have "\<forall>e \<in> set entries. snd e"
  proof
    fix e assume "e \<in> set entries"
    with rd obtain g where g: "get_file w (fst e) = Some g" "snd e = regular g"
      by (cases e) fastforce
    show "snd e"
      using g get assms(2) shelf_sealed [of b css "fst e" g] by (auto split: if_splits)
  qed
  then have "listSegments quote dir (Inr entries) = Inr (map bare ?is)"
    using rd dom layout_sorted_all [OF wf] by (intro listSegments_names) simp_all
  then show ?thesis
    by (simp add: assms(4) layout_append)
qed

subsection \<open>Verifying the segments\<close>

lemma verifySegment_sealed:
  assumes "verifySegment (bare i) isLast w = (r, w')" and "get_file w (segmentName i) = Some f"
    and "content f = image i cs" and "fits cs"
  obtains (ok) "r = Inr (length (image i cs),
      \<lparr>seg_first = i, seg_last = i + word_of_nat (length cs) - 1, seg_path = segmentName i\<rparr>)"
      "same_disk w w'" "sound w True w'"
  | (fault) e where "r = Inl e" "same_disk w w'" "faults w \<noteq> []"
proof -
  obtain x w1 where rd: "os_ReadFile (segmentName i) w = (x, w1)"
    by fastforce
  note s = os_ReadFile_spec [OF rd assms(2)]
  have scan: "scan_records (image i cs) 0 i = (length (image i cs), i + word_of_nat (length cs), None)"
    using assms(4) by (intro sc.scan_intact) (simp add: fits_def)
  show thesis
  proof (cases x)
    case (Inl e)
    then show thesis
      using assms(1) rd s by (intro fault) (auto simp: verifySegment_def sound_def)
  next
    case (Inr data)
    then show thesis
      using assms(1,3) rd s scan by (intro ok) (auto simp: verifySegment_def)
  qed
qed

text \<open>The closed segments are read and found intact; what is left is the verdict on the last one.\<close>

lemma verify_segments_closed:
  assumes "verify_segments prev (map bare (map seg_first (layout (next_index b xs) ys)) @ [bare (next_index b css)]) w = (r, w')"
    and "stored b css f w" and "css = xs @ ys" and "prev = None \<or> prev = Some (next_index b xs - 1)"
  obtains (last) r1 w1 where "same_disk w w1" "faults w = [] \<Longrightarrow> faults w1 = []"
      "verifySegment (bare (next_index b css)) True w1 = (r1, w')"
      "r = (case r1 of Inl e \<Rightarrow> Inl e | Inr (n, s) \<Rightarrow> Inr (layout (next_index b xs) ys @ [s], n))"
  | (fault) e where "r = Inl e" "same_disk w w'" "faults w \<noteq> []"
  using assms
proof (induction ys arbitrary: xs prev w r w' thesis)
  case Nil
  let ?s = "bare (next_index b css)"
  obtain r1 w1 where v: "verifySegment ?s True w = (r1, w1)"
    by fastforce
  have "segment_gap prev ?s = None"
    using Nil.prems(5,6) by (auto simp: segment_gap_def)
  with Nil.prems(3) v have "w' = w1" "r = (case r1 of Inl e \<Rightarrow> Inl e | Inr (n, s) \<Rightarrow> Inr ([s], n))"
    by (auto split: sum.splits)
  with v show ?case
    by (intro Nil.prems(1) [of w r1]) (auto split: sum.splits)
next
  case (Cons cs ys)
  let ?i = "next_index b xs" and ?tl = "map bare (map seg_first (layout (next_index b (xs @ [cs])) ys)) @ [bare (next_index b css)]"
  let ?seg = "\<lparr>seg_first = ?i, seg_last = ?i + word_of_nat (length cs) - 1, seg_path = segmentName ?i\<rparr>"
  obtain r0 w0 where v: "verifySegment (bare ?i) False w = (r0, w0)"
    by fastforce
  have gap: "segment_gap prev (bare ?i) = None"
    using Cons.prems(6) by (auto simp: segment_gap_def)
  have run: "(r, w') = (case (r0, w0) of (Inl err, w) \<Rightarrow> (Inl err, w)
      | (Inr (sz, seg'), w) \<Rightarrow> (case verify_segments (Some (seg_last seg')) ?tl w of
          (Inl err, w) \<Rightarrow> (Inl err, w) | (Inr (segs', n), w) \<Rightarrow> (Inr (seg' # segs', n), w)))"
    using Cons.prems(3) v gap by (cases r0) (auto simp: next_index_snoc)
  have get: "get_file w (segmentName ?i) = Some (sealed ?i cs)"
    using stored_seg [OF Cons.prems(4,5)] .
  have ft: "fits cs"
    using Cons.prems(4,5) by (simp add: stored_def wf_closed_def)
  have "content (sealed ?i cs) = image ?i cs"
    by (simp add: sealed_def)
  from v get this ft show ?case
  proof (cases rule: verifySegment_sealed)
    case ok
    obtain r1 w1 where rest: "verify_segments (Some (next_index b (xs @ [cs]) - 1)) ?tl w0 = (r1, w1)"
      by fastforce
    have eq: "w' = w1" "r = (case r1 of Inl e \<Rightarrow> Inl e | Inr (segs, n) \<Rightarrow> Inr (?seg # segs, n))"
      using run ok(1) rest by (auto simp: next_index_snoc split: sum.splits)
    show ?thesis
    proof (rule Cons.IH [OF _ _ rest])
      show "stored b css f w0"
        using Cons.prems(4) ok(2) by (rule stored_same)
      show "css = (xs @ [cs]) @ ys"
        using Cons.prems(5) by simp
    next
      fix r2 w2
      assume "same_disk w0 w2" "faults w0 = [] \<Longrightarrow> faults w2 = []"
        "verifySegment (bare (next_index b css)) True w2 = (r2, w1)"
        "r1 = (case r2 of Inl e \<Rightarrow> Inl e | Inr (n, s) \<Rightarrow> Inr (layout (next_index b (xs @ [cs])) ys @ [s], n))"
      then show ?thesis
        using ok eq by (intro Cons.prems(1) [of w2 r2])
          (auto simp: sound_def next_index_snoc split: sum.splits intro: same_disk_trans)
    next
      fix e
      assume "r1 = Inl e" "same_disk w0 w1" "faults w0 \<noteq> []"
      then show ?thesis
        using ok eq by (intro Cons.prems(2) [of e]) (auto simp: sound_def intro: same_disk_trans)
    qed simp
  next
    case (fault e)
    then show ?thesis
      using run by (intro Cons.prems(2) [of e]) auto
  qed
qed

subsection \<open>The verdict on the active segment\<close>

definition calm :: "dfile \<Rightarrow> bool" where
  "calm f \<longleftrightarrow> regular f \<and> entry_durable f \<and> \<not> pending f \<and> durable f = content f"

abbreviation cut :: "nat \<Rightarrow> dfile \<Rightarrow> dfile" where
  "cut n f \<equiv> f\<lparr>content := take n (content f), durable := take n (durable f), pending := True\<rparr>"

abbreviation tail_warning :: "string \<Rightarrow> nat \<Rightarrow> error \<Rightarrow> string \<times> string \<times> (string \<times> string) list" where
  "tail_warning path offset damage \<equiv>
     (''WARN'', ''command log tail was damaged, probably by a crash during a write; truncated it'',
      [(''segment'', path), (''offset'', show_nat offset), (''damage'', error_text damage)])"

text \<open>Flushing and closing the active segment, as the truncation and nothing else does it.\<close>

lemma sync_close_spec:
  assumes "file_Sync h w = (r1, w1)" and "file_Close h w1 = (r2, h2, w2)" and st: "stored b css f w"
    and h: "h_open h" "h_name h = segmentName (next_index b css)"
  shows "stored b css (if r1 = None then flushed f else f) w2" "log_lines w2 = log_lines w"
    "faults w = [] \<Longrightarrow> r1 = None \<and> r2 = None \<and> faults w2 = []"
proof -
  have get: "get_file w (h_name h) = Some f"
    using st by (simp add: h(2))
  note s = file_Sync_spec [OF assms(1) h(1) get] and c = file_Close_spec [OF assms(2)]
  have "tidy w1"
    using s(2) st by (simp add: stored_def)
  then have "stored b css (if r1 = None then flushed f else f) w1"
    using s(1) st h(2) by (auto simp: stored_def)
  then show "stored b css (if r1 = None then flushed f else f) w2"
    using c by (blast intro: stored_same)
  show "log_lines w2 = log_lines w" "faults w = [] \<Longrightarrow> r1 = None \<and> r2 = None \<and> faults w2 = []"
    using s(3,4) c h(1) by (auto simp: same_disk_def sound_def)
qed

lemma truncateTail_spec:
  assumes "truncateTail (segmentName (next_index b css)) n d w = (r, w')" and st: "stored b css f w"
    and n: "n \<le> length (content f)"
  obtains (ok) "r = None" "stored b css (flushed (cut n f)) w'"
      "log_lines w' = log_lines w @ [tail_warning (segmentName (next_index b css)) n d]" "sound w True w'"
  | (fault) e g where "r = Some e" "stored b css g w'" "g = f \<or> g = cut n f \<or> g = flushed (cut n f)" "faults w \<noteq> []"
proof -
  let ?n = "segmentName (next_index b css)"
  obtain r1 w1 where tr: "os_Truncate ?n n w = (r1, w1)"
    by fastforce
  note t = os_Truncate_spec [OF tr stored_get [OF st] n]
  have t1: "tidy w1" using t(2) st by (simp add: stored_def)
  show thesis
  proof (cases r1)
    case (Some e)
    then show thesis
      using assms(1) tr t st t1 by (intro fault [of _ f]) (auto simp: truncateTail_def stored_def sound_def)
  next
    case None
    then have st1: "stored b css (cut n f) w1"
      using t(1) st t1 by (auto simp: stored_def)
    obtain r2 w2 where op: "os_OpenWrite ?n w1 = (r2, w2)"
      by fastforce
    note o = os_OpenWrite_spec [OF op stored_get [OF st1]]
    have st2: "stored b css (cut n f) w2"
      using st1 o stored_same by blast
    show thesis
    proof (cases r2)
      case (Inl e)
      then show thesis
        using assms(1) tr None op o st2 t(4)
        by (intro fault [of _ "cut n f"]) (auto simp: truncateTail_def sound_def)
    next
      case (Inr h)
      obtain r3 w3 where sy: "file_Sync h w2 = (r3, w3)"
        by fastforce
      obtain r4 h4 w4 where cl: "file_Close h w3 = (r4, h4, w4)"
        by (metis prod_cases3)
      have h: "h_open h" "h_name h = ?n"
        using o Inr by auto
      define g where "g = (if r3 = None then flushed (cut n f) else cut n f)"
      note sc = sync_close_spec [OF sy cl st2 h, folded g_def]
      have lines: "log_lines w4 = log_lines w" and snd: "faults w = [] \<Longrightarrow> r3 = None \<and> r4 = None \<and> faults w4 = []"
        using t(3,4) None o sc(2,3) by (auto simp: same_disk_def sound_def)
      have st5: "stored b css g (slog_line lv m as w4)" for lv m as
        using sc(1) by (simp add: stored_def)
      show thesis
      proof (cases "r3 = None \<and> r4 = None")
        case True
        then show thesis
          using assms(1) tr None op Inr sy cl lines snd st5
          by (intro ok) (auto simp: truncateTail_def errors_Join_def g_def sound_def map_filter_def)
      next
        case False
        then obtain err where j: "errors_Join [r3, r4] = Some err"
          by (cases r3; cases r4) (auto simp: errors_Join_def map_filter_def)
        show thesis
          using assms(1) tr None op Inr sy cl snd False sc(1)
          by (intro fault [of _ g]) (auto simp: truncateTail_def g_def j)
      qed
    qed
  qed
qed

text \<open>How the content of the active segment splits: its longest run of records, and what stops the scan.\<close>

definition splits :: "u64 \<Rightarrow> bytes \<Rightarrow> bytes list \<Rightarrow> error option \<Rightarrow> bool" where
  "splits i data cs dmg \<longleftrightarrow>
     scan_records data 0 i = (length (image i cs), i + word_of_nat (length cs), dmg) \<and>
     fits cs \<and> prefix (image i cs) data \<and> (dmg = None \<longrightarrow> data = image i cs)"

definition refuses :: "u64 \<Rightarrow> bytes \<Rightarrow> bytes list \<Rightarrow> error \<Rightarrow> bool" where
  "refuses i data cs d \<longleftrightarrow>
     errors_Is d errOutOfSequence \<or>
     hasLaterRecord (drop (length (image i cs)) data) (i + word_of_nat (length cs))"

lemma splits_exists:
  assumes "prefix (image i ds) data" and "fits ds"
  obtains cs dmg where "splits i data (ds @ cs) dmg"
proof -
  obtain o' n' dmg where sc: "scan_records data 0 i = (o', n', dmg)"
    by (metis prod_cases3)
  from assms(1) obtain t where t: "data = image i ds @ t"
    by (auto simp: prefix_def)
  have "list_all (\<lambda>c. length c \<le> maxCommandSize) ds"
    using assms(2) by (simp add: fits_def)
  from sc.scan_keeps [OF sc t this] obtain cs where
    cs: "list_all (\<lambda>c. length c \<le> maxCommandSize) (ds @ cs)"
    "data = image i (ds @ cs) @ drop o' data" "o' = length (image i (ds @ cs))"
    "n' = i + word_of_nat (length (ds @ cs))" "dmg = None \<longleftrightarrow> o' = length data"
    by metis
  have pre: "prefix (image i (ds @ cs)) data"
    using cs(2) by (metis prefixI)
  moreover have "data = image i (ds @ cs)" if "dmg = None"
    using cs(2,5) that by simp
  ultimately have "splits i data (ds @ cs) dmg"
    using sc cs(1,3,4) unfolding splits_def fits_def by simp
  then show thesis by (rule that)
qed

lemma verifySegment_active:
  assumes v: "verifySegment (bare i) True w = (r, w')" and st: "stored b css f w" and i: "i = next_index b css"
    and sp: "splits i (content f) cs dmg"
  obtains (clean) "dmg = None" "r = Inr (length (image i cs),
      \<lparr>seg_first = i, seg_last = i + word_of_nat (length cs) - 1, seg_path = segmentName i\<rparr>)"
      "same_disk w w'" "sound w True w'"
  | (torn) d where "dmg = Some d" "\<not> refuses i (content f) cs d" "r = Inr (length (image i cs),
      \<lparr>seg_first = i, seg_last = i + word_of_nat (length cs) - 1, seg_path = segmentName i\<rparr>)"
      "stored b css (flushed (cut (length (image i cs)) f)) w'"
      "log_lines w' = log_lines w @ [tail_warning (segmentName i) (length (image i cs)) d]" "sound w True w'"
  | (corrupt) d where "dmg = Some d" "refuses i (content f) cs d"
      "r = Inl (corruption (segmentName i) (length (image i cs)) d)" "same_disk w w'"
  | (fault) e g where "r = Inl e" "stored b css g w'" "faults w \<noteq> []"
      "g = f \<or> g = cut (length (image i cs)) f \<or> g = flushed (cut (length (image i cs)) f)"
proof -
  let ?n = "length (image i cs)"
  obtain x w1 where rd: "os_ReadFile (segmentName i) w = (x, w1)"
    by fastforce
  have "get_file w (segmentName i) = Some f"
    using st by (simp add: i)
  note s = os_ReadFile_spec [OF rd this]
  have st1: "stored b css f w1"
    using st s by (blast intro: stored_same)
  have scan: "scan_records (content f) 0 i = (?n, i + word_of_nat (length cs), dmg)"
    and n: "?n \<le> length (content f)"
    using sp prefix_length_le by (auto simp: splits_def)
  show thesis
  proof (cases x)
    case (Inl e)
    then show thesis
      using v rd s st1 by (intro fault [of _ f]) (auto simp: verifySegment_def sound_def)
  next
    case (Inr data)
    then have data: "data = content f"
      using s by simp
    have s': "same_disk w w1" "sound w True w1"
      using s Inr by simp_all
    let ?seg = "\<lparr>seg_first = i, seg_last = i + word_of_nat (length cs) - 1, seg_path = segmentName i\<rparr>"
    have run: "(r, w') = (case dmg of None \<Rightarrow> (Inr (?n, ?seg), w1)
        | Some d \<Rightarrow> if refuses i (content f) cs d then (Inl (corruption (segmentName i) ?n d), w1)
            else (case truncateTail (segmentName i) ?n d w1 of
                (Some e, w) \<Rightarrow> (Inl e, w) | (None, w) \<Rightarrow> (Inr (?n, ?seg), w)))"
      unfolding v [symmetric] verifySegment_def refuses_def by (cases dmg) (simp_all add: rd Inr data scan)
    show thesis
    proof (cases dmg)
      case None
      then show thesis
        using run s' by (intro clean) simp_all
    next
      case (Some d)
      show thesis
      proof (cases "refuses i (content f) cs d")
        case True
        then show thesis
          using run s' Some by (intro corrupt) simp_all
      next
        case False
        obtain r2 w2 where tr: "truncateTail (segmentName i) ?n d w1 = (r2, w2)"
          by fastforce
        from tr [unfolded i] st1 n [unfolded i] show thesis
        proof (cases rule: truncateTail_spec)
          case ok
          then show thesis
            using run False Some s' tr by (intro torn [of d]) (simp_all add: i sound_def same_disk_def)
        next
          case (fault e g)
          then show thesis
            using run False Some s' tr by (intro that(4) [of e g]) (auto simp: i sound_def)
        qed
      qed
    qed
  qed
qed

subsection \<open>Opening\<close>

definition opened_log :: "u64 \<Rightarrow> bytes list list \<Rightarrow> bytes list \<Rightarrow> Log \<Rightarrow> Log" where
  "opened_log b css cs l =
     l\<lparr>l_activeSize := int (length (image (next_index b css) cs)), l_segments := layout b (css @ [cs]),
       l_active := \<lparr>h_name = segmentName (next_index b css), h_open = True\<rparr>,
       l_lastIndex := next_index b (css @ [cs]) - 1\<rparr>"

lemma live_opened:
  assumes "stored b css g w" and "fits cs" and "calm g" and "content g = image (next_index b css) cs"
    and "unat b + length (concat css) + length cs \<le> 2 ^ 63" and "l_failed l = None" and "\<not> l_closed l"
  shows "live b css cs g (opened_log b css cs l) w"
  using assms by (simp add: live_def calm_def opened_log_def)

text \<open>The last step of \<^verbatim>\<open>recover\<close>: opening the active segment for appending.\<close>

lemma reopen_active:
  assumes "(r, w') = (case os_OpenWrite (segmentName (next_index b css)) w of
      (Inl err, w) \<Rightarrow> (Inl (internal err ''command log segment could not be opened''), w)
    | (Inr h, w) \<Rightarrow> (Inr (l\<lparr>l_activeSize := int (length (image (next_index b css) cs)),
        l_segments := layout b (css @ [cs]), l_active := h, l_lastIndex := next_index b (css @ [cs]) - 1\<rparr>), w))"
    and st: "stored b css g w"
  obtains (ok) "r = Inr (opened_log b css cs l)" "same_disk w w'" "sound w True w'"
  | (fault) e where "r = Inl e" "stored b css g w'" "faults w \<noteq> []"
proof -
  obtain x w1 where op: "os_OpenWrite (segmentName (next_index b css)) w = (x, w1)"
    by fastforce
  note o = os_OpenWrite_spec [OF op stored_get [OF st]]
  have "stored b css g w1"
    using st o by (blast intro: stored_same)
  then show thesis
    using assms(1) op o that by (cases x) (auto simp: opened_log_def sound_def)
qed

lemma recover_stored:
  assumes rec: "recover quote l w = (r, w')" and st: "stored b css f w" and "regular f"
    and sp: "splits (next_index b css) (content f) cs dmg"
  obtains (clean) "dmg = None" "r = Inr (opened_log b css cs l)" "same_disk w w'" "sound w True w'"
  | (torn) d where "dmg = Some d" "\<not> refuses (next_index b css) (content f) cs d"
      "r = Inr (opened_log b css cs l)"
      "stored b css (flushed (cut (length (image (next_index b css) cs)) f)) w'"
      "log_lines w' = log_lines w @ [tail_warning (segmentName (next_index b css))
         (length (image (next_index b css) cs)) d]" "sound w True w'"
  | (corrupt) d where "dmg = Some d" "refuses (next_index b css) (content f) cs d" "same_disk w w'"
      "r = Inl (corruption (segmentName (next_index b css)) (length (image (next_index b css) cs)) d)"
  | (fault) e g where "r = Inl e" "stored b css g w'" "faults w \<noteq> []"
      "g = f \<or> g = cut (length (image (next_index b css) cs)) f
        \<or> g = flushed (cut (length (image (next_index b css) cs)) f)"
proof -
  note recover_fault = that(4)
  let ?i = "next_index b css" and ?n = "length (image (next_index b css) cs)"
  let ?segs = "map bare (map seg_first (layout b css)) @ [bare ?i]"
  obtain rd w1 where rdir: "os_ReadDir w = (rd, w1)"
    by fastforce
  note s1 = os_ReadDir_spec(1,2) [OF rdir]
  have st1: "stored b css f w1"
    using st s1(1) by (rule stored_same)
  show thesis
  proof (cases rd)
    case (Inl e)
    then show thesis
      using rec rdir s1 st1 by (intro fault [of _ f]) (auto simp: recover_def listSegments_def sound_def)
  next
    case (Inr entries)
    note ls = stored_listing [OF st assms(3) rdir Inr]
    obtain r2 w2 where vs: "verify_segments None ?segs w1 = (r2, w2)"
      by fastforce
    have run: "(r, w') = (case r2 of Inl err \<Rightarrow> (Inl err, w2)
        | Inr (segs, sz) \<Rightarrow> (case os_OpenWrite (seg_path (last segs)) w2 of
            (Inl err, w) \<Rightarrow> (Inl (internal err ''command log segment could not be opened''), w)
          | (Inr h, w) \<Rightarrow> (Inr (l\<lparr>l_activeSize := int sz, l_segments := segs, l_active := h,
              l_lastIndex := seg_last (last segs)\<rparr>), w)))"
      unfolding rec [symmetric] recover_def using vs by (cases r2) (auto simp: rdir ls Let_def)
    have opens: thesis
      if r2: "r2 = Inr (layout b css @ [\<lparr>seg_first = ?i, seg_last = ?i + word_of_nat (length cs) - 1,
          seg_path = segmentName ?i\<rparr>], ?n)" and stg: "stored b css g w2"
        and snd: "faults w = [] \<Longrightarrow> faults w2 = []"
        and g: "g = f \<or> g = cut ?n f \<or> g = flushed (cut ?n f)"
        and fin: "r = Inr (opened_log b css cs l) \<Longrightarrow> same_disk w2 w' \<Longrightarrow> sound w True w' \<Longrightarrow> thesis" for g
    proof -
      from run r2 have "(r, w') = (case os_OpenWrite (segmentName ?i) w2 of
            (Inl err, w) \<Rightarrow> (Inl (internal err ''command log segment could not be opened''), w)
          | (Inr h, w) \<Rightarrow> (Inr (l\<lparr>l_activeSize := int ?n, l_segments := layout b (css @ [cs]), l_active := h,
              l_lastIndex := next_index b (css @ [cs]) - 1\<rparr>), w))"
        by (simp add: layout_append next_index_snoc split: sum.splits prod.splits)
      from this stg show thesis
      proof (cases rule: reopen_active)
        case ok
        then show thesis
          using snd by (intro fin) (auto simp: sound_def)
      next
        case (fault e)
        then show thesis
          using snd g by (intro recover_fault [of e g]) auto
      qed
    qed
    have vs': "verify_segments None (map bare (map seg_first (layout (next_index b []) css)) @ [bare ?i]) w1 = (r2, w2)"
      and css: "css = [] @ css" and prev: "None = None \<or> None = Some (next_index b [] - 1)"
      using vs by simp_all
    from vs' st1 css prev show thesis
    proof (cases rule: verify_segments_closed)
      case (last r3 w3)
      have st3: "stored b css f w3"
        using st1 last(1) by (rule stored_same)
      have snd: "faults w = [] \<Longrightarrow> faults w3 = []"
        using s1(2) last(2) by (simp add: sound_def)
      from last(3) st3 refl sp show thesis
      proof (cases rule: verifySegment_active)
        case clean2: clean
        have dk: "same_disk w w2"
          using s1(1) last(1) clean2(3) by (blast intro: same_disk_trans)
        show thesis
        proof (rule opens [of f])
          show "stored b css f w2"
            using st dk by (rule stored_same)
        qed (use clean2 last(4) snd dk clean in \<open>auto simp: sound_def intro: same_disk_trans\<close>)
      next
        case torn2: (torn d)
        have lines: "log_lines w3 = log_lines w"
          using s1(1) last(1) by (simp add: same_disk_def)
        show thesis
        proof (rule opens [OF _ torn2(4)])
          assume "r = Inr (opened_log b css cs l)" "same_disk w2 w'" "sound w True w'"
          then show thesis
            using torn2 lines by (intro torn [of d]) (auto simp: same_disk_def stored_def)
        qed (use torn2 last(4) snd in \<open>auto simp: sound_def\<close>)
      next
        case corrupt2: (corrupt d)
        then have "same_disk w w2"
          using s1(1) last(1) by (blast intro: same_disk_trans)
        then show thesis
          using corrupt2 last(4) run by (intro corrupt [of d]) auto
      next
        case (fault e g)
        then show thesis
          using last(4) run snd by (intro that(4) [of e g]) auto
      qed
    next
      case f2: (fault e)
      then have "stored b css f w2"
        using st1 by (blast intro: stored_same)
      then show thesis
        using f2 run s1(2) by (intro fault [of e f]) (auto simp: sound_def)
    qed
  qed
qed

definition opened :: "LogConfig \<Rightarrow> Log \<Rightarrow> bool" where
  "opened cfg l \<longleftrightarrow> l_cfg l = cfg \<and> \<not> l_dirty l \<and> (l_syncer l \<longleftrightarrow> lc_Fsync cfg = FsyncInterval)"

lemma live_syncer [simp]: "live b css cs f (l\<lparr>l_syncer := sy\<rparr>) w = live b css cs f l w"
  by (simp add: live_def)

definition with_syncer :: "LogConfig \<Rightarrow> Log \<Rightarrow> Log" where
  "with_syncer cfg l = (if lc_Fsync cfg = FsyncInterval then l\<lparr>l_syncer := True\<rparr> else l)"

lemma live_with_syncer [simp]: "live b css cs f (with_syncer cfg l) w = live b css cs f l w"
  by (simp add: with_syncer_def)

lemma opened_zero: "opened cfg (with_syncer cfg (opened_log b css cs (zero_log cfg)))"
  by (simp add: opened_def opened_log_def zero_log_def with_syncer_def)

lemma OpenLog_cases:
  assumes "OpenLog quote ctx cfg w = (r, w')"
  obtains (refused) e where "r = Inl e" "w' = w" "ctx \<noteq> None \<or> LogConfig_Validate cfg \<noteq> None"
  | (mkdir) e where "r = Inl e" "same_disk w w'" "faults w \<noteq> []"
  | (recovers) r0 w1 where "same_disk w w1" "sound w True w1" "recover quote (zero_log cfg) w1 = (r0, w')"
      "r = (case r0 of Inl e \<Rightarrow> Inl e | Inr l \<Rightarrow> Inr (with_syncer cfg l))"
      "ctx = None" "LogConfig_Validate cfg = None"
proof (cases "ctx \<noteq> None \<or> LogConfig_Validate cfg \<noteq> None")
  case True
  then show thesis
    using assms refused by (auto simp: OpenLog_def split: option.splits)
next
  case False
  obtain x w1 where mk: "os_MkdirAll w = (x, w1)"
    by fastforce
  note m = os_MkdirAll_spec [OF mk]
  show thesis
  proof (cases x)
    case (Some e)
    then show thesis
      using assms False mk m by (intro mkdir) (auto simp: OpenLog_def sound_def)
  next
    case None
    obtain r0 w2 where rc: "recover quote (zero_log cfg) w1 = (r0, w2)"
      by fastforce
    show thesis
      using assms False mk m None rc
      by (intro recovers [of w1 r0]) (auto simp: OpenLog_def sound_def with_syncer_def split: sum.splits)
  qed
qed

lemma OpenLog_stored:
  assumes op: "OpenLog quote ctx cfg w = (r, w')" and st: "stored b css f w" and calm: "calm f"
    and sp: "splits (next_index b css) (content f) cs dmg"
    and bound: "unat b + length (concat css) + length cs \<le> 2 ^ 63"
  obtains (clean) l where "dmg = None" "r = Inr l" "opened cfg l" "live b css cs f l w'"
      "log_lines w' = log_lines w" "sound w True w'"
  | (torn) d l where "dmg = Some d" "\<not> refuses (next_index b css) (content f) cs d" "r = Inr l" "opened cfg l"
      "live b css cs (flushed (cut (length (image (next_index b css) cs)) f)) l w'"
      "log_lines w' = log_lines w @ [tail_warning (segmentName (next_index b css))
         (length (image (next_index b css) cs)) d]" "sound w True w'"
  | (corrupt) d where "dmg = Some d" "refuses (next_index b css) (content f) cs d" "same_disk w w'"
      "r = Inl (corruption (segmentName (next_index b css)) (length (image (next_index b css) cs)) d)"
  | (refused) e where "r = Inl e" "w' = w" "ctx \<noteq> None \<or> LogConfig_Validate cfg \<noteq> None"
  | (fault) e g where "r = Inl e" "stored b css g w'" "faults w \<noteq> []" "regular g" "entry_durable g"
      "durable g = content g" "prefix (image (next_index b css) cs) (content g)"
  using op
proof (cases rule: OpenLog_cases)
  case (refused e)
  then show thesis by (rule that(4))
next
  case (mkdir e)
  then have "stored b css f w'"
    using st by (blast intro: stored_same)
  then show thesis
    using mkdir calm sp by (intro that(5) [of e f]) (auto simp: calm_def splits_def)
next
  case (recovers r0 w1)
  let ?i = "next_index b css" and ?n = "length (image (next_index b css) cs)"
  have st1: "stored b css f w1"
    using st recovers(1) by (rule stored_same)
  have reg: "regular f" and fits: "fits cs" and pre: "prefix (image ?i cs) (content f)"
    using calm sp by (auto simp: calm_def splits_def)
  have tk: "take ?n (content f) = image ?i cs"
    using pre by (auto simp: prefix_def)
  have lines: "log_lines w1 = log_lines w" and snd: "faults w = [] \<Longrightarrow> faults w1 = []"
    using recovers(1,2) by (auto simp: same_disk_def sound_def)
  have zero: "l_failed (zero_log cfg) = None" "\<not> l_closed (zero_log cfg)"
    by (simp_all add: zero_log_def)
  from recovers(3) st1 reg sp show thesis
  proof (cases rule: recover_stored)
    case clean2: clean
    have "stored b css f w'"
      using st1 clean2(3) by (rule stored_same)
    then have "live b css cs f (opened_log b css cs (zero_log cfg)) w'"
      using calm fits sp bound zero clean2(1) by (intro live_opened) (simp_all add: splits_def)
    then show thesis
      using clean2 recovers(4) lines snd opened_zero [of cfg b css cs]
      by (intro clean [of "with_syncer cfg (opened_log b css cs (zero_log cfg))"])
        (auto simp: same_disk_def sound_def)
  next
    case torn2: (torn d)
    have "live b css cs (flushed (cut ?n f)) (opened_log b css cs (zero_log cfg)) w'"
      using torn2(4) calm fits bound zero tk by (intro live_opened) (simp_all add: calm_def)
    then show thesis
      using torn2 recovers(4) lines snd opened_zero [of cfg b css cs]
      by (intro torn [of d "with_syncer cfg (opened_log b css cs (zero_log cfg))"]) (auto simp: sound_def)
  next
    case corrupt2: (corrupt d)
    then show thesis
      using recovers(1,4) by (intro corrupt [of d]) (auto intro: same_disk_trans)
  next
    case (fault e g)
    then show thesis
      using recovers(4) snd calm tk pre by (intro that(5) [of e g]) (auto simp: calm_def)
  qed
qed

text \<open>An empty directory gets its first segment.\<close>

lemma startFirstSegment_empty:
  assumes start: "startFirstSegment (zero_log cfg) w = (r, w')" and e: "get_file w = Map.empty" and t: "tidy w"
  obtains (fresh) l where "r = Inr l" "opened cfg (with_syncer cfg l)" "sound w True w'"
      "live 1 [] [] (new_file\<lparr>entry_durable := True\<rparr>) l w'"
  | (fault) e where "r = Inl e" "at_rest {} w'" "faults w \<noteq> []"
proof -
  obtain r1 w1 where cr: "createSegment (segmentName 1) w = (r1, w1)"
    by fastforce
  have run: "w' = w1" "r = (case r1 of Inl err \<Rightarrow> Inl err | Inr h \<Rightarrow> Inr ((zero_log cfg)
      \<lparr>l_segments := [\<lparr>seg_first = 1, seg_last = 0, seg_path = segmentName 1\<rparr>], l_active := h\<rparr>))"
    using start cr by (auto simp: startFirstSegment_def zero_log_def split: sum.splits)
  have new: "stored 1 [] g w1" if "get_file w1 = Map.empty(segmentName 1 \<mapsto> g)" "tidy w1" for g
    using that by (simp add: stored_def wf_closed_def)
  have kept: "at_rest {} w1" if "stored 1 [] g w1" "regular g" "durable g = content g" for g
    using that unfolding at_rest_def keeps_def
    by (intro disjI2 exI [of _ 1] exI [of _ "[]"] exI [of _ g] conjI) (auto intro: exI [of _ "[]"])
  have sync_empty: "entries_durable (Map.empty(segmentName 1 \<mapsto> new_file))
      = Map.empty(segmentName 1 \<mapsto> new_file\<lparr>entry_durable := True\<rparr>)"
    using entries_durable_shelf [of 1 "[]"] by simp
  have none: "get_file w (segmentName 1) = None"
    by (simp add: e)
  from cr none show thesis
  proof (cases rule: createSegment_spec)
    case (ok h)
    have "stored 1 [] (new_file\<lparr>entry_durable := True\<rparr>) w'"
      unfolding run(1) using ok(3,4) t by (intro new) (simp_all add: e sync_empty)
    then have "live 1 [] [] (new_file\<lparr>entry_durable := True\<rparr>) ((zero_log cfg)
        \<lparr>l_segments := [\<lparr>seg_first = 1, seg_last = 0, seg_path = segmentName 1\<rparr>], l_active := h\<rparr>) w'"
      using ok(2) by (simp add: live_def zero_log_def next_index_def)
    then show thesis
      using run ok(1,5) by (intro fresh) (auto simp: opened_def zero_log_def sound_def with_syncer_def)
  next
    case (untouched err)
    have "at_rest {} w"
      using e t by (simp add: at_rest_def)
    with untouched show thesis
      using run by (intro fault) (auto intro: at_rest_same)
  next
    case (created err)
    then have "at_rest {} w1"
      using new [of new_file] new [of "new_file\<lparr>entry_durable := True\<rparr>"] kept t by (auto simp: e sync_empty)
    then show thesis
      using created run by (intro fault) auto
  qed
qed

lemma OpenLog_empty:
  assumes op: "OpenLog quote ctx cfg w = (r, w')" and e: "get_file w = Map.empty" and t: "tidy w"
  obtains (fresh) l where "r = Inr l" "opened cfg l" "sound w True w'"
      "live 1 [] [] (new_file\<lparr>entry_durable := True\<rparr>) l w'"
  | (refused) e where "r = Inl e" "w' = w" "ctx \<noteq> None \<or> LogConfig_Validate cfg \<noteq> None"
  | (fault) e where "r = Inl e" "at_rest {} w'" "faults w \<noteq> []"
  using op
proof (cases rule: OpenLog_cases)
  case (refused e)
  then show thesis by (rule that(2))
next
  case (mkdir e)
  have "at_rest {} w"
    using assms(2) t by (simp add: at_rest_def)
  then show thesis
    using mkdir by (intro fault) (auto intro: at_rest_same)
next
  case (recovers r0 w1)
  have e1: "get_file w1 = Map.empty" and t1: "tidy w1" and snd: "faults w = [] \<Longrightarrow> faults w1 = []"
    using recovers(1,2) assms(2) t by (auto simp: same_disk_def sound_def)
  obtain rd w2 where rdir: "os_ReadDir w1 = (rd, w2)"
    by fastforce
  note s1 = os_ReadDir_spec [OF rdir]
  have e2: "get_file w2 = Map.empty" and t2: "tidy w2"
    using s1(1) e1 t1 by (auto simp: same_disk_def)
  have rest: "at_rest {} w2"
    using e2 t2 by (simp add: at_rest_def)
  show thesis
  proof (cases rd)
    case (Inl err)
    then show thesis
      using recovers(3,4) rdir s1(2) snd rest
      by (intro fault) (auto simp: recover_def listSegments_def sound_def)
  next
    case (Inr entries)
    then have "entries = []"
      using s1(3) [of entries] t1 e1 by simp
    then have ls: "listSegments quote (lc_Dir cfg) rd = Inr []"
      by (simp add: Inr listSegments_def)
    have snd2: "faults w = [] \<Longrightarrow> faults w2 = []"
      using snd s1(2) by (simp add: sound_def)
    have "startFirstSegment (zero_log cfg) w2 = (r0, w')"
      using recovers(3) rdir ls by (simp add: recover_def zero_log_def)
    from this e2 t2 show thesis
    proof (cases rule: startFirstSegment_empty)
      case (fresh l)
      then show thesis
        using recovers(4) snd2 by (intro that(1) [of "with_syncer cfg l"]) (auto simp: sound_def)
    next
      case (fault e)
      then show thesis
        using recovers(4) snd2 by (intro that(3)) auto
    qed
  qed
qed

end
