(* ===== verification/LogReplay.thy ===== *)
theory LogReplay
  imports LogOpen
begin

text \<open>
  Replay against its specification: \<open>feed\<close> hands a list of records to the callback until it fails. A
  replay of a healthy log is \<open>feed\<close> on the records from the requested index on, whatever the
  segmentation of the log.
\<close>

fun feed ::
  "(u64 \<Rightarrow> bytes \<Rightarrow> 's \<Rightarrow> error option \<times> 's) \<Rightarrow> (u64 \<times> bytes) list \<Rightarrow> 's \<Rightarrow> error option \<times> 's" where
  "feed fn [] s = (None, s)"
| "feed fn ((i, c) # rs) s =
     (case fn i c s of
        (Some err, s) \<Rightarrow> (Some (Errorf_w ''storage.Log.Replay: '' err ''''), s)
      | (None, s) \<Rightarrow> feed fn rs s)"

abbreviation starting_at :: "u64 \<Rightarrow> (u64 \<times> bytes) list \<Rightarrow> (u64 \<times> bytes) list" where
  "starting_at from rs \<equiv> filter (\<lambda>r. from \<le> fst r) rs"

text \<open>The callback that collects the records it is given.\<close>

definition collect :: "u64 \<Rightarrow> bytes \<Rightarrow> (u64 \<times> bytes) list \<Rightarrow> error option \<times> (u64 \<times> bytes) list" where
  "collect i c acc = (None, acc @ [(i, c)])"

lemma feed_append:
  "feed fn (xs @ ys) s = (case feed fn xs s of (Some e, s) \<Rightarrow> (Some e, s) | (None, s) \<Rightarrow> feed fn ys s)"
  by (induction fn xs s rule: feed.induct) (auto split: prod.splits option.splits)

lemma feed_collect: "feed collect rs acc = (None, acc @ rs)"
  by (induction rs arbitrary: acc) (auto simp: collect_def)

lemma replay_loop_image:
  assumes "drop offset data = image i cs @ t" and "fits cs"
    and "unat stop + 1 = unat i + length cs" and "unat i + length cs < 2 ^ 64"
  shows "replay_loop (\<lambda>_. None) seg data offset i stop from fn s = feed fn (starting_at from (numbered i cs)) s"
  using assms
proof (induction cs arbitrary: offset i s)
  case Nil
  then have "\<not> i \<le> stop"
    by (simp add: word_le_nat_alt)
  then show ?case
    by (simp add: replay_loop.simps)
next
  case (Cons c cs)
  have le: "i \<le> stop"
    using Cons.prems(3) by (simp add: word_le_nat_alt)
  have dec: "decodeRecord (drop offset data) = Inr (i, c, length (encodeRecord i c))"
    using Cons.prems(1,2) rc.dec_enc [of c i] by simp
  have drop: "drop (offset + length (encodeRecord i c)) data = image (i + 1) cs @ t"
    using arg_cong [OF Cons.prems(1), of "drop (length (encodeRecord i c))"] by (simp add: add.commute)
  have i1: "unat (i + 1) = unat i + 1"
    using unat_plus_nat [of i 1] Cons.prems(4) by simp
  have IH: "replay_loop (\<lambda>_. None) seg data (offset + length (encodeRecord i c)) (i + 1) stop from fn s
      = feed fn (starting_at from (numbered (i + 1) cs)) s" for s
    using Cons.prems i1 by (intro Cons.IH [OF drop]) simp_all
  show ?case
    using IH by (subst replay_loop.simps) (simp add: le dec split: prod.splits option.splits)
qed

subsection \<open>Segments\<close>

fun on_files :: "world \<Rightarrow> u64 \<Rightarrow> bytes list list \<Rightarrow> bool" where
  "on_files w i [] \<longleftrightarrow> True"
| "on_files w i (cs # css) \<longleftrightarrow>
     (\<exists>g t. get_file w (segmentName i) = Some g \<and> content g = image i cs @ t) \<and>
     on_files w (i + word_of_nat (length cs)) css"

lemma stored_on_files:
  assumes "stored b css f w" and "prefix (image (next_index b css) cs) (content f)" and "css = xs @ ys"
  shows "on_files w (next_index b xs) (ys @ [cs])"
  using assms(3)
proof (induction ys arbitrary: xs)
  case Nil
  then show ?case
    using assms(1,2) by (auto simp: prefix_def)
next
  case (Cons ds ys)
  have "on_files w (next_index b (xs @ [ds])) (ys @ [cs])"
    using Cons.prems by (intro Cons.IH) simp
  moreover have "content (sealed (next_index b xs) ds) = image (next_index b xs) ds @ []"
    by (simp add: sealed_def)
  ultimately show ?case
    using stored_seg [OF assms(1) Cons.prems] by (auto simp: next_index_snoc)
qed

lemma replaySegment_image:
  assumes "get_file w (segmentName i) = Some g" and "content g = image i cs @ t" and "fits cs"
    and "unat i + length cs < 2 ^ 64" and "1 \<le> unat i" and "faults w = []"
    and "unat last_index + 1 \<ge> unat i + length cs"
  shows "replaySegment (\<lambda>_. None)
      \<lparr>seg_first = i, seg_last = i + word_of_nat (length cs) - 1, seg_path = segmentName i\<rparr> from last_index fn s w
    = (case feed fn (starting_at from (numbered i cs)) s of (e, s) \<Rightarrow> (e, s, w))"
proof -
  let ?last = "i + word_of_nat (length cs) - 1"
  have l: "unat ?last + 1 = unat i + length cs"
    using assms(5,4) by (rule unat_last)
  then have "min ?last last_index = ?last"
    using assms(7) by (simp add: min_def word_le_nat_alt)
  moreover have "replay_loop (\<lambda>_. None) seg (image i cs @ t) 0 i ?last from fn s
      = feed fn (starting_at from (numbered i cs)) s" for seg
    using assms(3,4) l by (intro replay_loop_image) simp_all
  ultimately show ?thesis
    using assms(1,2,6) by (simp add: replaySegment_def os_ReadFile_def next_outcome_def)
qed

lemma skipped_segment:
  assumes "unat i + length cs < 2 ^ 64" and "1 \<le> unat i"
    and "i + word_of_nat (length cs) - 1 < from \<or> last_index < i" and "unat last_index + 1 \<ge> unat i + length cs"
  shows "starting_at from (numbered i cs) = []"
proof (cases cs)
  case (Cons c cs')
  then have "i \<le> last_index"
    using assms(4) by (simp add: word_le_nat_alt)
  then have lt: "i + word_of_nat (length cs) - 1 < from"
    using assms(3) by auto
  have "unat (i + word_of_nat (length cs) - 1) + 1 = unat i + length cs"
    using assms(2,1) by (rule unat_last)
  with lt numbered_index_bounds [OF assms(1)] show ?thesis
    by (fastforce simp: filter_empty_conv word_le_nat_alt word_less_nat_alt)
qed simp

text \<open>
  \<^verbatim>\<open>Replay\<close> copies the segment table and the last index under the lock and reads the segments without it,
  so the directory may change between two reads. In \<open>replay_segments_at\<close> each segment is read from the
  directory \<open>seen\<close> shows at that moment; \<open>replay_segments\<close> is the case in which nothing changes.
\<close>

fun replay_segments_at ::
  "(u64 \<Rightarrow> error option) \<Rightarrow> segment list \<Rightarrow> u64 \<Rightarrow> u64 \<Rightarrow>
    (u64 \<Rightarrow> bytes \<Rightarrow> 's \<Rightarrow> error option \<times> 's) \<Rightarrow> 's \<Rightarrow> (segment \<Rightarrow> world) \<Rightarrow> error option \<times> 's" where
  "replay_segments_at ctx [] from last_index fn s seen = (None, s)"
| "replay_segments_at ctx (seg # segs) from last_index fn s seen =
     (if seg_last seg < from \<or> last_index < seg_first seg
      then replay_segments_at ctx segs from last_index fn s seen
      else
        (case replaySegment ctx seg from last_index fn s (seen seg) of
           (Some err, s, _) \<Rightarrow> (Some err, s)
         | (None, s, _) \<Rightarrow> replay_segments_at ctx segs from last_index fn s seen))"

lemma replaySegment_world:
  "faults w = [] \<Longrightarrow> replaySegment ctx seg from last_index fn s w = (e, s', w') \<Longrightarrow> w' = w"
  by (auto simp: replaySegment_def os_ReadFile_def next_outcome_def split: option.splits prod.splits)

lemma replay_segments_still:
  assumes "faults w = []"
  shows "replay_segments ctx segs from last_index fn s w
    = (case replay_segments_at ctx segs from last_index fn s (\<lambda>_. w) of (e, s) \<Rightarrow> (e, s, w))"
  by (induction segs arbitrary: s) (auto dest: replaySegment_world [OF assms] split: prod.splits option.splits)

text \<open>Files only grow: what was in the directory stays, with more bytes behind it.\<close>

definition grows :: "world \<Rightarrow> world \<Rightarrow> bool" where
  "grows w w' \<longleftrightarrow>
     (\<forall>n f. get_file w n = Some f \<longrightarrow> (\<exists>f'. get_file w' n = Some f' \<and> prefix (content f) (content f')))"

lemma grows_refl [simp]: "grows w w"
  by (simp add: grows_def)

lemma grows_trans [trans]: "grows w w' \<Longrightarrow> grows w' w'' \<Longrightarrow> grows w w''"
  unfolding grows_def by (meson prefix_order.trans)

lemma replay_segments_at_layout:
  assumes "on_files w i css" and "list_all fits css" and "1 \<le> unat i"
    and "unat i + length (concat css) \<le> unat last_index + 1" and "unat i + length (concat css) < 2 ^ 64"
    and seen: "\<And>seg. grows w (seen seg)" "\<And>seg. faults (seen seg) = []"
  shows "replay_segments_at (\<lambda>_. None) (layout i css) from last_index fn s seen
    = feed fn (starting_at from (numbered i (concat css))) s"
  using assms(1-5)
proof (induction css arbitrary: i s)
  case (Cons cs css)
  let ?j = "i + word_of_nat (length cs)"
  let ?seg = "\<lparr>seg_first = i, seg_last = ?j - 1, seg_path = segmentName i\<rparr>"
  have small: "unat i + length cs < 2 ^ 64" "unat last_index + 1 \<ge> unat i + length cs"
    using Cons.prems(4,5) by simp_all
  have j: "unat ?j = unat i + length cs"
    using unat_plus_nat [OF small(1)] .
  have IH: "replay_segments_at (\<lambda>_. None) (layout ?j css) from last_index fn s seen
      = feed fn (starting_at from (numbered ?j (concat css))) s" for s
    using Cons.prems j by (intro Cons.IH) simp_all
  show ?case
  proof (cases "?j - 1 < from \<or> last_index < i")
    case True
    then have "starting_at from (numbered i cs) = []"
      using small Cons.prems(3) by (intro skipped_segment) auto
    with True show ?thesis
      by (simp add: IH numbered_append)
  next
    case False
    obtain g t where "get_file w (segmentName i) = Some g" "content g = image i cs @ t"
      using Cons.prems(1) by auto
    then obtain g' t' where g: "get_file (seen ?seg) (segmentName i) = Some g'" "content g' = image i cs @ t'"
      using seen(1) [of ?seg] by (fastforce simp: grows_def prefix_def)
    have "replaySegment (\<lambda>_. None) ?seg from last_index fn s (seen ?seg)
        = (case feed fn (starting_at from (numbered i cs)) s of (e, s) \<Rightarrow> (e, s, seen ?seg))"
      using Cons.prems small seen(2) by (intro replaySegment_image [OF g]) simp_all
    with False show ?thesis
      by (simp add: IH numbered_append feed_append split: prod.splits option.splits)
  qed
qed simp

text \<open>Replay of a healthy log is \<open>feed\<close> on its records.\<close>

lemma Replay_at_live:
  assumes live: "live b css cs f l w" and seen: "\<And>seg. grows w (seen seg)" "\<And>seg. faults (seen seg) = []"
  shows "replay_segments_at (\<lambda>_. None) (l_segments l) from (l_lastIndex l) fn s seen
    = feed fn (starting_at from (numbered b (concat css @ cs))) s"
proof -
  have st: "stored b css f w" and c: "content f = image (next_index b css) cs"
    and segs: "l_segments l = layout b (css @ [cs])" and fc: "fits cs"
    and bound: "unat b + length (concat css) + length cs \<le> 2 ^ 63"
    using live by (auto simp: live_def)
  have "on_files w (next_index b []) (css @ [cs])"
    by (rule stored_on_files [OF st]) (simp_all add: c)
  moreover have "list_all fits (css @ [cs])" "1 \<le> unat b"
    using st fc by (auto simp: stored_def wf_closed_def)
  moreover have "unat b + length (concat (css @ [cs])) \<le> unat (l_lastIndex l) + 1"
    using live_unat(2) [OF live] by simp
  ultimately have "replay_segments_at (\<lambda>_. None) (layout b (css @ [cs])) from (l_lastIndex l) fn s seen
      = feed fn (starting_at from (numbered b (concat (css @ [cs])))) s"
    using bound by (intro replay_segments_at_layout [OF _ _ _ _ _ seen]) simp_all
  then show ?thesis
    by (simp add: segs)
qed

lemma Replay_live:
  assumes "live b css cs f l w" and "faults w = []"
  shows "Replay (\<lambda>_. None) from fn s l w
    = (case feed fn (starting_at from (numbered b (concat css @ cs))) s of (e, s) \<Rightarrow> (e, s, w))"
  using Replay_at_live [OF assms(1), of "\<lambda>_. w" "from" fn s] assms(2)
  by (simp add: Replay_def replay_segments_still)

end
