(* ===== verification/Durability.thy ===== *)
theory Durability
  imports LogReplay
begin

text \<open>
  Durability of the command log over whole histories. \<open>reach\<close> is the transition system of a node's log:
  opening, appending, background flushes, closing, restarts, crashes of the machine, write-back by the
  operating system, with any system call failing at any time. Its two ghost sets record what was
  acknowledged (\<open>A\<close>) and what was promised to be on disk (\<open>F\<close>): everything acknowledged is promised as
  soon as an operation leaves a healthy log with nothing to flush, which under the \<^verbatim>\<open>always\<close> policy is
  after every append.

  A log is only opened on a settled directory: one whose earlier changes have reached the disk, as
  after a crash of the machine or once the operating system has written everything back.
\<close>

subsection \<open>Histories\<close>

definition healthy :: "Log \<Rightarrow> bool" where
  "healthy l \<longleftrightarrow> l_failed l = None \<and> \<not> l_closed l"

definition promised :: "Log \<Rightarrow> (u64 \<times> bytes) set \<Rightarrow> (u64 \<times> bytes) set \<Rightarrow> (u64 \<times> bytes) set" where
  "promised l A F = (if healthy l \<and> \<not> l_dirty l then A else F)"

definition written_back :: "dfile \<Rightarrow> dfile" where
  "written_back f = f\<lparr>durable := content f, pending := False, entry_durable := True\<rparr>"

definition writeback :: "world \<Rightarrow> world \<Rightarrow> bool" where
  "writeback w w' \<longleftrightarrow>
     (tidy w \<longrightarrow> tidy w') \<and> get_file w' = (\<lambda>n. map_option written_back (get_file w n))"

definition small_files :: "world \<Rightarrow> bool" where
  "small_files w \<longleftrightarrow> (\<forall>n f. get_file w n = Some f \<longrightarrow> length (content f) < 2 ^ 62)"

inductive reach ::
  "(string \<Rightarrow> string) \<Rightarrow> LogConfig \<Rightarrow> (u64 \<times> bytes) set \<Rightarrow> (u64 \<times> bytes) set \<Rightarrow> Log option \<Rightarrow> world \<Rightarrow> bool"
  for quote cfg where
  boot: "files w = [] \<Longrightarrow> ghosts w = [] \<Longrightarrow> reach quote cfg {} {} None w"
| open_log: "reach quote cfg A F lo w \<Longrightarrow> settled w \<Longrightarrow> small_files w \<Longrightarrow>
    OpenLog quote ctx cfg w = (r, w') \<Longrightarrow>
    reach quote cfg F F (case r of Inr l \<Rightarrow> Some l | Inl _ \<Rightarrow> None) w'"
| append: "reach quote cfg A F (Some l) w \<Longrightarrow> unat (l_lastIndex l) < 2 ^ 62 \<Longrightarrow>
    Append ctx c l w = (r, l', w') \<Longrightarrow>
    A' = (case r of Inr i \<Rightarrow> insert (i, c) A | Inl _ \<Rightarrow> A) \<Longrightarrow>
    reach quote cfg A' (promised l' A' F) (Some l') w'"
| tick: "reach quote cfg A F (Some l) w \<Longrightarrow> syncIfDirty l w = (l', w') \<Longrightarrow>
    reach quote cfg A (promised l' A F) (Some l') w'"
| close: "reach quote cfg A F (Some l) w \<Longrightarrow> Close l w = (r, l', w') \<Longrightarrow>
    reach quote cfg A (if healthy l \<and> r = None then A else F) (Some l') w'"
| crash: "reach quote cfg A F lo w \<Longrightarrow> crash w w' \<Longrightarrow> reach quote cfg F F None w'"
| writeback: "reach quote cfg A F lo w \<Longrightarrow> writeback w w' \<Longrightarrow> reach quote cfg A F lo w'"
| faults: "reach quote cfg A F lo w \<Longrightarrow> reach quote cfg A F lo (w\<lparr>faults := fs\<rparr>)"

subsection \<open>Invariant\<close>

definition holds :: "(u64 \<times> bytes) set \<Rightarrow> (u64 \<times> bytes) set \<Rightarrow> Log \<Rightarrow> world \<Rightarrow> bool" where
  "holds A F l w \<longleftrightarrow>
     (\<exists>b css cs f. live b css cs f l w \<and> keeps F b css f \<and> A \<subseteq> set (numbered b (concat css @ cs)) \<and>
        (lc_Fsync (l_cfg l) = FsyncAlways \<longrightarrow> \<not> l_dirty l))"

definition inv :: "LogConfig \<Rightarrow> (u64 \<times> bytes) set \<Rightarrow> (u64 \<times> bytes) set \<Rightarrow> Log option \<Rightarrow> world \<Rightarrow> bool" where
  "inv cfg A F lo w \<longleftrightarrow>
     F \<subseteq> A \<and> (lc_Fsync cfg = FsyncAlways \<longrightarrow> F = A) \<and>
     (case lo of
        None \<Rightarrow> at_rest F w
      | Some l \<Rightarrow> l_cfg l = cfg \<and> (if healthy l then holds A F l w else at_rest F w))"

lemma live_healthy: "live b css cs f l w \<Longrightarrow> healthy l"
  by (simp add: live_def healthy_def)

lemma holds_at_rest: "holds A F l w \<Longrightarrow> at_rest F w"
  unfolding holds_def using live_at_rest by blast

lemma inv_at_rest: "inv cfg A F lo w \<Longrightarrow> at_rest F w"
  by (auto simp: inv_def dest: holds_at_rest split: option.splits if_splits)

lemma holds_promised:
  assumes "holds A F l w"
  shows "holds A (promised l A F) l w"
proof -
  from assms obtain b css cs f where h: "live b css cs f l w" "keeps F b css f"
    "A \<subseteq> set (numbered b (concat css @ cs))" "lc_Fsync (l_cfg l) = FsyncAlways \<longrightarrow> \<not> l_dirty l"
    unfolding holds_def by blast
  have "keeps (promised l A F) b css f"
  proof (cases "l_dirty l")
    case True
    with h show ?thesis by (simp add: promised_def)
  next
    case False
    with h live_keeps [OF h(1) False] have "keeps A b css f"
      by (blast intro: keeps_mono)
    with h(2) show ?thesis by (simp add: promised_def)
  qed
  with h show ?thesis
    unfolding holds_def by blast
qed

lemma inv_opened:
  assumes "live b css cs f l w" and "opened cfg l" and "F \<subseteq> set (numbered b (concat css @ cs))"
  shows "inv cfg F F (Some l) w"
proof -
  have "keeps F b css f"
    using live_keeps [OF assms(1)] assms(2,3) by (auto simp: opened_def intro: keeps_mono)
  then have "holds F F l w"
    unfolding holds_def using assms by (auto simp: opened_def)
  then show ?thesis
    using assms(1,2) live_healthy by (auto simp: inv_def opened_def)
qed

lemma inv_None: "at_rest F w \<Longrightarrow> inv cfg F F None w"
  by (simp add: inv_def)

lemma inv_open_stored:
  assumes op: "OpenLog quote ctx cfg w = (r, w')" and st: "stored b css f w" and "regular f"
    and kp: "keeps F b css f" and rest: "at_rest F w" and "settled w" and small: "small_files w"
    and "\<not> pending f \<longrightarrow> durable f = content f"
  shows "inv cfg F F (case r of Inr l \<Rightarrow> Some l | Inl _ \<Rightarrow> None) w'"
proof -
  let ?i = "next_index b css"
  note get = stored_get [OF st]
  have "\<not> pending f \<and> entry_durable f"
    using assms(6) get unfolding settled_def by blast
  then have calm: "calm f"
    using assms by (simp add: calm_def)
  have len: "length (content f) < 2 ^ 62"
    using small get unfolding small_files_def by blast
  from kp obtain ds where ds: "fits ds" "F \<subseteq> set (numbered b (concat css @ ds))" "prefix (image ?i ds) (content f)"
    by (auto simp: keeps_def)
  obtain cs0 dmg where sp: "splits ?i (content f) (ds @ cs0) dmg"
    using splits_exists [OF ds(3,1)] .
  let ?cs = "ds @ cs0"
  have sub: "F \<subseteq> set (numbered b (concat css @ ?cs))"
    using ds(2) by (auto simp: numbered_append)
  have "length ?cs \<le> length (image ?i ?cs)"
    by (rule rc.length_img)
  also have "\<dots> \<le> length (content f)"
    using sp by (auto simp: splits_def intro: prefix_length_le)
  finally have bound: "unat b + length (concat css) + length ?cs \<le> 2 ^ 63"
    using len st by (simp add: stored_def wf_closed_def)
  from op st calm sp bound show ?thesis
  proof (cases rule: OpenLog_stored)
    case (clean l)
    then show ?thesis
      using inv_opened [OF clean(4,3) sub] by simp
  next
    case (torn d l)
    then show ?thesis
      using inv_opened [OF torn(5,4) sub] by simp
  next
    case (corrupt d)
    then show ?thesis
      using inv_None [OF at_rest_same [OF rest corrupt(3)]] by simp
  next
    case (refused e)
    then show ?thesis
      using inv_None [OF rest] by simp
  next
    case (fault e g)
    have "prefix (image ?i ds) (content g)"
      using fault(7) by (simp add: rc.img_append) (metis append_prefixD)
    then have "keeps F b css g"
      unfolding keeps_def using ds(1,2) fault(5,6) by (intro exI [of _ ds]) simp
    then have "at_rest F w'"
      unfolding at_rest_def using fault(2,4,6) by blast
    then show ?thesis
      using inv_None fault(1) by simp
  qed
qed

lemma inv_open:
  assumes rest: "at_rest F w" and "settled w" and "small_files w" and op: "OpenLog quote ctx cfg w = (r, w')"
  shows "inv cfg F F (case r of Inr l \<Rightarrow> Some l | Inl _ \<Rightarrow> None) w'"
proof -
  consider (empty) "F = {}" "tidy w" "get_file w = Map.empty"
    | (stored) b css f where "stored b css f w" "regular f" "keeps F b css f"
        "\<not> pending f \<longrightarrow> durable f = content f"
    using rest unfolding at_rest_def by blast
  then show ?thesis
  proof cases
    case empty
    from op empty(3,2) show ?thesis
    proof (cases rule: OpenLog_empty)
      case (fresh l)
      then show ?thesis
        using inv_opened [OF fresh(4,2), of "{}"] empty(1) by simp
    next
      case (refused e)
      then show ?thesis
        using inv_None [OF rest] by simp
    next
      case (fault e)
      then show ?thesis
        using inv_None empty(1) by simp
    qed
  next
    case stored
    then show ?thesis
      using inv_open_stored [OF op] assms by blast
  qed
qed

lemma inv_append:
  assumes inv: "inv cfg A F (Some l) w" and app: "Append ctx c l w = (r, l', w')"
    and bound: "unat (l_lastIndex l) < 2 ^ 62"
    and A': "A' = (case r of Inr i \<Rightarrow> insert (i, c) A | Inl _ \<Rightarrow> A)"
  shows "inv cfg A' (promised l' A' F) (Some l') w'"
proof (cases "healthy l")
  case False
  then have "l' = l" "w' = w" "\<exists>e. r = Inl e"
    using app by (auto simp: Append_def healthy_def writable_def split: option.splits if_splits)
  with inv False A' show ?thesis
    by (auto simp: inv_def promised_def)
next
  case True
  from inv True obtain b css cs f where lv: "live b css cs f l w" and kp: "keeps F b css f"
    and A: "A \<subseteq> set (numbered b (concat css @ cs))" "lc_Fsync cfg = FsyncAlways \<longrightarrow> \<not> l_dirty l"
    and FA: "F \<subseteq> A" "lc_Fsync cfg = FsyncAlways \<longrightarrow> F = A" and cfg: "l_cfg l = cfg"
    by (auto simp: inv_def holds_def)
  from app lv bound show ?thesis
  proof (cases rule: Append_live)
    case (ok css' cs' f')
    have last: "numbered b (concat css' @ cs') = numbered b (concat css @ cs) @ [(l_lastIndex l + 1, c)]"
      using live_unat(3) [OF lv] ok(3) numbered_append [of b "concat css @ cs" "[c]"]
      by (simp add: next_index_def)
    have "holds A' F l' w'"
      unfolding holds_def using ok(2,4,5) kp A(1) last A' ok(1,6) by (fastforce simp: cfg)
    then have "holds A' (promised l' A' F) l' w'"
      by (rule holds_promised)
    then show ?thesis
      using ok(1,2,5,6) FA A' live_healthy [OF ok(2)] by (auto simp: inv_def cfg promised_def)
  next
    case (refused e)
    then have "inv cfg A (promised l A F) (Some l) w"
      using inv True holds_promised [of A F l w] by (auto simp: inv_def promised_def)
    then show ?thesis
      using refused A' by simp
  next
    case (failed e)
    then have "\<not> healthy l'"
      by (simp add: healthy_def)
    then show ?thesis
      using failed(1,3,4) kp FA A' cfg by (auto simp: inv_def promised_def)
  qed
qed

lemma inv_tick:
  assumes inv: "inv cfg A F (Some l) w" and tick: "syncIfDirty l w = (l', w')"
  shows "inv cfg A (promised l' A F) (Some l') w'"
proof (cases "healthy l")
  case False
  then have "l' = l" "w' = w"
    using tick by (auto simp: syncIfDirty_def healthy_def)
  with inv False show ?thesis
    by (auto simp: inv_def promised_def)
next
  case True
  from inv True obtain b css cs f where lv: "live b css cs f l w" and kp: "keeps F b css f"
    and A: "A \<subseteq> set (numbered b (concat css @ cs))"
    and FA: "F \<subseteq> A" "lc_Fsync cfg = FsyncAlways \<longrightarrow> F = A" and cfg: "l_cfg l = cfg"
    by (auto simp: inv_def holds_def)
  from tick lv show ?thesis
  proof (cases rule: syncIfDirty_live)
    case (ok f')
    then have "holds A F l' w'"
      unfolding holds_def using kp A by blast
    then have "holds A (promised l' A F) l' w'"
      by (rule holds_promised)
    then show ?thesis
      using ok(1,4) FA live_healthy [OF ok(1)] by (auto simp: inv_def cfg promised_def)
  next
    case (failed e)
    then have "\<not> healthy l'"
      by (simp add: healthy_def)
    then show ?thesis
      using failed(2,3) kp FA cfg by (auto simp: inv_def promised_def)
  qed
qed

lemma inv_close:
  assumes inv: "inv cfg A F (Some l) w" and cl: "Close l w = (r, l', w')"
  shows "inv cfg A (if healthy l \<and> r = None then A else F) (Some l') w'"
proof (cases "healthy l")
  case False
  then have unhealthy: "\<not> healthy l'" "l_cfg l' = l_cfg l" "same_disk w w'"
    using cl by (auto simp: Close_def healthy_def Let_def log_sync_def
        dest: file_Close_spec split: if_splits prod.splits option.splits)
  with inv False show ?thesis
    by (auto simp: inv_def intro: at_rest_same)
next
  case True
  from inv True obtain b css cs f where lv: "live b css cs f l w" and kp: "keeps F b css f"
    and A: "A \<subseteq> set (numbered b (concat css @ cs))"
    and FA: "F \<subseteq> A" "lc_Fsync cfg = FsyncAlways \<longrightarrow> F = A" and cfg: "l_cfg l = cfg"
    by (auto simp: inv_def holds_def)
  note c = Close_live [OF cl lv]
  have "\<not> healthy l'"
    using c(1) by (simp add: healthy_def)
  moreover have "l_cfg l' = cfg"
    using cl cfg by (auto simp: Close_def Let_def log_sync_def split: if_splits prod.splits option.splits)
  moreover have "at_rest A w'" if "r = None"
  proof -
    have k: "keeps A b css (flushed f)"
      using c(3) [OF that] A by (blast intro: keeps_mono)
    show ?thesis
      unfolding at_rest_def using k c(3) [OF that] lv
      by (intro disjI2 exI [of _ b] exI [of _ css] exI [of _ "flushed f"]) (simp add: live_def)
  qed
  ultimately show ?thesis
    using c(2) [OF kp] FA by (auto simp: inv_def)
qed

lemma writeback_stored:
  assumes "stored b css f w" and "writeback w w'"
  shows "stored b css (written_back f) w'"
proof -
  have "map_option written_back (map_of (shelf b css) n) = map_of (shelf b css) n" for n
    using shelf_sealed [of b css n] by (cases "map_of (shelf b css) n") (auto simp: written_back_def)
  then show ?thesis
    using assms by (auto simp: stored_def writeback_def fun_eq_iff)
qed

lemma keeps_written_back: "keeps R b css f \<Longrightarrow> keeps R b css (written_back f)"
  by (auto simp: keeps_def written_back_def)

lemma writeback_live: "live b css cs f l w \<Longrightarrow> writeback w w' \<Longrightarrow> live b css cs (written_back f) l w'"
  using writeback_stored [of b css f w w'] by (auto simp: live_def written_back_def)

lemma writeback_at_rest:
  assumes "at_rest F w" and "writeback w w'"
  shows "at_rest F w'"
  using assms(1) unfolding at_rest_def
proof (elim disjE exE conjE)
  assume "F = {}" "tidy w" "get_file w = Map.empty"
  then show "F = {} \<and> tidy w' \<and> get_file w' = Map.empty \<or> (\<exists>b css f. stored b css f w' \<and> regular f \<and>
      (\<not> pending f \<longrightarrow> durable f = content f) \<and> keeps F b css f)"
    using assms(2) by (auto simp: writeback_def)
next
  fix b css f
  assume "stored b css f w" "regular f" "keeps F b css f"
  then show "F = {} \<and> tidy w' \<and> get_file w' = Map.empty \<or> (\<exists>b css f. stored b css f w' \<and> regular f \<and>
      (\<not> pending f \<longrightarrow> durable f = content f) \<and> keeps F b css f)"
    using writeback_stored [OF _ assms(2)] keeps_written_back
    by (intro disjI2 exI [of _ b] exI [of _ css] exI [of _ "written_back f"]) (simp add: written_back_def)
qed

lemma inv_writeback: "inv cfg A F lo w \<Longrightarrow> writeback w w' \<Longrightarrow> inv cfg A F lo w'"
proof -
  assume inv: "inv cfg A F lo w" and wb: "writeback w w'"
  have "holds A F l w'" if "holds A F l w" for l
    using that writeback_live [OF _ wb] keeps_written_back unfolding holds_def by blast
  with inv writeback_at_rest [OF _ wb] show ?thesis
    by (auto simp: inv_def split: option.splits)
qed

lemma same_disk_faults [simp]: "same_disk w (w\<lparr>faults := fs\<rparr>)"
  by (simp add: same_disk_def)

lemma inv_faults: "inv cfg A F lo w \<Longrightarrow> inv cfg A F lo (w\<lparr>faults := fs\<rparr>)"
proof -
  assume inv: "inv cfg A F lo w"
  have "live b css cs f l (w\<lparr>faults := fs\<rparr>)" if "live b css cs f l w" for b css cs f l
    using that same_disk_faults by (rule live_same)
  then have "holds A F l (w\<lparr>faults := fs\<rparr>)" if "holds A F l w" for l
    using that unfolding holds_def by blast
  with inv at_rest_same [OF _ same_disk_faults] show ?thesis
    by (auto simp: inv_def split: option.splits)
qed

lemma reach_inv: "reach quote cfg A F lo w \<Longrightarrow> inv cfg A F lo w"
proof (induction rule: reach.induct)
  case (boot w)
  then have "at_rest {} w"
    by (simp add: at_rest_def tidy_def get_file_def fun_eq_iff)
  then show ?case by (rule inv_None)
next
  case (open_log A F lo w ctx r w')
  then show ?case
    using inv_open inv_at_rest by blast
next
  case (append A F l w ctx c r l' w' A')
  then show ?case
    using inv_append by blast
next
  case (crash A F lo w w')
  then show ?case
    using inv_None crash_at_rest inv_at_rest by blast
qed (blast intro: inv_tick inv_close inv_writeback inv_faults)+

end
