(* ===== verification/CommandLog.thy ===== *)
theory CommandLog
  imports Durability
begin

text \<open>
  The contract of the command log, stated over the operations of \<^verbatim>\<open>log.go\<close> and \<^verbatim>\<open>log_recovery.go\<close>. The
  abstract value of a log is the list of its records (\<open>log_contents\<close>), as a replay from the beginning
  delivers them; \<open>consistent\<close> says that an open log and its directory represent such a list. The locale
  \<open>command_log\<close> is the interface the layer above programs against; it is interpreted on \<open>Append\<close> and
  \<open>Replay\<close>.
\<close>

subsection \<open>The abstract value of a log\<close>

definition log_contents :: "Log \<Rightarrow> world \<Rightarrow> (u64 \<times> bytes) list" where
  "log_contents l w =
     (case Replay (\<lambda>_. None) 0 collect [] l (w\<lparr>faults := []\<rparr>) of (_, recs, _) \<Rightarrow> recs)"

definition consistent :: "Log \<Rightarrow> world \<Rightarrow> bool" where
  "consistent l w \<longleftrightarrow> (\<exists>b css cs f. live b css cs f l w)"

lemma live_contents: "live b css cs f l w \<Longrightarrow> log_contents l w = numbered b (concat css @ cs)"
  using Replay_live [OF live_same [OF _ same_disk_faults [of w "[]"]], of b css cs f l 0 collect "[]"]
  by (simp add: log_contents_def feed_collect)

lemma consistentI: "live b css cs f l w \<Longrightarrow> consistent l w"
  by (auto simp: consistent_def)

lemma live_last_record:
  assumes "live b css cs f l w" and "live b css' cs' f' l' w'" and "concat css' @ cs' = concat css @ cs @ [c]"
  shows "log_contents l' w' = log_contents l w @ [(l_lastIndex l + 1, c)]"
    and "l_lastIndex l' = l_lastIndex l + 1"
proof -
  have i: "l_lastIndex l + 1 = b + word_of_nat (length (concat css @ cs))"
    using live_unat(3) [OF assms(1)] by (simp add: next_index_def)
  show "log_contents l' w' = log_contents l w @ [(l_lastIndex l + 1, c)]"
    using numbered_append [of b "concat css @ cs" "[c]"]
    by (simp add: live_contents [OF assms(1)] live_contents [OF assms(2)] assms(3) i)
  have "l_lastIndex l' + 1 = b + word_of_nat (length (concat css' @ cs'))"
    using live_unat(3) [OF assms(2)] by (simp add: next_index_def)
  then have "l_lastIndex l' + 1 = l_lastIndex l + 1 + 1"
    unfolding assms(3) i by (simp add: algebra_simps)
  then show "l_lastIndex l' = l_lastIndex l + 1" by simp
qed

subsection \<open>The interface\<close>

text \<open>
  An append-only log: an append that succeeds adds exactly one record, with the next index, at the end;
  a replay hands the records from an index on to the callback.
\<close>

locale command_log =
  fixes ok :: "'l \<Rightarrow> 'w \<Rightarrow> bool"
    and room :: "'l \<Rightarrow> bool"
    and contents :: "'l \<Rightarrow> 'w \<Rightarrow> (u64 \<times> bytes) list"
    and last_index :: "'l \<Rightarrow> u64"
    and append :: "bytes \<Rightarrow> 'l \<Rightarrow> 'w \<Rightarrow> (error + u64) \<times> 'l \<times> 'w"
  assumes append_ok: "ok l w \<Longrightarrow> room l \<Longrightarrow> append c l w = (Inr i, l', w') \<Longrightarrow>
      ok l' w' \<and> i = last_index l + 1 \<and> last_index l' = i \<and> contents l' w' = contents l w @ [(i, c)]"
begin

text \<open>A run of appends that all succeed, and the records it returns.\<close>

inductive run :: "'l \<Rightarrow> 'w \<Rightarrow> (u64 \<times> bytes) list \<Rightarrow> 'l \<Rightarrow> 'w \<Rightarrow> bool" where
  none: "run l w [] l w"
| more: "room l \<Longrightarrow> append c l w = (Inr i, l', w') \<Longrightarrow> run l' w' rs l'' w'' \<Longrightarrow> run l w ((i, c) # rs) l'' w''"

lemma run_contents:
  "run l w rs l' w' \<Longrightarrow> ok l w \<Longrightarrow> ok l' w' \<and> contents l' w' = contents l w @ rs"
  by (induction rule: run.induct) (auto dest: append_ok)

lemma run_numbered: "run l w rs l' w' \<Longrightarrow> ok l w \<Longrightarrow> rs = numbered (last_index l + 1) (map snd rs)"
proof (induction rule: run.induct)
  case (more l c w i l' w' rs l'' w'')
  from append_ok [OF more.prems more.hyps(1,2)] more.IH show ?case
    by simp
qed simp

end

lemma Append_ok:
  assumes "consistent l w" and "unat (l_lastIndex l) < 2 ^ 62" and "Append ctx c l w = (Inr i, l', w')"
  shows "consistent l' w' \<and> i = l_lastIndex l + 1 \<and> l_lastIndex l' = i
    \<and> log_contents l' w' = log_contents l w @ [(i, c)]"
proof -
  from assms(1) obtain b css cs f where lv: "live b css cs f l w"
    by (auto simp: consistent_def)
  from assms(3) lv assms(2) show ?thesis
  proof (cases rule: Append_live)
    case (ok css' cs' f')
    with live_last_record [OF lv ok(2,3)] show ?thesis
      by (auto intro: consistentI)
  qed simp_all
qed

text \<open>Indexes are kept far below the end of their 64-bit range.\<close>

definition has_room :: "Log \<Rightarrow> bool" where
  "has_room l \<longleftrightarrow> unat (l_lastIndex l) < 2 ^ 62"

interpretation cl: command_log consistent has_room log_contents l_lastIndex "Append ctx" for ctx
  by unfold_locales (auto simp: has_room_def dest: Append_ok)

subsection \<open>A concrete log\<close>

text \<open>The log opened on an empty directory, and the same log with one record; used by the examples.\<close>

definition demo_cfg :: LogConfig where
  "demo_cfg = \<lparr>lc_Dir = ''log'', lc_SegmentBytes = 17, lc_Fsync = FsyncAlways, lc_FsyncInterval = 0\<rparr>"

definition no_files :: world where
  "no_files = \<lparr>files = [], ghosts = [], faults = [], log_lines = []\<rparr>"

definition demo_log :: Log where "demo_log = projr (fst (OpenLog id None demo_cfg no_files))"
definition demo_world :: world where "demo_world = snd (OpenLog id None demo_cfg no_files)"
definition demo_log1 :: Log where "demo_log1 = fst (snd (Append None [7] demo_log demo_world))"
definition demo_world1 :: world where "demo_world1 = snd (snd (Append None [7] demo_log demo_world))"

lemma demo_cfg_valid [simp]: "LogConfig_Validate demo_cfg = None"
  by (simp add: LogConfig_Validate_def log_problems_def demo_cfg_def)

lemma no_files_empty: "get_file no_files = Map.empty" "tidy no_files" "faults no_files = []"
  by (simp_all add: no_files_def get_file_def tidy_def fun_eq_iff)

lemma demo_open:
  "OpenLog id None demo_cfg no_files = (Inr demo_log, demo_world)" "opened demo_cfg demo_log"
  "live 1 [] [] (new_file\<lparr>entry_durable := True\<rparr>) demo_log demo_world" "faults demo_world = []"
proof -
  obtain r w' where op: "OpenLog id None demo_cfg no_files = (r, w')"
    by fastforce
  from op no_files_empty(1,2)
  have "\<exists>l. r = Inr l \<and> opened demo_cfg l \<and> faults w' = []
      \<and> live 1 [] [] (new_file\<lparr>entry_durable := True\<rparr>) l w'"
    by (cases rule: OpenLog_empty) (auto simp: sound_def no_files_empty)
  with op show "OpenLog id None demo_cfg no_files = (Inr demo_log, demo_world)" "opened demo_cfg demo_log"
    "live 1 [] [] (new_file\<lparr>entry_durable := True\<rparr>) demo_log demo_world" "faults demo_world = []"
    by (auto simp: demo_log_def demo_world_def)
qed

lemma demo_append:
  "Append None [7] demo_log demo_world = (Inr 1, demo_log1, demo_world1)" "faults demo_world1 = []"
  "\<not> l_dirty demo_log1" "l_lastIndex demo_log1 = 1" "\<exists>f. live 1 [] [[7]] f demo_log1 demo_world1"
proof -
  obtain r l' w' where app: "Append None [7] demo_log demo_world = (r, l', w')"
    by (metis prod_cases3)
  have l0: "l_lastIndex demo_log = 0" "l_cfg demo_log = demo_cfg" "l_activeSize demo_log = 0"
    using demo_open(2,3) by (simp_all add: live_def next_index_def opened_def)
  have len: "length [7 :: byte] \<le> maxCommandSize"
    by (simp add: record_sizes)
  have wr: "write_record 1 (encodeRecord 1 [7]) demo_log demo_world = (r, l', w')"
    using app len l0 demo_open(3) by (simp add: Append_def Let_def)
  have i: "1 = next_index 1 ([] @ [[]])" and b: "unat (1 :: u64) + length (concat []) + length [] < 2 ^ 63"
    by (simp_all add: next_index_def)
  from wr demo_open(3) i len b
  have res: "r = Inr 1 \<and> faults w' = [] \<and> \<not> l_dirty l' \<and> (\<exists>f. live 1 [] [[7]] f l' w')"
  proof (cases rule: write_record_live)
    case (ok f')
    then show ?thesis
      using l0 demo_open(4) by (auto simp: sound_def demo_cfg_def)
  qed (use demo_open(4) in simp)
  then have "demo_log1 = l'" "demo_world1 = w'"
    using app by (simp_all add: demo_log1_def demo_world1_def)
  with app res show "Append None [7] demo_log demo_world = (Inr 1, demo_log1, demo_world1)"
    "faults demo_world1 = []" "\<not> l_dirty demo_log1" "\<exists>f. live 1 [] [[7]] f demo_log1 demo_world1"
    by auto
  then show "l_lastIndex demo_log1 = 1"
    by (auto simp: live_def next_index_def)
qed

lemma demo_contents: "log_contents demo_log1 demo_world1 = [(1, [7])]" "consistent demo_log1 demo_world1"
  using demo_append(5) live_contents consistentI by fastforce+

subsection \<open>Appending and replaying\<close>

text \<open>
  C4: Appending to a consistent log either returns the next index, and then the log is consistent and its
  contents are the old contents followed by exactly the new record; or it is refused before any I/O
  because the context ended or the command is too large, and nothing changes; or a system call failed
  and the log is marked as failed with the error it returned.
\<close>

theorem Append_appends_or_fails:
  assumes "consistent l w" and "unat (l_lastIndex l) < 2 ^ 62" and "Append ctx c l w = (r, l', w')"
  shows "case r of
      Inr i \<Rightarrow> consistent l' w' \<and> i = l_lastIndex l + 1 \<and> l_lastIndex l' = i
        \<and> log_contents l' w' = log_contents l w @ [(i, c)] \<and> ctx = None \<and> length c \<le> maxCommandSize
    | Inl e \<Rightarrow> (ctx \<noteq> None \<or> maxCommandSize < length c) \<and> l' = l \<and> w' = w
        \<or> l_failed l' = Some e \<and> faults w \<noteq> []"
proof -
  from assms(1) obtain b css cs f where lv: "live b css cs f l w"
    by (auto simp: consistent_def)
  from assms(3) lv assms(2) show ?thesis
  proof (cases rule: Append_live)
    case (ok css' cs' f')
    with Append_ok [OF assms(1,2) assms(3) [unfolded ok(1)]] show ?thesis by simp
  next
    case (refused e)
    then show ?thesis by simp
  next
    case (failed e)
    then show ?thesis by simp
  qed
qed

theorem Append_appends_or_fails_witness:
  "consistent demo_log1 demo_world1 \<and> log_contents demo_log1 demo_world1 = log_contents demo_log demo_world @ [(1, [7])]"
  using Append_appends_or_fails [OF consistentI [OF demo_open(3)] _ demo_append(1)] demo_open(3)
  by (simp add: live_def next_index_def)

text \<open>
  C5: As long as no system call fails, an append of a command within the limit to a consistent log
  succeeds, also when it has to flush, close and start a new segment first.
\<close>

theorem Append_succeeds:
  assumes "consistent l w" and "unat (l_lastIndex l) < 2 ^ 62" and "length c \<le> maxCommandSize" and "faults w = []"
  shows "\<exists>l' w'. Append None c l w = (Inr (l_lastIndex l + 1), l', w') \<and> faults w' = []"
proof -
  from assms(1) obtain b css cs f where lv: "live b css cs f l w"
    by (auto simp: consistent_def)
  obtain r l' w' where app: "Append None c l w = (r, l', w')"
    by (metis prod_cases3)
  from app lv assms(2) show ?thesis
    by (cases rule: Append_live) (use app assms(3,4) in \<open>auto simp: sound_def\<close>)
qed

theorem Append_succeeds_witness:
  "\<exists>l' w'. Append None [1, 2, 3] demo_log1 demo_world1 = (Inr 2, l', w') \<and> faults w' = []"
proof -
  from Append_succeeds [OF demo_contents(2), of "[1, 2, 3]"] demo_append(2,4) show ?thesis
    by (simp add: record_sizes)
qed

text \<open>
  C10: A failure is final. Once an append of an admissible command has failed, every later append fails,
  changes neither the log nor the disk, and the background flush does nothing either, however the
  system behaves afterwards.
\<close>

theorem failed_log_stays_failed:
  assumes "consistent l w" and "unat (l_lastIndex l) < 2 ^ 62" and "length c \<le> maxCommandSize"
    and "Append None c l w = (Inl e, l', w')"
  shows "(\<forall>ctx d w2. \<exists>e2. Append ctx d l' w2 = (Inl e2, l', w2)) \<and> (\<forall>w2. syncIfDirty l' w2 = (l', w2))"
proof -
  from assms(1) obtain b css cs f where lv: "live b css cs f l w"
    by (auto simp: consistent_def)
  from assms(4) lv assms(2) have "l_failed l' = Some e"
    by (cases rule: Append_live) (use assms(3) in auto)
  then show ?thesis
    by (auto simp: Append_def writable_def syncIfDirty_def split: option.splits)
qed

theorem failed_log_stays_failed_witness:
  "\<exists>e l' w'. Append None [1] demo_log (demo_world\<lparr>faults := [Ok, Fail errExist 0]\<rparr>) = (Inl e, l', w')
     \<and> (\<forall>ctx d w2. \<exists>e2. Append ctx d l' w2 = (Inl e2, l', w2))"
proof -
  let ?w = "demo_world\<lparr>faults := [Ok, Fail errExist 0]\<rparr>"
  have lv: "live 1 [] [] (new_file\<lparr>entry_durable := True\<rparr>) demo_log ?w"
    using demo_open(3) by (rule live_same) simp
  have "l_cfg demo_log = demo_cfg" "l_lastIndex demo_log = 0" "l_activeSize demo_log = 0"
    "l_active demo_log = \<lparr>h_name = segmentName 1, h_open = True\<rparr>" "writable demo_log = None"
    using lv demo_open(2) by (auto simp: live_def next_index_def opened_def writable_def)
  then have "\<exists>e l' w'. Append None [1] demo_log ?w = (Inl e, l', w')"
    by (auto simp: Append_def record_sizes Let_def write_record_def file_Write_def next_outcome_def
        log_sync_def file_Sync_def demo_cfg_def append_content_def split: option.splits)
  then obtain e l' w' where app: "Append None [1] demo_log ?w = (Inl e, l', w')"
    by blast
  from failed_log_stays_failed [OF consistentI [OF lv] _ _ app] show ?thesis
    using app \<open>l_lastIndex demo_log = 0\<close> by (auto simp: record_sizes)
qed



subsection \<open>Appending many commands\<close>

fun append_all :: "bytes list \<Rightarrow> Log \<Rightarrow> world \<Rightarrow> (error + u64 list) \<times> Log \<times> world" where
  "append_all [] l w = (Inr [], l, w)"
| "append_all (c # cs) l w =
     (case Append None c l w of
        (Inl e, l, w) \<Rightarrow> (Inl e, l, w)
      | (Inr i, l, w) \<Rightarrow>
          (case append_all cs l w of
             (Inl e, l, w) \<Rightarrow> (Inl e, l, w)
           | (Inr is, l, w) \<Rightarrow> (Inr (i # is), l, w)))"

lemma Append_sound:
  assumes "consistent l w" and "unat (l_lastIndex l) < 2 ^ 62" and "length c \<le> maxCommandSize" and "faults w = []"
  obtains i l' w' where "Append None c l w = (Inr i, l', w')" "faults w' = []"
proof -
  from assms(1) obtain b css cs f where lv: "live b css cs f l w"
    by (auto simp: consistent_def)
  obtain r l' w' where app: "Append None c l w = (r, l', w')"
    by (metis prod_cases3)
  from app lv assms(2) show thesis
    by (cases rule: Append_live) (use app assms(3,4) that in \<open>auto simp: sound_def\<close>)
qed

lemma append_all_run:
  assumes "consistent l w" and "unat (l_lastIndex l) + length cs \<le> 2 ^ 62" and "fits cs" and "faults w = []"
  shows "\<exists>rs l' w'. append_all cs l w = (Inr (map fst rs), l', w') \<and> map snd rs = cs
    \<and> cl.run None l w rs l' w' \<and> faults w' = []"
  using assms
proof (induction cs arbitrary: l w)
  case Nil
  then show ?case by (auto intro: cl.run.none)
next
  case (Cons c cs)
  have room: "unat (l_lastIndex l) < 2 ^ 62"
    using Cons.prems(2) by simp
  obtain i l1 w1 where app: "Append None c l w = (Inr i, l1, w1)" and f1: "faults w1 = []"
    using Append_sound [OF Cons.prems(1) room, of c] Cons.prems(3,4) by auto
  note ok = Append_ok [OF Cons.prems(1) room app]
  have "unat (l_lastIndex l1) = unat (l_lastIndex l) + 1"
    using ok unat_plus_nat [of "l_lastIndex l" 1] room by simp
  with Cons.prems ok f1 have "\<exists>rs l' w'. append_all cs l1 w1 = (Inr (map fst rs), l', w') \<and> map snd rs = cs
      \<and> cl.run None l1 w1 rs l' w' \<and> faults w' = []"
    by (intro Cons.IH) auto
  then obtain rs l' w' where "append_all cs l1 w1 = (Inr (map fst rs), l', w')" "map snd rs = cs"
    "cl.run None l1 w1 rs l' w'" "faults w' = []"
    by blast
  moreover have "has_room l"
    using room by (simp add: has_room_def)
  ultimately show ?case
    using app cl.run.more [of l None c w i l1 w1]
    by (intro exI [of _ "(i, c) # rs"] exI [of _ l'] exI [of _ w']) auto
qed

text \<open>
  C6: Write and read back: appending a list of commands gives them consecutive indexes from the next one
  on, and a replay from there delivers exactly these commands with these indexes, however many
  segments the log was split into on the way.
\<close>

theorem append_replay_roundtrip:
  assumes "consistent l w" and "unat (l_lastIndex l) + length cs \<le> 2 ^ 62" and "fits cs" and "faults w = []"
  shows "\<exists>l' w'. append_all cs l w = (Inr (map fst (numbered (l_lastIndex l + 1) cs)), l', w')
    \<and> Replay (\<lambda>_. None) (l_lastIndex l + 1) collect [] l' w' = (None, numbered (l_lastIndex l + 1) cs, w')"
proof -
  obtain rs l' w' where rs: "append_all cs l w = (Inr (map fst rs), l', w')" "map snd rs = cs"
    "cl.run None l w rs l' w'" "faults w' = []"
    using append_all_run [OF assms] by blast
  note run = cl.run_contents [OF rs(3) assms(1)] cl.run_numbered [OF rs(3) assms(1)]
  have eq: "rs = numbered (l_lastIndex l + 1) cs"
    using run(2) rs(2) by simp
  from assms(1) obtain b css ds f where lv: "live b css ds f l w"
    by (auto simp: consistent_def)
  have old: "starting_at (l_lastIndex l + 1) (log_contents l w) = []"
  proof -
    have lim: "unat b + length (concat css @ ds) < 2 ^ 64"
      using lv by (simp add: live_def)
    have "unat (l_lastIndex l + 1) = unat b + length (concat css @ ds)"
      using live_unat(1,3) [OF lv] by simp
    then show ?thesis
      using numbered_index_bounds [OF lim]
      by (fastforce simp: live_contents [OF lv] filter_empty_conv word_le_nat_alt)
  qed
  have new: "starting_at (l_lastIndex l + 1) rs = rs"
  proof -
    have lim: "unat (l_lastIndex l + 1) + length cs < 2 ^ 64"
      using assms(2) unat_plus_nat [of "l_lastIndex l" 1] by simp
    show ?thesis
      using numbered_index_bounds [OF lim] unfolding eq by (fastforce simp: filter_id_conv word_le_nat_alt)
  qed
  obtain b' css' ds' f' where lv': "live b' css' ds' f' l' w'"
    using run(1) by (auto simp: consistent_def)
  have "starting_at (l_lastIndex l + 1) (numbered b' (concat css' @ ds')) = rs"
    using run(1) old new by (simp flip: live_contents [OF lv'])
  then have "Replay (\<lambda>_. None) (l_lastIndex l + 1) collect [] l' w' = (None, rs, w')"
    by (simp add: Replay_live [OF lv' rs(4)] feed_collect)
  then show ?thesis
    using rs(1) eq by auto
qed

theorem append_replay_roundtrip_witness:
  "\<exists>l' w'. append_all [[1], [], [2, 3]] demo_log1 demo_world1 = (Inr [2, 3, 4], l', w')
     \<and> Replay (\<lambda>_. None) 2 collect [] l' w' = (None, [(2, [1]), (3, []), (4, [2, 3])], w')"
  using append_replay_roundtrip [OF demo_contents(2), of "[[1], [], [2, 3]]"] demo_append(2,4)
  by (simp add: record_sizes)

end
