(* ===== verification/LogSafety.thy ===== *)
theory LogSafety
  imports CommandLog
begin

text \<open>
  What survives a crash, and what recovery does with each kind of damage. The last part shows three
  situations in which the recovery code falls short of its own comments.
\<close>

subsection \<open>Acknowledged commands survive\<close>

lemma reach_contents:
  assumes "reach quote cfg A F (Some l) w" and "healthy l"
  shows "A \<subseteq> set (log_contents l w)" "consistent l w" "F \<subseteq> A" "lc_Fsync cfg = FsyncAlways \<Longrightarrow> F = A"
proof -
  have inv: "inv cfg A F (Some l) w"
    using assms(1) by (rule reach_inv)
  with assms(2) obtain b css cs f where "live b css cs f l w" "A \<subseteq> set (numbered b (concat css @ cs))"
    by (auto simp: inv_def holds_def)
  then show "A \<subseteq> set (log_contents l w)" "consistent l w"
    by (auto simp: live_contents intro: consistentI)
  show "F \<subseteq> A" "lc_Fsync cfg = FsyncAlways \<Longrightarrow> F = A"
    using inv by (auto simp: inv_def)
qed

lemma reach_opened:
  assumes "reach quote cfg A F lo w" and "settled w" and "small_files w" and "OpenLog quote ctx cfg w = (Inr l, w')"
  shows "reach quote cfg F F (Some l) w'" "healthy l"
proof -
  show r: "reach quote cfg F F (Some l) w'"
    using reach.open_log [OF assms] by simp
  have "l_failed l = None \<and> \<not> l_closed l"
    using assms(4)
  proof (cases rule: OpenLog_cases)
    case (recovers r0 w1)
    then obtain l0 where l0: "recover quote (zero_log cfg) w1 = (Inr l0, w')" "l = with_syncer cfg l0"
      by (cases r0) auto
    then have "l_failed l0 = None \<and> \<not> l_closed l0"
      by (auto simp: recover_def startFirstSegment_def zero_log_def Let_def
          split: prod.splits sum.splits if_splits)
    then show ?thesis
      by (simp add: l0(2) with_syncer_def)
  qed simp_all
  then show "healthy l"
    by (simp add: healthy_def)
qed

lemma crash_keeps_promises:
  assumes "reach quote cfg A F lo w" and "crash w w1" and "small_files w1"
    and "OpenLog quote ctx cfg (w1\<lparr>faults := fs\<rparr>) = (Inr l, w2)"
  shows "F \<subseteq> set (log_contents l w2)"
proof -
  have r1: "reach quote cfg F F None (w1\<lparr>faults := fs\<rparr>)"
    using assms(1,2) by (intro reach.faults reach.crash)
  have "settled (w1\<lparr>faults := fs\<rparr>)" "small_files (w1\<lparr>faults := fs\<rparr>)"
    using crash_settled [OF assms(2)] assms(3) by (simp_all add: settled_def small_files_def)
  note op = reach_opened [OF r1 this assms(4)]
  show ?thesis
    using reach_contents(1) [OF op] .
qed


lemma splits_intact: "fits cs \<Longrightarrow> splits i (image i cs) cs None"
  using sc.scan_intact [of cs i] by (simp add: splits_def fits_def)

lemma crash_nothing_pending:
  assumes "tidy w" and "\<And>n f. get_file w n = Some f \<Longrightarrow> calm f"
  shows "crash w w"
  unfolding crash_def
proof (intro conjI allI)
  fix n
  show "case get_file w n of None \<Rightarrow> (case get_file w n of None \<Rightarrow> True | Some f \<Rightarrow> \<not> entry_durable f)
      | Some f' \<Rightarrow> \<exists>f. (get_file w n = Some f \<or> (n, f) \<in> set (ghosts w)) \<and> crash_file f f'"
    using assms(2) [of n] by (auto simp: calm_def crash_file_def split: option.splits)
qed (use assms(1) in \<open>simp_all add: tidy_def\<close>)

lemma demo_disk:
  obtains f where "stored 1 [] f demo_world1" and "calm f" and "content f = image 1 [[7]]"
    and "get_file demo_world1 = [segmentName 1 \<mapsto> f]"
  using demo_append(3,5) by (fastforce simp: live_def calm_def stored_def)

lemma demo_reach: "reach id demo_cfg {(1, [7])} {(1, [7])} (Some demo_log1) demo_world1"
proof -
  have r0: "reach id demo_cfg {} {} None no_files"
    by (intro reach.boot) (simp_all add: no_files_def)
  have "settled no_files" "small_files no_files"
    by (simp_all add: settled_def small_files_def no_files_empty)
  note r1 = reach.open_log [OF r0 this demo_open(1)]
  have u: "unat (l_lastIndex demo_log) < 2 ^ 62"
    using demo_open(3) by (simp add: live_def next_index_def)
  have "healthy demo_log1"
    using demo_append(5) live_healthy by blast
  then show ?thesis
    using reach.append [OF r1 [simplified] u demo_append(1) refl] demo_append(3) by (simp add: promised_def)
qed


subsection \<open>Recovery of an intact and of a torn log\<close>

lemma splits_torn:
  assumes "fits cs" and "length c \<le> maxCommandSize" and "p \<noteq> []"
    and "strict_prefix p (encodeRecord (i + word_of_nat (length cs)) c)"
  shows "splits i (image i cs @ p) cs (Some errTornRecord)"
  using sc.scan_cut [of cs c p i] assms by (simp add: splits_def fits_def)

text \<open>
  C11: A log that was closed and is opened again has the same contents, and nothing is reported or
  truncated.
\<close>

theorem close_open_roundtrip:
  assumes "consistent l w" and "faults w = []" and "LogConfig_Validate cfg = None"
  shows "\<exists>l1 w1 l2 w2. Close l w = (None, l1, w1) \<and> OpenLog quote None cfg w1 = (Inr l2, w2)
    \<and> consistent l2 w2 \<and> log_contents l2 w2 = log_contents l w \<and> log_lines w2 = log_lines w1"
proof -
  from assms(1) obtain b css cs f where lv: "live b css cs f l w"
    by (auto simp: consistent_def)
  obtain r1 l1 w1 where cl: "Close l w = (r1, l1, w1)"
    by (metis prod_cases3)
  note c = Close_live [OF cl lv]
  have r1: "r1 = None" and f1: "faults w1 = []"
    using c(4) assms(2) by (auto simp: sound_def)
  have st: "stored b css (flushed f) w1"
    using c(3) [OF r1] by simp
  have calm: "calm (flushed f)" and sp: "splits (next_index b css) (content (flushed f)) cs None"
    and bound: "unat b + length (concat css) + length cs \<le> 2 ^ 63"
    using lv splits_intact [of cs] by (auto simp: live_def calm_def)
  obtain r2 w2 where op: "OpenLog quote None cfg w1 = (r2, w2)"
    by fastforce
  from op st calm sp bound show ?thesis
  proof (cases rule: OpenLog_stored)
    case (clean l2)
    then show ?thesis
      using cl r1 op live_contents [OF lv] live_contents [OF clean(4)] by (auto intro: consistentI)
  qed (use f1 assms(3) in auto)
qed

theorem close_open_roundtrip_witness:
  "\<exists>l1 w1 l2 w2. Close demo_log1 demo_world1 = (None, l1, w1) \<and> OpenLog id None demo_cfg w1 = (Inr l2, w2)
     \<and> log_contents l2 w2 = [(1, [7])]"
  using close_open_roundtrip [OF demo_contents(2) demo_append(2) demo_cfg_valid, of id]
  by (auto simp: demo_contents(1))

text \<open>A settled directory whose active segment holds the given bytes.\<close>

definition on_disk :: "u64 \<Rightarrow> bytes list list \<Rightarrow> bytes \<Rightarrow> world \<Rightarrow> bool" where
  "on_disk b css data w \<longleftrightarrow> (\<exists>f. stored b css f w \<and> calm f \<and> content f = data)"

lemma splits_damaged:
  assumes "fits cs" and "t \<noteq> []" and "decodeRecord t = Inl d"
  shows "splits i (image i cs @ t) cs (Some d)"
  using sc.scan_over [of cs 0 "image i cs @ t" i t] assms
  by (simp add: splits_def fits_def scan_records.simps [of _ "length (image i cs)"])

lemma not_out_of_sequence [simp]: "\<not> errors_Is errTornRecord errOutOfSequence"
  by (simp add: errTornRecord_def errOutOfSequence_def)

text \<open>One segment file with the given bytes, settled.\<close>

definition one_segment :: "bytes \<Rightarrow> world" where
  "one_segment data =
     no_files\<lparr>files := [(segmentName 1,
       \<lparr>content = data, durable = data, pending = False, entry_durable = True, regular = True\<rparr>)]\<rparr>"

lemma one_segment_disk: "on_disk 1 [] data (one_segment data)" "faults (one_segment data) = []"
proof -
  have "get_file (one_segment data) = [segmentName 1 \<mapsto>
      \<lparr>content = data, durable = data, pending = False, entry_durable = True, regular = True\<rparr>]"
    by (simp add: one_segment_def get_file_def fun_eq_iff)
  then show "on_disk 1 [] data (one_segment data)"
    unfolding on_disk_def
    by (intro exI [of _ "\<lparr>content = data, durable = data, pending = False, entry_durable = True, regular = True\<rparr>"])
      (simp add: stored_def wf_closed_def calm_def, simp add: tidy_def one_segment_def no_files_def)
  show "faults (one_segment data) = []"
    by (simp add: one_segment_def no_files_def)
qed

lemma hasLaterRecord_short: "length p < 17 \<Longrightarrow> \<not> hasLaterRecord p i"
  by (simp add: hasLaterRecord_def has_later_from.simps record_sizes)



lemma open_refuses:
  assumes disk: "on_disk b css (image (next_index b css) cs @ t) w" and "fits cs" and "t \<noteq> []"
    and bad: "decodeRecord t = Inl d" and later: "hasLaterRecord t (next_index b (css @ [cs]))"
    and bound: "unat b + length (concat css) + length cs \<le> 2 ^ 63"
    and cfg: "LogConfig_Validate cfg = None" and "faults w = []"
  shows "\<exists>w'. OpenLog quote None cfg w =
      (Inl (corruption (segmentName (next_index b css)) (length (image (next_index b css) cs)) d), w')
    \<and> get_file w' = get_file w"
proof -
  let ?i = "next_index b css"
  from disk obtain f where st: "stored b css f w" and calm: "calm f" and f: "content f = image ?i cs @ t"
    by (auto simp: on_disk_def)
  have sp: "splits ?i (content f) cs (Some d)"
    using splits_damaged assms(2,3) bad by (simp add: f)
  have no: "refuses ?i (content f) cs d"
    using later by (simp add: refuses_def f next_index_snoc)
  obtain r w' where op: "OpenLog quote None cfg w = (r, w')"
    by fastforce
  from op st calm sp bound show ?thesis
    by (cases rule: OpenLog_stored) (use op no cfg assms(8) in \<open>auto simp: same_disk_def\<close>)
qed



subsection \<open>Where recovery falls short\<close>

lemma drop_encodeRecord: "drop 16 (encodeRecord i c) = c"
  by (simp add: encodeRecord_def Let_def record_sizes)

text \<open>
  A torn write is not always recognised as one. If the command being written contains the bytes of an
  encoded record with a slightly later index, and the write is cut anywhere behind those bytes, the
  search for a later record finds the embedded one, and opening the log fails with the corruption
  error although nothing but the tail is torn.
\<close>

theorem embedded_record_blocks_recovery:
  assumes disk: "on_disk b css (image (next_index b css) cs @ p) w" and "fits cs"
    and c: "c = pre @ encodeRecord j d @ mid @ post" "post \<noteq> []" "length c \<le> maxCommandSize"
    and p: "p @ post = encodeRecord (next_index b (css @ [cs])) c"
    and j: "next_index b (css @ [cs]) < j" "j - next_index b (css @ [cs]) \<le> word_of_nat (length p)"
    and bound: "unat b + length (concat css) + length cs \<le> 2 ^ 63"
    and cfg: "LogConfig_Validate cfg = None" and "faults w = []"
  shows "\<exists>w'. OpenLog quote None cfg w = (Inl (corruption (segmentName (next_index b css))
    (length (image (next_index b css) cs)) errTornRecord), w') \<and> get_file w' = get_file w"
proof -
  let ?n = "next_index b (css @ [cs])"
  have d: "length d \<le> maxCommandSize"
    using c(1,3) by simp
  have len: "length p = 16 + length pre + length (encodeRecord j d) + length mid"
    using arg_cong [OF p, of length] c(1) by simp
  have "drop 16 p @ post = c"
    using arg_cong [OF p, of "drop 16"] len by (simp add: drop_encodeRecord)
  then have "drop 16 p = pre @ encodeRecord j d @ mid"
    by (simp add: c(1))
  then have "drop (16 + length pre) p = encodeRecord j d @ mid"
    using drop_drop [of "length pre" 16 p] by (simp add: add.commute)
  then have "later_record_at p ?n (16 + length pre)"
    using decodeRecord_encodeRecord [OF d, of j mid] j by (simp add: later_record_at_iff)
  then have later: "hasLaterRecord p ?n"
    unfolding hasLaterRecord_def has_later_from_iff by (intro exI [of _ "16 + length pre"]) simp
  have "strict_prefix p (encodeRecord ?n c)"
    using p c(2) by (metis prefixI strict_prefix_def self_append_conv)
  then have torn: "decodeRecord p = Inl errTornRecord"
    using c(3) by (intro decodeRecord_torn)
  show ?thesis
    using disk assms(2) _ torn later bound cfg assms(11) by (rule open_refuses) (use len in auto)
qed

theorem embedded_record_blocks_recovery_witness:
  "\<exists>w'. OpenLog id None demo_cfg (one_segment (take 32 (encodeRecord 1 (encodeRecord 2 [] @ [0])))) =
     (Inl (corruption (segmentName 1) 0 errTornRecord), w')"
proof -
  let ?e = "encodeRecord 1 (encodeRecord 2 [] @ [0])"
  have "?e = take 32 ?e @ drop 32 ?e"
    by simp
  moreover have "drop 32 ?e = [0]"
    using drop_drop [of 16 16 ?e] by (simp add: drop_encodeRecord)
  ultimately have p: "take 32 ?e @ [0] = ?e"
    by simp
  have len: "length (take 32 ?e) = 32"
    by simp
  have "\<exists>w'. OpenLog id None demo_cfg (one_segment (take 32 ?e)) = (Inl (corruption (segmentName (next_index 1 []))
      (length (image (next_index 1 []) [])) errTornRecord), w') \<and> get_file w' = get_file (one_segment (take 32 ?e))"
  proof (rule embedded_record_blocks_recovery)
    show "on_disk 1 [] (image (next_index 1 []) [] @ take 32 ?e) (one_segment (take 32 ?e))"
      using one_segment_disk(1) by simp
    show "encodeRecord 2 [] @ [0] = [] @ encodeRecord 2 [] @ [] @ [0]" by simp
    show "take 32 ?e @ [0] = encodeRecord (next_index 1 ([] @ [[]])) (encodeRecord 2 [] @ [0])"
      using p by (simp add: next_index_def)
    show "2 - next_index 1 ([] @ [[]]) \<le> word_of_nat (length (take 32 ?e))"
      unfolding len by (simp add: next_index_def)
  qed (simp_all add: next_index_def record_sizes one_segment_disk(2))
  then show ?thesis
    by auto
qed

text \<open>Step-by-step evaluation of the operations on small directories.\<close>

lemmas run_simps =
  OpenLog_def os_MkdirAll_def next_outcome_def recover_def os_ReadDir_def listSegments_def
  startFirstSegment_def createSegment_def os_CreateExcl_def syncDir_def sync_entries_def
  file_Close_def file_Sync_def file_Write_def append_content_def get_file_def put_file_def
  verifySegment_def os_ReadFile_def os_OpenWrite_def segment_gap_def
  Append_def writable_def write_record_def log_sync_def log_rotate_def rotate_closed_def set_last_def
  zero_log_def opened_log_def next_index_def Let_def parse_segmentName no_files_def demo_cfg_def
  LogConfig_Validate_def log_problems_def record_sizes fsync_defs rc.enc_nonempty

lemma scan_empty: "scan_records [] 0 i = (0, i, None)"
  by (simp add: scan_records.simps)

lemma scan_one:
  "length c \<le> maxCommandSize \<Longrightarrow> scan_records (encodeRecord i c) 0 i = (16 + length c, i + 1, None)"
  using sc.scan_intact [of "[c]" i] by simp

lemma segmentName_eq_iff: "segmentName i = segmentName j \<longleftrightarrow> i = j"
  using segmentName_inj by blast

lemma segment_order_1_2: "segmentName 1 \<le> segmentName 2" "\<not> (2 :: u64) \<le> 1"
  by (simp_all add: less_imp_le segmentName_less_iff word_less_nat_alt word_le_nat_alt)

abbreviation disk :: "(string \<times> dfile) list \<Rightarrow> world" where
  "disk fs \<equiv> no_files\<lparr>files := fs\<rparr>"

abbreviation seg_file :: "u64 \<Rightarrow> bytes \<Rightarrow> bytes \<Rightarrow> bool \<Rightarrow> string \<times> dfile" where
  "seg_file i c d p \<equiv>
     (segmentName i, \<lparr>content = c, durable = d, pending = p, entry_durable = True, regular = True\<rparr>)"

abbreviation reopened :: "bytes list list \<Rightarrow> bytes list \<Rightarrow> Log" where
  "reopened css cs \<equiv> opened_log 1 css cs (zero_log demo_cfg)"

text \<open>
  Recovery accepts an existing last segment without flushing the directory. If the flush of the
  directory entry of a new segment fails, the open fails as it should, but a second open succeeds and
  an append is acknowledged under the always policy; a crash may then drop the file with the
  acknowledged command, because its directory entry was never flushed.
\<close>

theorem reopen_skips_directory_sync:
  "\<exists>e w1 l w2 l' w3.
     OpenLog id None demo_cfg (no_files\<lparr>faults := [Ok, Ok, Ok, Ok, Fail errNotExist 0]\<rparr>) = (Inl e, w1)
     \<and> OpenLog id None demo_cfg w1 = (Inr l, w2) \<and> lc_Fsync (l_cfg l) = FsyncAlways
     \<and> Append None [7] l w2 = (Inr 1, l', w3) \<and> crash w3 no_files"
proof -
  let ?w1 = "disk [(segmentName 1, new_file)]"
  let ?w3 = "disk [(segmentName 1, new_file\<lparr>content := encodeRecord 1 [7], durable := encodeRecord 1 [7]\<rparr>)]"
  have 1: "OpenLog id None demo_cfg (no_files\<lparr>faults := [Ok, Ok, Ok, Ok, Fail errNotExist 0]\<rparr>) =
      (Inl (internal errNotExist ''directory could not be synced''), ?w1)"
    by (simp add: run_simps)
  have 2: "OpenLog id None demo_cfg ?w1 = (Inr (reopened [] []), ?w1)"
    by (simp add: run_simps scan_empty)
  have 3: "Append None [7] (reopened [] []) ?w1 = (Inr 1, reopened [] [[7]], ?w3)"
    by (simp add: run_simps)
  have 4: "crash ?w3 no_files"
    by (auto simp: crash_def no_files_def get_file_def)
  have 5: "lc_Fsync (l_cfg (reopened [] [])) = FsyncAlways"
    by (simp add: opened_log_def zero_log_def demo_cfg_def)
  show ?thesis
    using 1 2 3 4 5 by blast
qed

text \<open>
  Recovery also accepts records that were written but never flushed, without flushing them or marking
  the log dirty. If the next append starts a new segment, the old one is closed unflushed; after a
  crash that loses its tail, the log has a gap in front of the acknowledged command in the new segment
  and refuses to open.
\<close>

theorem reopen_skips_tail_sync:
  "\<exists>e l1 w1 l2 w2 l3 w3 w4 d w5.
     Append None [7] demo_log (demo_world\<lparr>faults := [Ok, Fail errExist 0]\<rparr>) = (Inl e, l1, w1)
     \<and> OpenLog id None demo_cfg w1 = (Inr l2, w2) \<and> lc_Fsync (l_cfg l2) = FsyncAlways
     \<and> Append None [8] l2 w2 = (Inr 2, l3, w3) \<and> crash w3 w4
     \<and> OpenLog id None demo_cfg w4 = (Inl (corruption (segmentName 2) 0 d), w5)"
proof -
  let ?r1 = "encodeRecord 1 [7]" and ?r2 = "encodeRecord 2 [8]"
  let ?w1 = "disk [seg_file 1 ?r1 [] True]" and ?w3 = "disk [seg_file 2 ?r2 ?r2 False, seg_file 1 ?r1 [] True]"
  let ?w4 = "disk [seg_file 1 [] [] False, seg_file 2 ?r2 ?r2 False]"
  have 0: "OpenLog id None demo_cfg no_files = (Inr (reopened [] []), disk [seg_file 1 [] [] False])"
    by (simp add: run_simps)
  have 1: "\<exists>e l. Append None [7] (reopened [] []) ((disk [seg_file 1 [] [] False])
      \<lparr>faults := [Ok, Fail errExist 0]\<rparr>) = (Inl e, l, ?w1)"
    by (simp add: run_simps)
  have 2: "OpenLog id None demo_cfg ?w1 = (Inr (reopened [] [[7]]), ?w1)"
    by (simp add: run_simps scan_one)
  have 3: "Append None [8] (reopened [] [[7]]) ?w1 = (Inr 2, reopened [[[7]]] [[8]], ?w3)"
    by (simp add: run_simps segmentName_eq_iff)
  have 4: "crash ?w3 ?w4"
    by (auto simp: crash_def crash_file_def no_files_def get_file_def segmentName_eq_iff)
  have 5: "\<exists>d. OpenLog id None demo_cfg ?w4 = (Inl (corruption (segmentName 2) 0 d), ?w4)"
    by (simp add: run_simps scan_one scan_empty segmentName_eq_iff segment_order_1_2) blast
  have 6: "lc_Fsync (l_cfg (reopened [] [[7]])) = FsyncAlways"
    by (simp add: opened_log_def zero_log_def demo_cfg_def)
  have eq: "demo_log = reopened [] []" "demo_world = disk [seg_file 1 [] [] False]"
    by (simp_all add: demo_log_def demo_world_def 0)
  show ?thesis
    unfolding eq using 1 2 3 4 5 6 by blast
qed

end
