(* ===== verification/LogConcurrency.thy ===== *)
theory LogConcurrency
  imports LogSafety
begin

text \<open>
  Replay beside other goroutines. \<^verbatim>\<open>Replay\<close> holds the log's mutex only while it copies the segment table and
  the last index; the segments are read without it, while appends, background flushes and \<^verbatim>\<open>Close\<close> go on, each
  under the mutex and so one at a time. \<open>beside\<close> lists what can happen meanwhile, and the last theorem shows
  that the replay delivers the records present when it was called and nothing else.
\<close>

subsection \<open>No operation on an open log shrinks a file\<close>

lemma grows_same: "same_disk w w' \<Longrightarrow> grows w w'"
  by (simp add: same_disk_def grows_def)

lemma grows_get: "get_file w' = get_file w \<Longrightarrow> grows w w'"
  by (simp add: grows_def)

lemma grows_put: "(\<And>f. get_file w n = Some f \<Longrightarrow> prefix (content f) (content g)) \<Longrightarrow> grows w (put_file n g w)"
  by (auto simp: grows_def)

lemma next_outcome_grows: "next_outcome w = (x, w') \<Longrightarrow> grows w w'"
  using next_outcome_same grows_same by blast

lemma append_content_grows: "grows w (append_content n d w)"
  by (cases "get_file w n") (auto simp: append_content_def intro!: grows_put)

lemma sync_entries_grows: "grows w (sync_entries w)"
proof -
  have "get_file (sync_entries w) n = map_option (\<lambda>f. f\<lparr>entry_durable := True\<rparr>) (get_file w n)" for n
    by (simp add: get_file_def sync_entries_def map_of_map)
  then show ?thesis by (auto simp: grows_def)
qed

named_theorems growing \<open>calls that only add to the directory\<close>

lemma file_Write_grows [growing]: "file_Write h d w = (r, w') \<Longrightarrow> grows w w'"
  by (auto simp: file_Write_def split: if_splits prod.splits outcome.splits
      intro: grows_trans [OF next_outcome_grows append_content_grows])

lemma file_Sync_grows [growing]: "file_Sync h w = (r, w') \<Longrightarrow> grows w w'"
  by (auto simp: file_Sync_def split: if_splits prod.splits outcome.splits option.splits
      intro: next_outcome_grows intro!: grows_trans [OF next_outcome_grows grows_put])

lemma file_Close_grows [growing]: "file_Close h w = (r, h', w') \<Longrightarrow> grows w w'"
  by (auto simp: file_Close_def split: if_splits prod.splits outcome.splits intro: next_outcome_grows)

lemma os_CreateExcl_grows [growing]: "os_CreateExcl n w = (r, w') \<Longrightarrow> grows w w'"
  by (auto simp: os_CreateExcl_def split: prod.splits outcome.splits option.splits
      intro: next_outcome_grows intro!: grows_trans [OF next_outcome_grows grows_put])

lemma syncDir_grows [growing]: "syncDir w = (r, w') \<Longrightarrow> grows w w'"
  by (auto simp: syncDir_def Let_def split: prod.splits outcome.splits option.splits
      dest!: next_outcome_grows intro: grows_trans grows_trans [OF _ grows_trans [OF sync_entries_grows]])

lemma log_sync_grows [growing]: "log_sync l w = (r, l', w') \<Longrightarrow> grows w w'"
  by (auto simp: log_sync_def Let_def split: prod.splits option.splits dest: growing)

lemma createSegment_grows [growing]: "createSegment p w = (r, w') \<Longrightarrow> grows w w'"
  by (auto simp: createSegment_def split: prod.splits sum.splits option.splits dest!: growing intro: grows_trans)

lemma rotate_closed_grows [growing]: "rotate_closed i l w = (r, l', w') \<Longrightarrow> grows w w'"
  by (auto simp: rotate_closed_def Let_def split: prod.splits sum.splits option.splits dest!: growing intro: grows_trans)

lemma log_rotate_grows [growing]: "log_rotate i l w = (r, l', w') \<Longrightarrow> grows w w'"
  by (auto simp: log_rotate_def split: if_splits prod.splits option.splits dest!: growing intro: grows_trans)

lemma write_record_grows [growing]: "write_record i d l w = (r, l', w') \<Longrightarrow> grows w w'"
  by (auto simp: write_record_def Let_def split: if_splits prod.splits option.splits dest!: growing intro: grows_trans)

lemma Append_grows [growing]: "Append ctx c l w = (r, l', w') \<Longrightarrow> grows w w'"
  by (auto simp: Append_def Let_def split: if_splits prod.splits option.splits dest!: growing intro: grows_trans)

lemma syncIfDirty_grows [growing]: "syncIfDirty l w = (l', w') \<Longrightarrow> grows w w'"
  by (auto simp: syncIfDirty_def slog_line_def split: if_splits prod.splits option.splits
      dest!: growing intro: grows_trans [OF _ grows_get])

lemma Close_grows [growing]: "Close l w = (r, l', w') \<Longrightarrow> grows w w'"
  by (auto simp: Close_def Let_def split: if_splits prod.splits option.splits dest!: growing intro: grows_trans)

subsection \<open>What happens beside a replay\<close>

inductive beside :: "Log \<Rightarrow> world \<Rightarrow> Log \<Rightarrow> world \<Rightarrow> bool" for l w where
  start: "beside l w l w"
| append: "beside l w l1 w1 \<Longrightarrow> Append ctx c l1 w1 = (r, l2, w2) \<Longrightarrow> beside l w l2 w2"
| tick: "beside l w l1 w1 \<Longrightarrow> syncIfDirty l1 w1 = (l2, w2) \<Longrightarrow> beside l w l2 w2"
| close: "beside l w l1 w1 \<Longrightarrow> Close l1 w1 = (r, l2, w2) \<Longrightarrow> beside l w l2 w2"
| faults: "beside l w l1 w1 \<Longrightarrow> beside l w l1 (w1\<lparr>faults := fs\<rparr>)"

lemma beside_grows: "beside l w l' w' \<Longrightarrow> grows w w'"
  by (induction rule: beside.induct) (auto dest!: growing intro: grows_trans [OF _ grows_get] grows_trans)

text \<open>
  C8: A replay delivers the records present when it was called, whatever happens beside it: when the
  segments are read from directories in which other goroutines have meanwhile appended (also
  unsuccessfully, leaving part of a record), rotated, flushed or closed the log, the callback still
  gets exactly the records of the log at the call, from the requested index on, in order, until it
  fails.
\<close>

theorem Replay_sees_snapshot:
  assumes "consistent l w" and "\<And>seg. \<exists>l'. beside l w l' (seen seg)" and "\<And>seg. faults (seen seg) = []"
  shows "replay_segments_at (\<lambda>_. None) (l_segments l) from (l_lastIndex l) fn s seen
    = feed fn (starting_at from (log_contents l w)) s"
proof -
  from assms(1) obtain b css cs f where lv: "live b css cs f l w"
    by (auto simp: consistent_def)
  have "grows w (seen seg)" for seg
    using assms(2) beside_grows by blast
  with Replay_at_live [OF lv _ assms(3)] show ?thesis
    by (simp add: live_contents [OF lv])
qed

text \<open>One record is there at the call; a second is appended before its segment is read.\<close>

theorem Replay_sees_snapshot_witness:
  "\<exists>l2 w2. Append None [1, 2, 3] demo_log1 demo_world1 = (Inr 2, l2, w2) \<and>
     replay_segments_at (\<lambda>_. None) (l_segments demo_log1) 0 (l_lastIndex demo_log1) collect [] (\<lambda>_. w2) = (None, [(1, [7])])"
proof -
  have room: "unat (l_lastIndex demo_log1) < 2 ^ 62" and len: "length [1 :: byte, 2, 3] \<le> maxCommandSize"
    by (simp_all add: demo_append(4) record_sizes)
  obtain i l2 w2 where "Append None [1, 2, 3] demo_log1 demo_world1 = (Inr i, l2, w2)" and f2: "faults w2 = []"
    using Append_sound [OF demo_contents(2) room len demo_append(2)] .
  with Append_ok [OF demo_contents(2) room] have app: "Append None [1, 2, 3] demo_log1 demo_world1 = (Inr 2, l2, w2)"
    by (metis demo_append(4) one_add_one)
  have "\<exists>l'. beside demo_log1 demo_world1 l' w2"
    using beside.append [OF beside.start app] by blast
  from Replay_sees_snapshot [OF demo_contents(2) this f2, of 0 collect "[]"] show ?thesis
    using app by (auto simp: demo_contents(1) collect_def)
qed

end
