(* ===== verification/Engine.thy ===== *)
theory Engine
  imports Log "HOL-Library.Monad_Syntax"
begin

text \<open>
  \<^verbatim>\<open>internal/storage/engine.go\<close> and the engine contract of \<^verbatim>\<open>storagetest/contract.go\<close>. The interfaces
  \<^verbatim>\<open>Engine\<close> and \<^verbatim>\<open>Iterator\<close> are records of functions over an engine state and an iterator state. The locale
  \<open>engine\<close> states what their comments promise in terms of a finite map from keys to values; every engine
  that keeps these laws passes the whole contract test suite. Byte slices are values, so the copies the
  code makes are implicit; a nil bound is \<open>None\<close>.
\<close>

subsection \<open>Batches\<close>

record Op =
  op_Key :: bytes
  op_Value :: bytes
  op_Delete :: bool

record Batch =
  ops :: "Op list"

definition empty_batch :: Batch where "empty_batch = \<lparr>ops = []\<rparr>"

definition Batch_Set :: "bytes \<Rightarrow> bytes \<Rightarrow> Batch \<Rightarrow> Batch" where
  "Batch_Set key value b = b\<lparr>ops := ops b @ [\<lparr>op_Key = key, op_Value = value, op_Delete = False\<rparr>]\<rparr>"

definition Batch_Delete :: "bytes \<Rightarrow> Batch \<Rightarrow> Batch" where
  "Batch_Delete key b = b\<lparr>ops := ops b @ [\<lparr>op_Key = key, op_Value = [], op_Delete = True\<rparr>]\<rparr>"

definition Batch_Len :: "Batch \<Rightarrow> nat" where "Batch_Len b = length (ops b)"

definition Batch_Ops :: "Batch \<Rightarrow> Op list" where "Batch_Ops b = ops b"

text \<open>The effect of a batch on a map, the specification of \<^verbatim>\<open>Apply\<close>.\<close>

definition apply_op :: "Op \<Rightarrow> (bytes \<rightharpoonup> bytes) \<Rightarrow> (bytes \<rightharpoonup> bytes)" where
  "apply_op o' m = m(op_Key o' := (if op_Delete o' then None else Some (op_Value o')))"

definition apply_batch :: "Batch \<Rightarrow> (bytes \<rightharpoonup> bytes) \<Rightarrow> (bytes \<rightharpoonup> bytes)" where
  "apply_batch b m = fold apply_op (Batch_Ops b) m"

subsection \<open>The interfaces\<close>

record ('e, 'i) engine_ops =
  e_Get :: "error option \<Rightarrow> bytes \<Rightarrow> 'e \<Rightarrow> error + bytes option"
  e_Apply :: "error option \<Rightarrow> Batch \<Rightarrow> bool \<Rightarrow> 'e \<Rightarrow> error option \<times> 'e"
  e_NewIterator :: "error option \<Rightarrow> bytes option \<Rightarrow> bytes option \<Rightarrow> 'e \<Rightarrow> error + 'i"
  e_Close :: "'e \<Rightarrow> error option \<times> 'e"
  i_Next :: "'i \<Rightarrow> bool \<times> 'i"
  i_Key :: "'i \<Rightarrow> bytes option"
  i_Value :: "'i \<Rightarrow> bytes option"
  i_Err :: "'i \<Rightarrow> error option"
  i_Close :: "'i \<Rightarrow> error option \<times> 'i"

definition in_range :: "bytes option \<Rightarrow> bytes option \<Rightarrow> bytes \<Rightarrow> bool" where
  "in_range lower upper k \<longleftrightarrow>
     (case lower of None \<Rightarrow> True | Some l \<Rightarrow> l \<le> k) \<and> (case upper of None \<Rightarrow> True | Some u \<Rightarrow> k < u)"

definition range_entries :: "(bytes \<rightharpoonup> bytes) \<Rightarrow> bytes option \<Rightarrow> bytes option \<Rightarrow> (bytes \<times> bytes) list" where
  "range_entries m lower upper =
     map (\<lambda>k. (k, the (m k))) (sorted_list_of_set {k \<in> dom m. in_range lower upper k})"

text \<open>The loop \<^verbatim>\<open>for it.Next()\<close> that reads keys and values; it is undefined if it never ends or panics.\<close>

partial_function (option) drain ::
  "('e, 'i) engine_ops \<Rightarrow> 'i \<Rightarrow> ((bytes \<times> bytes) list \<times> 'i) option" where
  "drain E it =
     (case i_Next E it of
        (found, it) \<Rightarrow>
          if found then
            Option.bind (i_Key E it) (\<lambda>k. Option.bind (i_Value E it) (\<lambda>v.
              Option.bind (drain E it) (\<lambda>(kvs, it). Some ((k, v) # kvs, it))))
          else Some ([], it))"

subsection \<open>The contract tests (contract.go)\<close>

text \<open>A test is a computation that fails with \<open>None\<close>; \<open>require\<close> is a failed assertion that ends it.\<close>

definition require :: "bool \<Rightarrow> unit option" where "require b = (if b then Some () else None)"

definition no_error :: "error option \<times> 'a \<Rightarrow> 'a option" where
  "no_error r = (case r of (None, x) \<Rightarrow> Some x | (Some _, _) \<Rightarrow> None)"

definition no_error_value :: "error + 'a \<Rightarrow> 'a option" where
  "no_error_value r = (case r of Inr x \<Rightarrow> Some x | Inl _ \<Rightarrow> None)"

definition contract_set :: "('e, 'i) engine_ops \<Rightarrow> 'e \<Rightarrow> bytes \<Rightarrow> bytes \<Rightarrow> 'e option" where
  "contract_set E e key value = no_error (e_Apply E None (Batch_Set key value empty_batch) True e)"

definition contract_get :: "('e, 'i) engine_ops \<Rightarrow> 'e \<Rightarrow> bytes \<Rightarrow> bytes option option" where
  "contract_get E e key = no_error_value (e_Get E None key e)"

definition contract_scan ::
  "('e, 'i) engine_ops \<Rightarrow> 'e \<Rightarrow> bytes option \<Rightarrow> bytes option \<Rightarrow> bytes list option" where
  "contract_scan E e lower upper = do {
     it \<leftarrow> no_error_value (e_NewIterator E None lower upper e);
     (kvs, it) \<leftarrow> drain E it;
     require (i_Err E it = None);
     _ \<leftarrow> no_error (i_Close E it);
     Some (map fst kvs)
   }"

definition contractMissingKey :: "('e, 'i) engine_ops \<Rightarrow> 'e \<Rightarrow> unit option" where
  "contractMissingKey E e = do {
     v \<leftarrow> contract_get E e (str ''absent'');
     require (v = None)
   }"

definition contractSetOverwriteDelete :: "('e, 'i) engine_ops \<Rightarrow> 'e \<Rightarrow> unit option" where
  "contractSetOverwriteDelete E e = do {
     e \<leftarrow> contract_set E e (str ''k'') (str ''v1'');
     v \<leftarrow> contract_get E e (str ''k'');
     require (v = Some (str ''v1''));
     e \<leftarrow> contract_set E e (str ''k'') (str ''v2'');
     v \<leftarrow> contract_get E e (str ''k'');
     require (v = Some (str ''v2''));
     e \<leftarrow> no_error (e_Apply E None (Batch_Delete (str ''k'') empty_batch) True e);
     v \<leftarrow> contract_get E e (str ''k'');
     require (v = None)
   }"

definition contractBatch :: "('e, 'i) engine_ops \<Rightarrow> 'e \<Rightarrow> unit option" where
  "contractBatch E e = do {
     e \<leftarrow> contract_set E e (str ''gone'') (str ''x'');
     let b = Batch_Delete (str ''gone'')
       (Batch_Set (str ''b'') (str ''2'') (Batch_Set (str ''a'') (str ''1'') empty_batch));
     require (Batch_Len b = 3);
     e \<leftarrow> no_error (e_Apply E None b False e);
     ks \<leftarrow> contract_scan E e None None;
     require (ks = [str ''a'', str ''b''])
   }"

definition contractLastOpWins :: "('e, 'i) engine_ops \<Rightarrow> 'e \<Rightarrow> unit option" where
  "contractLastOpWins E e = do {
     let b = Batch_Set (str ''k'') (str ''last'')
       (Batch_Delete (str ''k'') (Batch_Set (str ''k'') (str ''first'') empty_batch));
     e \<leftarrow> no_error (e_Apply E None b True e);
     v \<leftarrow> contract_get E e (str ''k'');
     require (v = Some (str ''last''))
   }"

text \<open>
  With slices as values, the test that overwrites the caller's buffers after \<^verbatim>\<open>Set\<close> and the returned value
  after \<^verbatim>\<open>Get\<close> reads the same key twice.
\<close>

definition contractValuesAreCopies :: "('e, 'i) engine_ops \<Rightarrow> 'e \<Rightarrow> unit option" where
  "contractValuesAreCopies E e = do {
     e \<leftarrow> no_error (e_Apply E None (Batch_Set (str ''k'') (str ''original'') empty_batch) True e);
     got \<leftarrow> contract_get E e (str ''k'');
     require (got = Some (str ''original''));
     again \<leftarrow> contract_get E e (str ''k'');
     require (again = Some (str ''original''))
   }"

definition contractUnsignedOrder :: "('e, 'i) engine_ops \<Rightarrow> 'e \<Rightarrow> unit option" where
  "contractUnsignedOrder E e = do {
     e \<leftarrow> contract_set E e [0xFF] (str ''v'');
     e \<leftarrow> contract_set E e (str ''b'') (str ''v'');
     e \<leftarrow> contract_set E e [0x00] (str ''v'');
     e \<leftarrow> contract_set E e (str ''a'') (str ''v'');
     e \<leftarrow> contract_set E e [0x80] (str ''v'');
     e \<leftarrow> contract_set E e (str ''ab'') (str ''v'');
     ks \<leftarrow> contract_scan E e None None;
     require (ks = [[0x00], str ''a'', str ''ab'', str ''b'', [0x80], [0xFF]])
   }"

definition contractBounds :: "('e, 'i) engine_ops \<Rightarrow> 'e \<Rightarrow> unit option" where
  "contractBounds E e = do {
     e \<leftarrow> contract_set E e (str ''a'') (str ''v'');
     e \<leftarrow> contract_set E e (str ''b'') (str ''v'');
     e \<leftarrow> contract_set E e (str ''c'') (str ''v'');
     e \<leftarrow> contract_set E e (str ''d'') (str ''v'');
     ks \<leftarrow> contract_scan E e (Some (str ''b'')) (Some (str ''d''));
     require (ks = [str ''b'', str ''c'']);
     ks \<leftarrow> contract_scan E e (Some (str ''c'')) None;
     require (ks = [str ''c'', str ''d'']);
     ks \<leftarrow> contract_scan E e None (Some (str ''b''));
     require (ks = [str ''a'']);
     ks \<leftarrow> contract_scan E e (Some (str ''b'')) (Some (str ''b''));
     require (ks = [])
   }"

definition contractSnapshot :: "('e, 'i) engine_ops \<Rightarrow> 'e \<Rightarrow> unit option" where
  "contractSnapshot E e = do {
     e \<leftarrow> contract_set E e (str ''a'') (str ''v'');
     it \<leftarrow> no_error_value (e_NewIterator E None None None e);
     e \<leftarrow> contract_set E e (str ''b'') (str ''v'');
     (kvs, it) \<leftarrow> drain E it;
     require (list_all (\<lambda>kv. snd kv = str ''v'') kvs);
     require (i_Err E it = None);
     _ \<leftarrow> no_error (i_Close E it);
     require (map fst kvs = [str ''a''])
   }"

definition contractEmptyIteration :: "('e, 'i) engine_ops \<Rightarrow> 'e \<Rightarrow> unit option" where
  "contractEmptyIteration E e = do {
     ks \<leftarrow> contract_scan E e None None;
     require (ks = [])
   }"

definition err_reason :: "error + 'a \<Rightarrow> reason" where
  "err_reason r = (case r of Inl e \<Rightarrow> ReasonOf (Some e) | Inr _ \<Rightarrow> ReasonOf None)"

definition contractCanceledContext :: "('e, 'i) engine_ops \<Rightarrow> 'e \<Rightarrow> unit option" where
  "contractCanceledContext E e = do {
     let canceled = Some context_Canceled;
     require (err_reason (e_Get E canceled (str ''k'') e) = ReasonCanceled);
     let (err, e) = e_Apply E canceled empty_batch True e;
     require (ReasonOf err = ReasonCanceled);
     require (err_reason (e_NewIterator E canceled None None e) = ReasonCanceled)
   }"

definition contractClosed :: "('e, 'i) engine_ops \<Rightarrow> 'e \<Rightarrow> unit option" where
  "contractClosed E e = do {
     e \<leftarrow> no_error (e_Close E e);
     e \<leftarrow> no_error (e_Close E e);
     require (isl (e_Get E None (str ''k'') e));
     let (err, e) = e_Apply E None empty_batch True e;
     require (err \<noteq> None);
     require (isl (e_NewIterator E None None None e))
   }"

definition RunEngineContract :: "('e, 'i) engine_ops \<Rightarrow> 'e \<Rightarrow> bool" where
  "RunEngineContract E e \<longleftrightarrow>
     list_all (\<lambda>test. test E e = Some ())
       [contractMissingKey, contractSetOverwriteDelete, contractBatch, contractLastOpWins,
        contractValuesAreCopies, contractUnsignedOrder, contractBounds, contractSnapshot, contractEmptyIteration,
        contractCanceledContext, contractClosed]"

lemma str_simps: "str ''a'' = [0x61]" "str ''ab'' = [0x61, 0x62]" "str ''b'' = [0x62]" "str ''c'' = [0x63]"
    "str ''d'' = [0x64]" "str ''gone'' = [0x67, 0x6F, 0x6E, 0x65]" "str ''v1'' \<noteq> str ''v2''"
  by (simp_all add: str_def)

lemma range_keys:
  assumes "sorted ks" and "distinct ks" and "set ks = {k \<in> dom m. in_range lower upper k}"
  shows "map fst (range_entries m lower upper) = ks"
proof -
  have "map fst (range_entries m lower upper) = sorted_list_of_set (set ks)"
    unfolding assms(3) by (simp add: range_entries_def comp_def)
  also have "\<dots> = ks"
    using assms(1,2) by (rule sorted_list_of_set.idem_if_sorted_distinct)
  finally show ?thesis .
qed

subsection \<open>The contract as a locale\<close>

locale engine =
  fixes E :: "('e, 'i) engine_ops"
    and view :: "'e \<Rightarrow> (bytes \<rightharpoonup> bytes)"
    and usable :: "'e \<Rightarrow> bool"
    and shut :: "'e \<Rightarrow> bool"
    and iter :: "'i \<Rightarrow> bool"
    and rest :: "'i \<Rightarrow> (bytes \<times> bytes) list"
  assumes finite_view: "usable e \<Longrightarrow> finite (dom (view e))"
    and get: "usable e \<Longrightarrow> e_Get E None k e = Inr (view e k)"
    and applies: "usable e \<Longrightarrow> \<exists>e'. e_Apply E None b sync e = (None, e') \<and> usable e'
      \<and> view e' = apply_batch b (view e)"
    and iterate: "usable e \<Longrightarrow> \<exists>it. e_NewIterator E None lower upper e = Inr it
      \<and> iter it \<and> rest it = range_entries (view e) lower upper"
    and next_end: "iter it \<Longrightarrow> rest it = [] \<Longrightarrow> \<exists>it'. i_Next E it = (False, it') \<and> iter it' \<and> rest it' = [] \<and> i_Err E it' = None
      \<and> fst (i_Close E it') = None"
    and next_more: "iter it \<Longrightarrow> rest it = (k, v) # kvs \<Longrightarrow> \<exists>it'. i_Next E it = (True, it') \<and> iter it' \<and> rest it' = kvs
      \<and> i_Key E it' = Some k \<and> i_Value E it' = Some v"
    and canceled: "usable e \<Longrightarrow> c \<in> {context_Canceled, context_DeadlineExceeded} \<Longrightarrow> \<exists>err. ReasonOf (Some err) = ReasonOf (Some c)
      \<and> e_Get E (Some c) k e = Inl err \<and> e_Apply E (Some c) b sync e = (Some err, e)
      \<and> e_NewIterator E (Some c) lower upper e = Inl err"
    and close: "usable e \<or> shut e \<Longrightarrow> \<exists>e'. e_Close E e = (None, e') \<and> shut e'"
    and closed: "shut e \<Longrightarrow> isl (e_Get E ctx k e) \<and> isl (e_NewIterator E ctx lower upper e)
      \<and> (\<exists>err. e_Apply E ctx b sync e = (Some err, e))"
begin

text \<open>Draining an iterator ends and yields exactly the entries it had left.\<close>

lemma drain_rest:
  "iter it \<Longrightarrow> \<exists>it'. drain E it = Some (rest it, it') \<and> i_Err E it' = None \<and> fst (i_Close E it') = None"
proof (induction "rest it" arbitrary: it)
  case Nil
  then show ?case
    using next_end [of it] by (subst drain.simps) auto
next
  case (Cons kv kvs)
  obtain k v where kv: "kv = (k, v)" by fastforce
  then obtain it' where it': "i_Next E it = (True, it')" "rest it' = kvs" "i_Key E it' = Some k"
      "i_Value E it' = Some v" "iter it'"
    using next_more [of it k v kvs] Cons.hyps(2) Cons.prems by auto
  obtain it2 where "drain E it' = Some (kvs, it2)" "i_Err E it2 = None" "fst (i_Close E it2) = None"
    using Cons.hyps(1) [of it'] it'(2,5) by auto
  then show ?case
    using it' Cons.hyps(2) kv by (subst drain.simps) (auto simp flip: Cons.hyps(2))
qed

lemma get_ok [simp]: "usable e \<Longrightarrow> contract_get E e k = Some (view e k)"
  by (simp add: contract_get_def no_error_value_def get)

lemma set_ok: "usable e \<Longrightarrow> \<exists>e'. contract_set E e k v = Some e' \<and> usable e' \<and> view e' = (view e)(k \<mapsto> v)"
  using applies [of e "Batch_Set k v empty_batch" True]
  by (auto simp: contract_set_def no_error_def apply_batch_def Batch_Ops_def Batch_Set_def empty_batch_def apply_op_def)

lemma apply_ok: "usable e \<Longrightarrow> \<exists>e'. no_error (e_Apply E None b sync e) = Some e' \<and> usable e'
    \<and> view e' = apply_batch b (view e)"
  using applies [of e b sync] by (auto simp: no_error_def)

lemma scan_ok: "usable e \<Longrightarrow> contract_scan E e lower upper = Some (map fst (range_entries (view e) lower upper))"
proof -
  assume "usable e"
  then obtain it where it: "e_NewIterator E None lower upper e = Inr it" "rest it = range_entries (view e) lower upper"
    "iter it"
    using iterate by blast
  obtain it' where "drain E it = Some (rest it, it')" "i_Err E it' = None" "fst (i_Close E it') = None"
    using drain_rest [OF it(3)] by blast
  with it show ?thesis
    by (cases "i_Close E it'") (auto simp: contract_scan_def no_error_value_def require_def no_error_def)
qed

text \<open>Running a test: each step is discharged by the law behind it.\<close>

lemma set_bind:
  assumes "usable e" and "\<And>e'. usable e' \<Longrightarrow> view e' = (view e)(k \<mapsto> v) \<Longrightarrow> f e' = Some ()"
  shows "Option.bind (contract_set E e k v) f = Some ()"
  using set_ok [OF assms(1), of k v] assms(2) by auto

lemma apply_bind:
  assumes "usable e" and "\<And>e'. usable e' \<Longrightarrow> view e' = apply_batch b (view e) \<Longrightarrow> f e' = Some ()"
  shows "Option.bind (no_error (e_Apply E None b sync e)) f = Some ()"
  using apply_ok [OF assms(1), of b sync] assms(2) by auto

lemmas batch_defs = apply_batch_def Batch_Ops_def Batch_Set_def Batch_Delete_def empty_batch_def apply_op_def

lemma passes_simple:
  assumes "usable e" and "view e = Map.empty"
  shows "contractMissingKey E e = Some ()" "contractSetOverwriteDelete E e = Some ()"
    "contractLastOpWins E e = Some ()" "contractValuesAreCopies E e = Some ()"
proof -
  show "contractValuesAreCopies E e = Some ()"
    unfolding contractValuesAreCopies_def
    by (rule apply_bind [OF assms(1)]) (simp add: require_def batch_defs)
  show "contractMissingKey E e = Some ()"
    using assms by (simp add: contractMissingKey_def require_def)
  show "contractSetOverwriteDelete E e = Some ()"
    unfolding contractSetOverwriteDelete_def
    by (rule set_bind [OF assms(1)], simp add: require_def, rule set_bind, assumption, simp add: require_def,
        rule apply_bind, assumption) (simp add: require_def batch_defs)
  show "contractLastOpWins E e = Some ()"
    unfolding contractLastOpWins_def Let_def
    by (rule apply_bind [OF assms(1)]) (simp add: require_def batch_defs)
qed

lemma passes_batch:
  assumes "usable e" and "view e = Map.empty"
  shows "contractBatch E e = Some ()"
  unfolding contractBatch_def Let_def
proof (rule set_bind [OF assms(1)])
  let ?b = "Batch_Delete (str ''gone'') (Batch_Set (str ''b'') (str ''2'') (Batch_Set (str ''a'') (str ''1'') empty_batch))"
  fix e1 assume e1: "usable e1" "view e1 = (view e)(str ''gone'' \<mapsto> str ''x'')"
  have "Option.bind (no_error (e_Apply E None ?b False e1))
      (\<lambda>e. Option.bind (contract_scan E e None None) (\<lambda>ks. require (ks = [str ''a'', str ''b'']))) = Some ()"
  proof (rule apply_bind [OF e1(1)])
    fix e2 assume e2: "usable e2" "view e2 = apply_batch ?b (view e1)"
    have "map fst (range_entries (view e2) None None) = [str ''a'', str ''b'']"
      by (rule range_keys) (auto simp: e2 e1 assms batch_defs str_simps in_range_def split: if_splits)
    then show "Option.bind (contract_scan E e2 None None) (\<lambda>ks. require (ks = [str ''a'', str ''b''])) = Some ()"
      by (simp add: scan_ok [OF e2(1)] require_def)
  qed
  then show "Option.bind (require (Batch_Len ?b = 3)) (\<lambda>_. Option.bind (no_error (e_Apply E None ?b False e1))
      (\<lambda>e. Option.bind (contract_scan E e None None) (\<lambda>ks. require (ks = [str ''a'', str ''b''])))) = Some ()"
    by (simp add: require_def Batch_Len_def batch_defs)
qed

lemma passes_order:
  assumes "usable e" and "view e = Map.empty"
  shows "contractUnsignedOrder E e = Some ()"
  unfolding contractUnsignedOrder_def
proof ((rule set_bind, fact assms)?, (rule set_bind, assumption)+)
  fix e1 e2 e3 e4 e5 e6
  assume u: "usable e6" and v: "view e1 = (view e)([0xFF] \<mapsto> str ''v'')" "view e2 = (view e1)(str ''b'' \<mapsto> str ''v'')"
    "view e3 = (view e2)([0x00] \<mapsto> str ''v'')" "view e4 = (view e3)(str ''a'' \<mapsto> str ''v'')"
    "view e5 = (view e4)([0x80] \<mapsto> str ''v'')" "view e6 = (view e5)(str ''ab'' \<mapsto> str ''v'')"
  have "map fst (range_entries (view e6) None None) = [[0x00], str ''a'', str ''ab'', str ''b'', [0x80], [0xFF]]"
    by (rule range_keys) (auto simp: v assms str_simps in_range_def split: if_splits)
  then show "Option.bind (contract_scan E e6 None None)
      (\<lambda>ks. require (ks = [[0x00], str ''a'', str ''ab'', str ''b'', [0x80], [0xFF]])) = Some ()"
    by (simp add: scan_ok [OF u] require_def)
qed

lemma passes_bounds:
  assumes "usable e" and "view e = Map.empty"
  shows "contractBounds E e = Some ()"
  unfolding contractBounds_def
proof ((rule set_bind, fact assms)?, (rule set_bind, assumption)+)
  fix e1 e2 e3 e4
  assume u: "usable e4" and v: "view e1 = (view e)(str ''a'' \<mapsto> str ''v'')" "view e2 = (view e1)(str ''b'' \<mapsto> str ''v'')"
    "view e3 = (view e2)(str ''c'' \<mapsto> str ''v'')" "view e4 = (view e3)(str ''d'' \<mapsto> str ''v'')"
  note facts = v assms str_simps in_range_def
  have "map fst (range_entries (view e4) (Some (str ''b'')) (Some (str ''d''))) = [str ''b'', str ''c'']"
    by (rule range_keys) (auto simp: facts split: if_splits)
  moreover have "map fst (range_entries (view e4) (Some (str ''c'')) None) = [str ''c'', str ''d'']"
    by (rule range_keys) (auto simp: facts split: if_splits)
  moreover have "map fst (range_entries (view e4) None (Some (str ''b''))) = [str ''a'']"
    by (rule range_keys) (auto simp: facts split: if_splits)
  moreover have "map fst (range_entries (view e4) (Some (str ''b'')) (Some (str ''b''))) = []"
    by (rule range_keys) (auto simp: facts split: if_splits)
  ultimately show "do {
     ks \<leftarrow> contract_scan E e4 (Some (str ''b'')) (Some (str ''d''));
     require (ks = [str ''b'', str ''c'']);
     ks \<leftarrow> contract_scan E e4 (Some (str ''c'')) None;
     require (ks = [str ''c'', str ''d'']);
     ks \<leftarrow> contract_scan E e4 None (Some (str ''b''));
     require (ks = [str ''a'']);
     ks \<leftarrow> contract_scan E e4 (Some (str ''b'')) (Some (str ''b''));
     require (ks = [])
   } = Some ()"
    by (simp add: scan_ok [OF u] require_def)
qed

lemma passes_iteration:
  assumes "usable e" and "view e = Map.empty"
  shows "contractSnapshot E e = Some ()" "contractEmptyIteration E e = Some ()"
proof -
  show "contractEmptyIteration E e = Some ()"
    by (simp add: contractEmptyIteration_def scan_ok assms require_def range_entries_def)
  show "contractSnapshot E e = Some ()"
    unfolding contractSnapshot_def
  proof (rule set_bind [OF assms(1)])
    fix e1 assume e1: "usable e1" "view e1 = (view e)(str ''a'' \<mapsto> str ''v'')"
    obtain it where it: "e_NewIterator E None None None e1 = Inr it" "rest it = range_entries (view e1) None None" "iter it"
      using iterate [OF e1(1)] by blast
    obtain it' where dr: "drain E it = Some (rest it, it')" "i_Err E it' = None" "fst (i_Close E it') = None"
      using drain_rest [OF it(3)] by blast
    obtain e2 where e2: "contract_set E e1 (str ''b'') (str ''v'') = Some e2"
      using set_ok [OF e1(1)] by blast
    have "rest it = [(str ''a'', str ''v'')]"
      by (simp add: it e1 assms range_entries_def in_range_def)
    with it(1) dr e2 show "do {
       it \<leftarrow> no_error_value (e_NewIterator E None None None e1);
       e \<leftarrow> contract_set E e1 (str ''b'') (str ''v'');
       (kvs, it) \<leftarrow> drain E it;
       require (list_all (\<lambda>kv. snd kv = str ''v'') kvs);
       require (i_Err E it = None);
       _ \<leftarrow> no_error (i_Close E it);
       require (map fst kvs = [str ''a''])
     } = Some ()"
      by (cases "i_Close E it'") (simp add: no_error_value_def require_def no_error_def)
  qed
qed

lemma passes_refusals:
  assumes "usable e"
  shows "contractCanceledContext E e = Some ()" "contractClosed E e = Some ()"
proof -
  have r: "ReasonOf (Some context_Canceled) = ReasonCanceled"
    by (simp add: ReasonOf_def context_Canceled_def)
  show "contractCanceledContext E e = Some ()"
    using canceled [OF assms, of context_Canceled "str ''k''" empty_batch True None None]
    by (auto simp: contractCanceledContext_def err_reason_def require_def r)
  obtain e1 where e1: "e_Close E e = (None, e1)" "shut e1"
    using close assms by blast
  obtain e2 where e2: "e_Close E e1 = (None, e2)" "shut e2"
    using close e1(2) by blast
  show "contractClosed E e = Some ()"
    using closed [OF e2(2), of None "str ''k''" None None empty_batch True] e1 e2
    by (auto simp: contractClosed_def no_error_def require_def)
qed

lemma passes_contract:
  "usable e \<Longrightarrow> view e = Map.empty \<Longrightarrow> RunEngineContract E e"
  by (simp add: RunEngineContract_def passes_simple passes_batch passes_order passes_bounds
      passes_iteration passes_refusals)

end

end
