(* ===== verification/MemEngine.thy ===== *)
theory MemEngine
  imports Engine
begin

text \<open>
  \<^verbatim>\<open>storagetest/memengine.go\<close>: the in-memory engine. The Go map is an association list without duplicate
  keys; the order of its entries stands for the map's iteration order, and nothing observable depends
  on it. The engine keeps the laws of the locale \<open>engine\<close>, so it passes the contract.
\<close>

subsection \<open>Engine\<close>

record MemEngine =
  data :: "(bytes \<times> bytes) list"
  m_closed :: bool

definition NewMemEngine :: MemEngine where
  "NewMemEngine = \<lparr>data = [], m_closed = False\<rparr>"

definition errMemClosed :: error where "errMemClosed = Sentinel ''errMemClosed'' ''closed''"

definition MemEngine_usable :: "MemEngine \<Rightarrow> error option \<Rightarrow> error option" where
  "MemEngine_usable e ctx =
     (if m_closed e then Some (internal errMemClosed ''storage engine is closed'')
      else
        (case ctx of
           None \<Rightarrow> None
         | Some err \<Rightarrow> Some (KV (Some (Wrap (ReasonOf (Some err)) err '''')))))"

definition MemEngine_Get :: "error option \<Rightarrow> bytes \<Rightarrow> MemEngine \<Rightarrow> error + bytes option" where
  "MemEngine_Get ctx key e =
     (case MemEngine_usable e ctx of Some err \<Rightarrow> Inl err | None \<Rightarrow> Inr (map_of (data e) key))"

definition map_delete :: "bytes \<Rightarrow> (bytes \<times> bytes) list \<Rightarrow> (bytes \<times> bytes) list" where
  "map_delete k kvs = filter (\<lambda>kv. fst kv \<noteq> k) kvs"

definition map_store :: "bytes \<Rightarrow> bytes \<Rightarrow> (bytes \<times> bytes) list \<Rightarrow> (bytes \<times> bytes) list" where
  "map_store k v kvs = (k, v) # map_delete k kvs"

definition apply_mem_op :: "Op \<Rightarrow> (bytes \<times> bytes) list \<Rightarrow> (bytes \<times> bytes) list" where
  "apply_mem_op o' kvs =
     (if op_Delete o' then map_delete (op_Key o') kvs else map_store (op_Key o') (op_Value o') kvs)"

definition MemEngine_Apply ::
  "error option \<Rightarrow> Batch \<Rightarrow> bool \<Rightarrow> MemEngine \<Rightarrow> error option \<times> MemEngine" where
  "MemEngine_Apply ctx b sync e =
     (case MemEngine_usable e ctx of
        Some err \<Rightarrow> (Some err, e)
      | None \<Rightarrow> (None, e\<lparr>data := fold apply_mem_op (Batch_Ops b) (data e)\<rparr>))"

definition MemEngine_Close :: "MemEngine \<Rightarrow> error option \<times> MemEngine" where
  "MemEngine_Close e = (None, e\<lparr>m_closed := True, data := []\<rparr>)"

subsection \<open>Iterator\<close>

type_synonym memEntry = "bytes \<times> bytes"

record memIterator =
  entries :: "memEntry list"
  pos :: int

definition MemEngine_NewIterator ::
  "error option \<Rightarrow> bytes option \<Rightarrow> bytes option \<Rightarrow> MemEngine \<Rightarrow> error + memIterator" where
  "MemEngine_NewIterator ctx lower upper e =
     (case MemEngine_usable e ctx of
        Some err \<Rightarrow> Inl err
      | None \<Rightarrow>
          Inr \<lparr>entries = sort_key fst
                 (filter (\<lambda>(k, v).
                    \<not> ((case lower of None \<Rightarrow> False | Some l \<Rightarrow> k < l) \<or>
                       (case upper of None \<Rightarrow> False | Some u \<Rightarrow> u \<le> k))) (data e)),
               pos = -1\<rparr>)"

definition memIterator_Next :: "memIterator \<Rightarrow> bool \<times> memIterator" where
  "memIterator_Next i =
     (let i = (if pos i < int (length (entries i)) then i\<lparr>pos := pos i + 1\<rparr> else i)
      in (pos i < int (length (entries i)), i))"

text \<open>Indexing out of range panics, which is \<open>None\<close>.\<close>

definition current :: "memIterator \<Rightarrow> memEntry option" where
  "current i =
     (if 0 \<le> pos i \<and> pos i < int (length (entries i)) then Some (entries i ! nat (pos i)) else None)"

definition memIterator_Key :: "memIterator \<Rightarrow> bytes option" where
  "memIterator_Key i = map_option fst (current i)"

definition memIterator_Value :: "memIterator \<Rightarrow> bytes option" where
  "memIterator_Value i = map_option snd (current i)"

definition memIterator_Err :: "memIterator \<Rightarrow> error option" where
  "memIterator_Err i = None"

definition memIterator_Close :: "memIterator \<Rightarrow> error option \<times> memIterator" where
  "memIterator_Close i = (None, i\<lparr>entries := []\<rparr>)"

definition mem_ops :: "(MemEngine, memIterator) engine_ops" where
  "mem_ops =
     \<lparr>e_Get = MemEngine_Get, e_Apply = MemEngine_Apply, e_NewIterator = MemEngine_NewIterator,
      e_Close = MemEngine_Close, i_Next = memIterator_Next, i_Key = memIterator_Key,
      i_Value = memIterator_Value, i_Err = memIterator_Err, i_Close = memIterator_Close\<rparr>"

subsection \<open>The laws hold\<close>

text \<open>
  An open engine has no duplicate keys. Iterators reached through the interface have a position of at
  least -1; what is left to visit is behind the position.
\<close>

definition mem_ok :: "MemEngine \<Rightarrow> bool" where
  "mem_ok e \<longleftrightarrow> \<not> m_closed e \<and> distinct (map fst (data e))"

definition mem_view :: "MemEngine \<Rightarrow> (bytes \<rightharpoonup> bytes)" where
  "mem_view e = map_of (data e)"

definition mem_rest :: "memIterator \<Rightarrow> (bytes \<times> bytes) list" where
  "mem_rest i = drop (nat (pos i + 1)) (entries i)"

lemma map_of_mem_op:
  "map_of (apply_mem_op o' kvs) = apply_op o' (map_of kvs)"
  "distinct (map fst kvs) \<Longrightarrow> distinct (map fst (apply_mem_op o' kvs))"
  by (auto simp: apply_mem_op_def apply_op_def map_delete_def map_store_def map_of_filter_neq distinct_map_filter fun_eq_iff)

lemma map_of_mem_ops:
  "map_of (fold apply_mem_op os kvs) = fold apply_op os (map_of kvs)"
  "distinct (map fst kvs) \<Longrightarrow> distinct (map fst (fold apply_mem_op os kvs))"
  by (induction os arbitrary: kvs) (simp_all add: map_of_mem_op)

text \<open>The sorted snapshot does not depend on the iteration order of the map.\<close>

lemma sorted_snapshot:
  assumes "distinct (map fst kvs)"
  shows "sort_key fst (filter (\<lambda>(k, v). P k) kvs) =
    map (\<lambda>k. (k, the (map_of kvs k))) (sorted_list_of_set {k \<in> dom (map_of kvs). P k})" (is "?l = ?r")
proof -
  have keys: "set (map fst ?l) = {k \<in> dom (map_of kvs). P k}"
    by (auto simp: dom_map_of_conv_image_fst)
  have "distinct (map fst ?l)"
    using assms distinct_map_filter [of fst kvs "\<lambda>(k, v). P k"] by (simp add: distinct_map)
  then have fsts: "map fst ?l = map fst ?r"
    using keys sorted_list_of_set.idem_if_sorted_distinct [of "map fst ?l"]
    by (simp add: comp_def)
  have "snd p = the (map_of kvs (fst p))" if "p \<in> set ?l" for p
    using that assms by (auto simp: map_of_is_SomeI)
  then have "map (\<lambda>p. (fst p, the (map_of kvs (fst p)))) ?l = ?l"
    by (intro map_idI) (metis prod.collapse)
  then have "?l = map (\<lambda>k. (k, the (map_of kvs k))) (map fst ?l)"
    by (simp add: comp_def)
  also have "\<dots> = ?r"
    unfolding fsts by (simp add: comp_def)
  finally show ?thesis .
qed

lemma snapshot_entries:
  assumes "mem_ok e"
  shows "sort_key fst (filter (\<lambda>(k, v). \<not> ((case lower of None \<Rightarrow> False | Some l \<Rightarrow> k < l) \<or>
      (case upper of None \<Rightarrow> False | Some u \<Rightarrow> u \<le> k))) (data e)) = range_entries (mem_view e) lower upper"
proof -
  have "\<not> ((case lower of None \<Rightarrow> False | Some l \<Rightarrow> k < l) \<or> (case upper of None \<Rightarrow> False | Some u \<Rightarrow> u \<le> k))
      \<longleftrightarrow> in_range lower upper k" for k
    by (auto simp: in_range_def not_less not_le split: option.splits)
  then show ?thesis
    using sorted_snapshot [of "data e" "in_range lower upper"] assms
    by (simp add: range_entries_def mem_view_def mem_ok_def)
qed

lemma Wrap_reason:
  "c \<in> {context_Canceled, context_DeadlineExceeded} \<Longrightarrow>
     ReasonOf (Some (KV (Some (Wrap (ReasonOf (Some c)) c '''')))) = ReasonOf (Some c)"
  by (auto simp: ReasonOf_def context_Canceled_def context_DeadlineExceeded_def New_registered)

interpretation mem: engine mem_ops mem_view mem_ok m_closed "\<lambda>i. -1 \<le> pos i" mem_rest
proof
  fix e :: MemEngine and b sync lower upper k c ctx
  show "mem_ok e \<Longrightarrow> finite (dom (mem_view e))"
    by (simp add: mem_view_def finite_dom_map_of)
  show "mem_ok e \<Longrightarrow> e_Get mem_ops None k e = Inr (mem_view e k)"
    by (simp add: mem_ops_def MemEngine_Get_def MemEngine_usable_def mem_ok_def mem_view_def)
  show "mem_ok e \<Longrightarrow> \<exists>e'. e_Apply mem_ops None b sync e = (None, e') \<and> mem_ok e'
      \<and> mem_view e' = apply_batch b (mem_view e)"
    by (simp add: mem_ops_def MemEngine_Apply_def MemEngine_usable_def mem_ok_def mem_view_def
        apply_batch_def map_of_mem_ops)
  show "mem_ok e \<Longrightarrow> \<exists>it. e_NewIterator mem_ops None lower upper e = Inr it \<and> -1 \<le> pos it
      \<and> mem_rest it = range_entries (mem_view e) lower upper"
    using snapshot_entries [of e lower upper]
    by (simp add: mem_ops_def MemEngine_NewIterator_def MemEngine_usable_def mem_ok_def mem_rest_def)
  show "mem_ok e \<Longrightarrow> c \<in> {context_Canceled, context_DeadlineExceeded} \<Longrightarrow> \<exists>err. ReasonOf (Some err) = ReasonOf (Some c)
      \<and> e_Get mem_ops (Some c) k e = Inl err \<and> e_Apply mem_ops (Some c) b sync e = (Some err, e)
      \<and> e_NewIterator mem_ops (Some c) lower upper e = Inl err"
    by (simp add: mem_ops_def MemEngine_Get_def MemEngine_Apply_def MemEngine_NewIterator_def
        MemEngine_usable_def mem_ok_def Wrap_reason del: insert_iff)
  show "mem_ok e \<or> m_closed e \<Longrightarrow> \<exists>e'. e_Close mem_ops e = (None, e') \<and> m_closed e'"
    by (simp add: mem_ops_def MemEngine_Close_def)
  show "m_closed e \<Longrightarrow> isl (e_Get mem_ops ctx k e) \<and> isl (e_NewIterator mem_ops ctx lower upper e)
      \<and> (\<exists>err. e_Apply mem_ops ctx b sync e = (Some err, e))"
    by (simp add: mem_ops_def MemEngine_Get_def MemEngine_Apply_def MemEngine_NewIterator_def MemEngine_usable_def)
next
  fix it :: memIterator and k v kvs
  show "-1 \<le> pos it \<Longrightarrow> mem_rest it = [] \<Longrightarrow> \<exists>it'. i_Next mem_ops it = (False, it') \<and> -1 \<le> pos it'
      \<and> mem_rest it' = [] \<and> i_Err mem_ops it' = None \<and> fst (i_Close mem_ops it') = None"
    by (auto simp: mem_ops_def memIterator_Next_def mem_rest_def memIterator_Err_def memIterator_Close_def Let_def)
  assume p: "-1 \<le> pos it" and r: "mem_rest it = (k, v) # kvs"
  then have lt: "nat (pos it + 1) < length (entries it)"
    by (metis drop_eq_Nil list.distinct(1) mem_rest_def not_le)
  have "entries it ! nat (pos it + 1) = (k, v)" "drop (Suc (nat (pos it + 1))) (entries it) = kvs"
    using r lt by (auto simp: mem_rest_def Cons_nth_drop_Suc [symmetric])
  with p lt show "\<exists>it'. i_Next mem_ops it = (True, it') \<and> -1 \<le> pos it' \<and> mem_rest it' = kvs
      \<and> i_Key mem_ops it' = Some k \<and> i_Value mem_ops it' = Some v"
    by (auto simp: mem_ops_def memIterator_Next_def mem_rest_def memIterator_Key_def memIterator_Value_def
        current_def Let_def nat_add_distrib)
qed

subsection \<open>Properties\<close>


text \<open>
  C25: Reads see writes: after a batch was applied to an open engine, reading a key returns the value of
  the last write to it in the batch, nothing if that was a delete, and the old value if the batch does
  not touch the key.
\<close>

theorem MemEngine_get_after_apply:
  assumes "mem_ok e"
  shows "\<exists>e'. MemEngine_Apply None b sync e = (None, e') \<and> mem_ok e' \<and>
    (\<forall>k. MemEngine_Get None k e' = Inr
      (case filter (\<lambda>o'. op_Key o' = k) (rev (Batch_Ops b)) of
         [] \<Rightarrow> map_of (data e) k
       | o' # _ \<Rightarrow> if op_Delete o' then None else Some (op_Value o')))"
proof -
  obtain e' where e': "MemEngine_Apply None b sync e = (None, e')" "mem_ok e'"
    "mem_view e' = apply_batch b (mem_view e)"
    using mem.applies [OF assms, of b sync] by (auto simp: mem_ops_def)
  have last: "fold apply_op os m k = (case filter (\<lambda>o'. op_Key o' = k) (rev os) of
      [] \<Rightarrow> m k | o' # _ \<Rightarrow> if op_Delete o' then None else Some (op_Value o'))" for os m k
    by (induction os rule: rev_induct) (simp_all add: apply_op_def)
  have "MemEngine_Get None k e' = Inr (apply_batch b (mem_view e) k)" for k
    using mem.get [OF e'(2), of k] e'(3) by (simp add: mem_ops_def)
  then show ?thesis
    using e' by (auto simp: apply_batch_def last mem_view_def)
qed

theorem MemEngine_get_after_apply_witness:
  "\<exists>e'. MemEngine_Apply None (Batch_Delete [1] (Batch_Set [2] [9] (Batch_Set [1] [5] empty_batch))) True NewMemEngine = (None, e')
     \<and> MemEngine_Get None [1] e' = Inr None \<and> MemEngine_Get None [2] e' = Inr (Some [9])"
  using MemEngine_get_after_apply [of NewMemEngine
      "Batch_Delete [1] (Batch_Set [2] [9] (Batch_Set [1] [5] empty_batch))" True]
  by (auto simp: mem_ok_def NewMemEngine_def Batch_Ops_def Batch_Delete_def Batch_Set_def empty_batch_def)

text \<open>
  C26: An iterator created on an open engine visits exactly the entries with keys in the requested range,
  each once, in ascending order of unsigned bytes, and then ends without an error.
\<close>

theorem MemEngine_iterates_range:
  assumes "mem_ok e"
  shows "\<exists>it it'. MemEngine_NewIterator None lower upper e = Inr it
    \<and> drain mem_ops it = Some (range_entries (map_of (data e)) lower upper, it') \<and> memIterator_Err it' = None"
proof -
  obtain it where it: "e_NewIterator mem_ops None lower upper e = Inr it" "-1 \<le> pos it"
    "mem_rest it = range_entries (mem_view e) lower upper"
    using mem.iterate [OF assms] by blast
  with mem.drain_rest [OF it(2)] show ?thesis
    by (auto simp: mem_view_def memIterator_Err_def) (simp add: mem_ops_def)
qed

theorem MemEngine_iterates_range_witness:
  "\<exists>it it'. MemEngine_NewIterator None (Some [2]) None \<lparr>data = [([3], [30]), ([1], [10]), ([2], [20])], m_closed = False\<rparr> = Inr it
     \<and> drain mem_ops it = Some ([([2], [20]), ([3], [30])], it')"
proof -
  let ?e = "\<lparr>data = [([3], [30]), ([1], [10]), ([2], [20])], m_closed = False\<rparr>"
  have "{k \<in> dom (map_of (data ?e)). in_range (Some [2]) None k} = set [[2], [3]]"
    by (auto simp: in_range_def split: if_splits)
  moreover have "sorted_list_of_set (set [[2], [3 :: byte]]) = [[2], [3]]"
    by (rule sorted_list_of_set.idem_if_sorted_distinct) simp_all
  ultimately have "range_entries (map_of (data ?e)) (Some [2]) None = [([2], [20]), ([3], [30])]"
    by (simp add: range_entries_def)
  with MemEngine_iterates_range [of ?e "Some [2]" None] show ?thesis
    by (auto simp: mem_ok_def)
qed

end
