(* ===== verification/Pebble.thy ===== *)
theory Pebble
  imports MemEngine
begin

text \<open>
  \<^verbatim>\<open>internal/storage/pebble.go\<close>: the engine backed by a Pebble database. The Pebble package is not part of
  the repository, so the database, its batches and its iterators are parameters, collected in the
  record \<open>pebble_pkg\<close>; \<open>pebble_documented\<close> states the documented behaviour the adapter relies on while
  no I/O fails. Under it the adapter keeps the laws of the locale \<open>engine\<close>.
\<close>

subsection \<open>The package as parameters\<close>

record ('d, 'b, 'i) pebble_pkg =
  ErrNotFound :: error
  db_Open :: "string \<Rightarrow> error + 'd"
  db_Get :: "bytes \<Rightarrow> 'd \<Rightarrow> error + bytes \<times> error option"
  db_NewBatch :: "'d \<Rightarrow> 'b"
  batch_Set :: "bytes \<Rightarrow> bytes \<Rightarrow> 'b \<Rightarrow> error option \<times> 'b"
  batch_Delete :: "bytes \<Rightarrow> 'b \<Rightarrow> error option \<times> 'b"
  batch_Commit :: "bool \<Rightarrow> 'b \<Rightarrow> 'd \<Rightarrow> error option \<times> 'd"
  db_NewIter :: "bytes option \<Rightarrow> bytes option \<Rightarrow> 'd \<Rightarrow> error + 'i"
  db_Close :: "'d \<Rightarrow> error option \<times> 'd"
  iter_First :: "'i \<Rightarrow> bool \<times> 'i"
  iter_Next :: "'i \<Rightarrow> bool \<times> 'i"
  iter_Key :: "'i \<Rightarrow> bytes"
  iter_ValueAndErr :: "'i \<Rightarrow> error + bytes"
  iter_Error :: "'i \<Rightarrow> error option"
  iter_Close :: "'i \<Rightarrow> error option \<times> 'i"

subsection \<open>The adapter\<close>

record 'd Pebble =
  db :: 'd
  p_closed :: bool

definition OpenPebble ::
  "('d, 'b, 'i) pebble_pkg \<Rightarrow> error option \<Rightarrow> string \<Rightarrow> error + 'd Pebble" where
  "OpenPebble P ctx dir =
     (case contextError ctx of
        Some err \<Rightarrow> Inl err
      | None \<Rightarrow>
          (case db_Open P dir of
             Inl err \<Rightarrow> Inl (internal err ''storage engine could not be opened'')
           | Inr d \<Rightarrow> Inr \<lparr>db = d, p_closed = False\<rparr>))"

definition Pebble_usable :: "'d Pebble \<Rightarrow> error option \<Rightarrow> error option" where
  "Pebble_usable p ctx =
     (if p_closed p then Some (internal errClosed ''storage engine is closed'') else contextError ctx)"

definition Pebble_Get ::
  "('d, 'b, 'i) pebble_pkg \<Rightarrow> error option \<Rightarrow> bytes \<Rightarrow> 'd Pebble \<Rightarrow> error + bytes option" where
  "Pebble_Get P ctx key p =
     (case Pebble_usable p ctx of
        Some err \<Rightarrow> Inl err
      | None \<Rightarrow>
          (case db_Get P key (db p) of
             Inl err \<Rightarrow>
               if errors_Is err (ErrNotFound P) then Inr None
               else Inl (internal err ''storage engine read failed'')
           | Inr (value, closer) \<Rightarrow>
               (case closer of
                  Some err \<Rightarrow> Inl (internal err ''storage engine read failed'')
                | None \<Rightarrow> Inr (Some value))))"

fun build_batch :: "('d, 'b, 'i) pebble_pkg \<Rightarrow> Op list \<Rightarrow> 'b \<Rightarrow> error + 'b" where
  "build_batch P [] pb = Inr pb"
| "build_batch P (o' # os) pb =
     (case (if op_Delete o' then batch_Delete P (op_Key o') pb else batch_Set P (op_Key o') (op_Value o') pb) of
        (Some err, pb) \<Rightarrow> Inl (internal err ''storage engine batch could not be built'')
      | (None, pb) \<Rightarrow> build_batch P os pb)"

definition Pebble_Apply ::
  "('d, 'b, 'i) pebble_pkg \<Rightarrow> error option \<Rightarrow> Batch \<Rightarrow> bool \<Rightarrow> 'd Pebble \<Rightarrow> error option \<times> 'd Pebble" where
  "Pebble_Apply P ctx b sync p =
     (case Pebble_usable p ctx of
        Some err \<Rightarrow> (Some err, p)
      | None \<Rightarrow>
          (case build_batch P (Batch_Ops b) (db_NewBatch P (db p)) of
             Inl err \<Rightarrow> (Some err, p)
           | Inr pb \<Rightarrow>
               (case batch_Commit P sync pb (db p) of
                  (Some err, d) \<Rightarrow> (Some (internal err ''storage engine write failed''), p\<lparr>db := d\<rparr>)
                | (None, d) \<Rightarrow> (None, p\<lparr>db := d\<rparr>))))"

record 'i pebbleIterator =
  it :: 'i
  started :: bool
  it_value :: bytes
  it_err :: "error option"

definition Pebble_NewIterator ::
  "('d, 'b, 'i) pebble_pkg \<Rightarrow> error option \<Rightarrow> bytes option \<Rightarrow> bytes option \<Rightarrow> 'd Pebble \<Rightarrow>
    error + 'i pebbleIterator" where
  "Pebble_NewIterator P ctx lower upper p =
     (case Pebble_usable p ctx of
        Some err \<Rightarrow> Inl err
      | None \<Rightarrow>
          (case db_NewIter P lower upper (db p) of
             Inl err \<Rightarrow> Inl (internal err ''storage engine iterator could not be created'')
           | Inr i \<Rightarrow> Inr \<lparr>it = i, started = False, it_value = [], it_err = None\<rparr>))"

definition Pebble_Close :: "('d, 'b, 'i) pebble_pkg \<Rightarrow> 'd Pebble \<Rightarrow> error option \<times> 'd Pebble" where
  "Pebble_Close P p =
     (if p_closed p then (None, p)
      else
        let p = p\<lparr>p_closed := True\<rparr>
        in case db_Close P (db p) of
             (Some err, d) \<Rightarrow> (Some (internal err ''storage engine could not be closed''), p\<lparr>db := d\<rparr>)
           | (None, d) \<Rightarrow> (None, p\<lparr>db := d\<rparr>))"

definition pebbleIterator_Next ::
  "('d, 'b, 'i) pebble_pkg \<Rightarrow> 'i pebbleIterator \<Rightarrow> bool \<times> 'i pebbleIterator" where
  "pebbleIterator_Next P i =
     (let (found, j) = (if started i then iter_Next P (it i) else iter_First P (it i));
          i = i\<lparr>it := j, started := True\<rparr>
      in if \<not> found then (False, i)
         else
           (case iter_ValueAndErr P j of
              Inl err \<Rightarrow> (False, i\<lparr>it_err := Some err\<rparr>)
            | Inr value \<Rightarrow> (True, i\<lparr>it_value := value\<rparr>)))"

definition pebbleIterator_Key :: "('d, 'b, 'i) pebble_pkg \<Rightarrow> 'i pebbleIterator \<Rightarrow> bytes option" where
  "pebbleIterator_Key P i = Some (iter_Key P (it i))"

definition pebbleIterator_Value :: "'i pebbleIterator \<Rightarrow> bytes option" where
  "pebbleIterator_Value i = Some (it_value i)"

definition pebbleIterator_Err :: "('d, 'b, 'i) pebble_pkg \<Rightarrow> 'i pebbleIterator \<Rightarrow> error option" where
  "pebbleIterator_Err P i =
     (case (case it_err i of None \<Rightarrow> iter_Error P (it i) | Some e \<Rightarrow> Some e) of
        None \<Rightarrow> None
      | Some err \<Rightarrow> Some (internal err ''storage engine iteration failed''))"

definition pebbleIterator_Close ::
  "('d, 'b, 'i) pebble_pkg \<Rightarrow> 'i pebbleIterator \<Rightarrow> error option \<times> 'i pebbleIterator" where
  "pebbleIterator_Close P i =
     (case iter_Close P (it i) of
        (Some err, j) \<Rightarrow> (Some (internal err ''storage engine iterator could not be closed''), i\<lparr>it := j\<rparr>)
      | (None, j) \<Rightarrow> (None, i\<lparr>it := j\<rparr>))"

definition pebble_ops :: "('d, 'b, 'i) pebble_pkg \<Rightarrow> ('d Pebble, 'i pebbleIterator) engine_ops" where
  "pebble_ops P =
     \<lparr>e_Get = Pebble_Get P, e_Apply = Pebble_Apply P, e_NewIterator = Pebble_NewIterator P,
      e_Close = Pebble_Close P, i_Next = pebbleIterator_Next P, i_Key = pebbleIterator_Key P,
      i_Value = pebbleIterator_Value, i_Err = pebbleIterator_Err P, i_Close = pebbleIterator_Close P\<rparr>"

text \<open>The bridge from Pebble's own log messages to the node's logger; the message is already formatted.\<close>

definition pebbleLogger_Infof :: "string \<Rightarrow> world \<Rightarrow> world" where
  "pebbleLogger_Infof msg w = slog_line ''DEBUG'' msg [(''component'', ''pebble'')] w"

definition pebbleLogger_Errorf :: "string \<Rightarrow> world \<Rightarrow> world" where
  "pebbleLogger_Errorf msg w = slog_line ''ERROR'' msg [(''component'', ''pebble'')] w"

definition pebbleLogger_Fatalf :: "string \<Rightarrow> world \<Rightarrow> int \<times> world" where
  "pebbleLogger_Fatalf msg w =
     (1, slog_line ''ERROR'' msg [(''component'', ''pebble''), (''fatal'', ''true'')] w)"

subsection \<open>Documented behaviour\<close>

text \<open>
  \<open>ok\<close> holds of an open database, \<open>cont\<close> is its contents, \<open>pend\<close> the operations of a batch in order,
  \<open>todo\<close> the entries an iterator has still to visit and \<open>fresh\<close> says that it was not positioned yet.
\<close>

definition pebble_documented ::
  "('d, 'b, 'i) pebble_pkg \<Rightarrow> ('d \<Rightarrow> bool) \<Rightarrow> ('d \<Rightarrow> (bytes \<rightharpoonup> bytes)) \<Rightarrow> ('b \<Rightarrow> Op list) \<Rightarrow>
    ('i \<Rightarrow> (bytes \<times> bytes) list) \<Rightarrow> ('i \<Rightarrow> bool) \<Rightarrow> bool" where
  "pebble_documented P ok cont pend todo fresh \<longleftrightarrow>
     (\<forall>d. ok d \<longrightarrow> finite (dom (cont d))) \<and>
     (\<forall>d k. ok d \<longrightarrow> db_Get P k d = (case cont d k of None \<Rightarrow> Inl (ErrNotFound P) | Some v \<Rightarrow> Inr (v, None))) \<and>
     (\<forall>d. pend (db_NewBatch P d) = []) \<and>
     (\<forall>k v b. \<exists>b'. batch_Set P k v b = (None, b')
        \<and> pend b' = pend b @ [\<lparr>op_Key = k, op_Value = v, op_Delete = False\<rparr>]) \<and>
     (\<forall>k b v. \<exists>b'. batch_Delete P k b = (None, b')
        \<and> map apply_op (pend b') = map apply_op (pend b @ [\<lparr>op_Key = k, op_Value = v, op_Delete = True\<rparr>])) \<and>
     (\<forall>s b d. ok d \<longrightarrow> (\<exists>d'. batch_Commit P s b d = (None, d') \<and> ok d' \<and> cont d' = fold apply_op (pend b) (cont d))) \<and>
     (\<forall>lo hi d. ok d \<longrightarrow> (\<exists>i. db_NewIter P lo hi d = Inr i \<and> fresh i \<and> todo i = range_entries (cont d) lo hi)) \<and>
     (\<forall>i. todo i = [] \<longrightarrow> (\<exists>j. (if fresh i then iter_First P i else iter_Next P i) = (False, j)
        \<and> \<not> fresh j \<and> todo j = [] \<and> iter_Error P j = None \<and> fst (iter_Close P j) = None)) \<and>
     (\<forall>i k v kvs. todo i = (k, v) # kvs \<longrightarrow> (\<exists>j. (if fresh i then iter_First P i else iter_Next P i) = (True, j)
        \<and> \<not> fresh j \<and> todo j = kvs \<and> iter_Key P j = k \<and> iter_ValueAndErr P j = Inr v)) \<and>
     (\<forall>d. ok d \<longrightarrow> fst (db_Close P d) = None)"

subsection \<open>The adapter keeps the engine laws\<close>

lemma fold_by_map: "map f xs = map f ys \<Longrightarrow> fold f xs = fold f ys"
  by (metis fold_map id_comp)

lemma build_batch_ok:
  assumes "pebble_documented P ok cont pend todo fresh"
  shows "\<exists>pb'. build_batch P os pb = Inr pb' \<and> map apply_op (pend pb') = map apply_op (pend pb @ os)"
proof (induction os arbitrary: pb)
  case Nil
  then show ?case by simp
next
  case (Cons o' os)
  obtain pb1 where pb1: "(if op_Delete o' then batch_Delete P (op_Key o') pb
      else batch_Set P (op_Key o') (op_Value o') pb) = (None, pb1)"
    "map apply_op (pend pb1) = map apply_op (pend pb @ [o'])"
  proof (cases "op_Delete o'")
    case True
    then have o': "o' = \<lparr>op_Key = op_Key o', op_Value = op_Value o', op_Delete = True\<rparr>"
      by simp
    obtain pb' where "batch_Delete P (op_Key o') pb = (None, pb')" "map apply_op (pend pb') =
        map apply_op (pend pb @ [\<lparr>op_Key = op_Key o', op_Value = op_Value o', op_Delete = True\<rparr>])"
      using assms unfolding pebble_documented_def by meson
    then show thesis
      using that [of pb'] True o' by simp
  next
    case False
    then have o': "o' = \<lparr>op_Key = op_Key o', op_Value = op_Value o', op_Delete = False\<rparr>"
      by simp
    obtain pb' where "batch_Set P (op_Key o') (op_Value o') pb = (None, pb')"
      "pend pb' = pend pb @ [\<lparr>op_Key = op_Key o', op_Value = op_Value o', op_Delete = False\<rparr>]"
      using assms unfolding pebble_documented_def by meson
    then show thesis
      using that [of pb'] False o' by simp
  qed
  with Cons.IH [of pb1] show ?case by auto
qed

definition pebble_ok :: "('d \<Rightarrow> bool) \<Rightarrow> 'd Pebble \<Rightarrow> bool" where
  "pebble_ok ok p \<longleftrightarrow> \<not> p_closed p \<and> ok (db p)"

definition pebble_iter :: "('i \<Rightarrow> bool) \<Rightarrow> 'i pebbleIterator \<Rightarrow> bool" where
  "pebble_iter fresh i \<longleftrightarrow> it_err i = None \<and> (fresh (it i) \<longleftrightarrow> \<not> started i)"

lemma pebble_usable: "pebble_ok ok p \<Longrightarrow> Pebble_usable p ctx = contextError ctx"
  by (simp add: pebble_ok_def Pebble_usable_def)

lemma Pebble_Next_end:
  assumes doc: "pebble_documented P ok cont pend todo fresh" and i: "pebble_iter fresh i" "todo (it i) = []"
  shows "\<exists>i'. pebbleIterator_Next P i = (False, i') \<and> pebble_iter fresh i' \<and> todo (it i') = []
    \<and> pebbleIterator_Err P i' = None \<and> fst (pebbleIterator_Close P i') = None"
proof -
  obtain j where j: "(if fresh (it i) then iter_First P (it i) else iter_Next P (it i)) = (False, j)"
    "\<not> fresh j" "todo j = []" "iter_Error P j = None" "fst (iter_Close P j) = None"
    using doc i(2) unfolding pebble_documented_def by meson
  have step: "(if started i then iter_Next P (it i) else iter_First P (it i)) = (False, j)"
    using j(1) i(1) by (cases "started i") (simp_all add: pebble_iter_def)
  have "pebbleIterator_Next P i = (False, i\<lparr>it := j, started := True\<rparr>)"
    by (simp add: pebbleIterator_Next_def step)
  then show ?thesis
    using j i(1) by (cases "iter_Close P j")
      (auto simp: pebble_iter_def pebbleIterator_Err_def pebbleIterator_Close_def)
qed

lemma Pebble_Next_more:
  assumes doc: "pebble_documented P ok cont pend todo fresh" and i: "pebble_iter fresh i" "todo (it i) = (k, v) # kvs"
  shows "\<exists>i'. pebbleIterator_Next P i = (True, i') \<and> pebble_iter fresh i' \<and> todo (it i') = kvs
    \<and> pebbleIterator_Key P i' = Some k \<and> pebbleIterator_Value i' = Some v"
proof -
  obtain j where j: "(if fresh (it i) then iter_First P (it i) else iter_Next P (it i)) = (True, j)"
    "\<not> fresh j" "todo j = kvs" "iter_Key P j = k" "iter_ValueAndErr P j = Inr v"
    using doc i(2) unfolding pebble_documented_def by meson
  have step: "(if started i then iter_Next P (it i) else iter_First P (it i)) = (True, j)"
    using j(1) i(1) by (cases "started i") (simp_all add: pebble_iter_def)
  have "pebbleIterator_Next P i = (True, i\<lparr>it := j, started := True, it_value := v\<rparr>)"
    by (simp add: pebbleIterator_Next_def step j(5))
  then show ?thesis
    using j i(1) by (auto simp: pebble_iter_def pebbleIterator_Key_def pebbleIterator_Value_def)
qed

lemma pebble_engine:
  assumes doc: "pebble_documented P ok cont pend todo fresh"
  shows "engine (pebble_ops P) (\<lambda>p. cont (db p)) (pebble_ok ok) p_closed (pebble_iter fresh) (\<lambda>i. todo (it i))"
proof
  fix p :: "'a Pebble" and b sync lower upper k c ctx
  show "pebble_ok ok p \<Longrightarrow> finite (dom (cont (db p)))"
    using doc by (simp add: pebble_documented_def pebble_ok_def)
  show "pebble_ok ok p \<Longrightarrow> e_Get (pebble_ops P) None k p = Inr (cont (db p) k)"
  proof -
    assume p: "pebble_ok ok p"
    then have "db_Get P k (db p) = (case cont (db p) k of None \<Rightarrow> Inl (ErrNotFound P) | Some v \<Rightarrow> Inr (v, None))"
      using doc by (simp add: pebble_documented_def pebble_ok_def)
    then show ?thesis
      using p by (simp add: errors_Is_refl pebble_ops_def Pebble_Get_def pebble_usable contextError_def split: option.splits)
  qed
  show "pebble_ok ok p \<Longrightarrow> \<exists>p'. e_Apply (pebble_ops P) None b sync p = (None, p') \<and> pebble_ok ok p'
      \<and> cont (db p') = apply_batch b (cont (db p))"
  proof -
    assume p: "pebble_ok ok p"
    obtain pb where pb: "build_batch P (Batch_Ops b) (db_NewBatch P (db p)) = Inr pb"
      "map apply_op (pend pb) = map apply_op (pend (db_NewBatch P (db p)) @ Batch_Ops b)"
      using build_batch_ok [OF doc] by blast
    have "pend (db_NewBatch P (db p)) = []"
      using doc by (simp add: pebble_documented_def)
    then have eq: "fold apply_op (pend pb) = fold apply_op (Batch_Ops b)"
      using pb(2) by (intro fold_by_map) simp
    obtain d where "batch_Commit P sync pb (db p) = (None, d)" "ok d" "cont d = fold apply_op (pend pb) (cont (db p))"
      using doc p unfolding pebble_documented_def pebble_ok_def by meson
    with pb(1) eq p show ?thesis
      by (auto simp: pebble_ops_def Pebble_Apply_def pebble_usable contextError_def apply_batch_def)
        (simp add: pebble_ok_def)
  qed
  show "pebble_ok ok p \<Longrightarrow> \<exists>i. e_NewIterator (pebble_ops P) None lower upper p = Inr i \<and> pebble_iter fresh i
      \<and> todo (it i) = range_entries (cont (db p)) lower upper"
  proof -
    assume p: "pebble_ok ok p"
    then obtain j where "db_NewIter P lower upper (db p) = Inr j" "fresh j" "todo j = range_entries (cont (db p)) lower upper"
      using doc unfolding pebble_documented_def pebble_ok_def by meson
    then show ?thesis
      using p by (auto simp: pebble_ops_def Pebble_NewIterator_def pebble_usable contextError_def pebble_iter_def)
  qed
  show "pebble_ok ok p \<Longrightarrow> c \<in> {context_Canceled, context_DeadlineExceeded} \<Longrightarrow>
      \<exists>err. ReasonOf (Some err) = ReasonOf (Some c) \<and> e_Get (pebble_ops P) (Some c) k p = Inl err
      \<and> e_Apply (pebble_ops P) (Some c) b sync p = (Some err, p)
      \<and> e_NewIterator (pebble_ops P) (Some c) lower upper p = Inl err"
    by (simp add: pebble_ops_def Pebble_Get_def Pebble_Apply_def Pebble_NewIterator_def pebble_usable
        contextError_def Wrap_reason del: insert_iff)
  show "pebble_ok ok p \<or> p_closed p \<Longrightarrow> \<exists>p'. e_Close (pebble_ops P) p = (None, p') \<and> p_closed p'"
    using doc by (cases "db_Close P (db p)")
      (auto simp: pebble_ops_def Pebble_Close_def pebble_ok_def pebble_documented_def split: option.splits)
  show "p_closed p \<Longrightarrow> isl (e_Get (pebble_ops P) ctx k p) \<and> isl (e_NewIterator (pebble_ops P) ctx lower upper p)
      \<and> (\<exists>err. e_Apply (pebble_ops P) ctx b sync p = (Some err, p))"
    by (simp add: pebble_ops_def Pebble_Get_def Pebble_Apply_def Pebble_NewIterator_def Pebble_usable_def)
next
  fix i :: "'c pebbleIterator" and k v kvs
  show "pebble_iter fresh i \<Longrightarrow> todo (it i) = [] \<Longrightarrow> \<exists>i'. i_Next (pebble_ops P) i = (False, i')
      \<and> pebble_iter fresh i' \<and> todo (it i') = [] \<and> i_Err (pebble_ops P) i' = None \<and> fst (i_Close (pebble_ops P) i') = None"
    using Pebble_Next_end [OF doc] by (simp add: pebble_ops_def)
  show "pebble_iter fresh i \<Longrightarrow> todo (it i) = (k, v) # kvs \<Longrightarrow> \<exists>i'. i_Next (pebble_ops P) i = (True, i')
      \<and> pebble_iter fresh i' \<and> todo (it i') = kvs \<and> i_Key (pebble_ops P) i' = Some k \<and> i_Value (pebble_ops P) i' = Some v"
    using Pebble_Next_more [OF doc] by (simp add: pebble_ops_def)
qed

subsection \<open>Properties\<close>

text \<open>
  An instance of the parameters: a database is the list of its entries, as the in-memory engine keeps
  it, a batch the list of its operations and an iterator the entries left and the one it stands on.
\<close>

definition list_pebble :: "((bytes \<times> bytes) list, Op list, (bytes \<times> bytes) list \<times> (bytes \<times> bytes) option) pebble_pkg" where
  "list_pebble =
     \<lparr>ErrNotFound = Sentinel ''pebble.ErrNotFound'' ''pebble: not found'',
      db_Open = (\<lambda>dir. Inr []),
      db_Get = (\<lambda>k d. case map_of d k of None \<Rightarrow> Inl (Sentinel ''pebble.ErrNotFound'' ''pebble: not found'') | Some v \<Rightarrow> Inr (v, None)),
      db_NewBatch = (\<lambda>d. []),
      batch_Set = (\<lambda>k v b. (None, b @ [\<lparr>op_Key = k, op_Value = v, op_Delete = False\<rparr>])),
      batch_Delete = (\<lambda>k b. (None, b @ [\<lparr>op_Key = k, op_Value = [], op_Delete = True\<rparr>])),
      batch_Commit = (\<lambda>sync b d. (None, fold apply_mem_op b d)),
      db_NewIter = (\<lambda>lo hi d. Inr (sort_key fst (filter (\<lambda>(k, v). in_range lo hi k) d), None)),
      db_Close = (\<lambda>d. (None, d)),
      iter_First = (\<lambda>(es, c). case es of [] \<Rightarrow> (False, ([], Some ([], []))) | e # es \<Rightarrow> (True, (es, Some e))),
      iter_Next = (\<lambda>(es, c). case es of [] \<Rightarrow> (False, ([], Some ([], []))) | e # es \<Rightarrow> (True, (es, Some e))),
      iter_Key = (\<lambda>(es, c). fst (the c)),
      iter_ValueAndErr = (\<lambda>(es, c). Inr (snd (the c))),
      iter_Error = (\<lambda>i. None),
      iter_Close = (\<lambda>i. (None, i))\<rparr>"

lemma list_pebble_documented:
  "pebble_documented list_pebble (\<lambda>d. distinct (map fst d)) map_of id fst (\<lambda>i. snd i = None)"
  unfolding pebble_documented_def
proof (intro conjI allI impI)
  fix lo hi and d :: "(bytes \<times> bytes) list"
  assume "distinct (map fst d)"
  then show "\<exists>i. db_NewIter list_pebble lo hi d = Inr i \<and> snd i = None \<and> fst i = range_entries (map_of d) lo hi"
    using sorted_snapshot [of d "in_range lo hi"] by (simp add: list_pebble_def range_entries_def)
next
  fix k b v
  show "\<exists>b'. batch_Delete list_pebble k b = (None, b') \<and>
      map apply_op (id b') = map apply_op (id b @ [\<lparr>op_Key = k, op_Value = v, op_Delete = True\<rparr>])"
    by (simp add: list_pebble_def apply_op_def fun_eq_iff)
qed (auto simp: list_pebble_def finite_dom_map_of map_of_mem_ops split: option.splits)



text \<open>
  C29: Atomicity of a write: whatever the package does, \<^verbatim>\<open>Apply\<close> changes the database only through one
  commit of one batch, with the caller's sync option, and reports the outcome of that commit; a closed
  engine, a canceled context or a batch that cannot be built leaves the database alone and is an error.
\<close>

theorem Pebble_Apply_one_commit:
  "Pebble_Apply P ctx b sync p = (r, p') \<Longrightarrow>
     p_closed p' = p_closed p \<and>
     ((r \<noteq> None \<and> p' = p) \<or>
      (\<exists>pb. build_batch P (Batch_Ops b) (db_NewBatch P (db p)) = Inr pb
         \<and> \<not> p_closed p \<and> ctx = None
         \<and> snd (batch_Commit P sync pb (db p)) = db p'
         \<and> (r = None \<longleftrightarrow> fst (batch_Commit P sync pb (db p)) = None)))"
  by (auto simp: Pebble_Apply_def Pebble_usable_def contextError_def split: option.splits sum.splits prod.splits if_splits)

theorem Pebble_Apply_one_commit_witness:
  "Pebble_Apply list_pebble None (Batch_Set [1] [2] empty_batch) True \<lparr>db = [], p_closed = False\<rparr> =
     (None, \<lparr>db = [([1], [2])], p_closed = False\<rparr>) \<and>
   (\<exists>pb. snd (batch_Commit list_pebble True pb []) = [([1], [2])])"
proof -
  have run: "Pebble_Apply list_pebble None (Batch_Set [1] [2] empty_batch) True \<lparr>db = [], p_closed = False\<rparr> =
     (None, \<lparr>db = [([1], [2])], p_closed = False\<rparr>)"
    by (simp add: Pebble_Apply_def Pebble_usable_def contextError_def Batch_Ops_def Batch_Set_def empty_batch_def
        list_pebble_def apply_mem_op_def map_store_def map_delete_def)
  show ?thesis
    using run Pebble_Apply_one_commit [OF run] by auto
qed

end
