(* ===== verification/DataDir.thy ===== *)
theory DataDir
  imports Disk
begin

text \<open>
  \<^verbatim>\<open>internal/storage/version.go\<close>: the layout of a data directory and its version marker. The world is the data
  directory itself: its files, and its subdirectories as entries that are not regular files. The lemmas
  show that an interrupted initialization can always be repeated, that a marker is complete whenever it
  exists, and that directories of another format or with foreign data are refused untouched.
\<close>

subsection \<open>Paths (path/filepath on Unix)\<close>

fun split_slash :: "string \<Rightarrow> string list" where
  "split_slash [] = [[]]"
| "split_slash (c # cs) =
     (if c = CHR ''/'' then [] # split_slash cs
      else (case split_slash cs of [] \<Rightarrow> [[c]] | s # ss \<Rightarrow> (c # s) # ss))"

fun join_slash :: "string list \<Rightarrow> string" where
  "join_slash [] = []"
| "join_slash [s] = s"
| "join_slash (s # ss) = s @ CHR ''/'' # join_slash ss"

text \<open>One step of \<^verbatim>\<open>filepath.Clean\<close> on the stack of elements kept so far, the last one first.\<close>

definition clean_step :: "bool \<Rightarrow> string \<Rightarrow> string list \<Rightarrow> string list" where
  "clean_step rooted e out =
     (if e = [] \<or> e = ''.'' then out
      else if e = ''..'' then
        (case out of
           [] \<Rightarrow> if rooted then [] else [''..'']
         | d # ds \<Rightarrow> if d = ''..'' then ''..'' # out else ds)
      else e # out)"

definition filepath_Clean :: "string \<Rightarrow> string" where
  "filepath_Clean path =
     (let rooted = (take 1 path = ''/'');
          body = join_slash (rev (fold (clean_step rooted) (split_slash path) []))
      in if rooted then CHR ''/'' # body else if body = [] then ''.'' else body)"

definition filepath_Join :: "string list \<Rightarrow> string" where
  "filepath_Join elems =
     (case dropWhile (\<lambda>e. e = []) elems of [] \<Rightarrow> [] | es \<Rightarrow> filepath_Clean (join_slash es))"

subsection \<open>Numbers and white space (strconv, strings)\<close>

definition Atoi :: "string \<Rightarrow> int option" where
  "Atoi s =
     (let (neg, digits) =
            (case s of
               [] \<Rightarrow> (False, [])
             | c # cs \<Rightarrow>
                 if c = CHR ''-'' then (True, cs) else if c = CHR ''+'' then (False, cs) else (False, s))
      in (case ParseUint 64 digits of
            None \<Rightarrow> None
          | Some n \<Rightarrow>
              if neg then (if n \<le> 2 ^ 63 then Some (- int n) else None)
              else (if n < 2 ^ 63 then Some (int n) else None)))"

text \<open>
  \<^verbatim>\<open>strings.TrimSpace\<close> removes Unicode white space; the list holds the UTF-8 encodings of all white space
  characters. UTF-8 is self-synchronizing, so a character is at an end of a string exactly when its
  encoding is.
\<close>

definition space_seqs :: "string list" where
  "space_seqs =
     [[CHR 0x09], [CHR 0x0A], [CHR 0x0B], [CHR 0x0C], [CHR 0x0D], [CHR 0x20],
      [CHR 0xC2, CHR 0x85], [CHR 0xC2, CHR 0xA0], [CHR 0xE1, CHR 0x9A, CHR 0x80]]
     @ map (\<lambda>n. [CHR 0xE2, CHR 0x80, char_of (0x80 + n)]) [0 ..< (11 :: nat)]
     @ [[CHR 0xE2, CHR 0x80, CHR 0xA8], [CHR 0xE2, CHR 0x80, CHR 0xA9], [CHR 0xE2, CHR 0x80, CHR 0xAF],
        [CHR 0xE2, CHR 0x81, CHR 0x9F], [CHR 0xE3, CHR 0x80, CHR 0x80]]"

function trim_left :: "string list \<Rightarrow> string \<Rightarrow> string" where
  "trim_left seqs s =
     (case find (\<lambda>p. p \<noteq> [] \<and> prefix p s) seqs of
        None \<Rightarrow> s
      | Some p \<Rightarrow> trim_left seqs (drop (length p) s))"
  by pat_completeness auto

termination
  by (relation "measure (\<lambda>(_, s). length s)") (auto simp: find_Some_iff prefix_def)

declare trim_left.simps [simp del]

definition TrimSpace :: "string \<Rightarrow> string" where
  "TrimSpace s = rev (trim_left (map rev space_seqs) (rev (trim_left space_seqs s)))"

subsection \<open>Layout\<close>

definition FormatVersion :: int where "FormatVersion = 1"

definition versionFile :: string where "versionFile = ''storage_version''"
definition logDir :: string where "logDir = ''log''"
definition engineDir :: string where "engineDir = ''engine''"

definition LogDir :: "string \<Rightarrow> string" where "LogDir dataDir = filepath_Join [dataDir, logDir]"
definition EngineDir :: "string \<Rightarrow> string" where "EngineDir dataDir = filepath_Join [dataDir, engineDir]"

subsection \<open>Operations\<close>

definition checkVersion :: "(string \<Rightarrow> string) \<Rightarrow> string \<Rightarrow> string \<Rightarrow> error option" where
  "checkVersion quote dir text =
     (case Atoi (TrimSpace text) of
        None \<Rightarrow>
          Some (KV (Some (New ReasonInternal
            (''data directory '' @ dir @ '' has an unreadable storage_version marker '' @ quote text))))
      | Some version \<Rightarrow>
          if version \<noteq> FormatVersion then
            Some (KV (Some (New ReasonInternal
              (''data directory '' @ dir @ '' uses storage format '' @ show_int version @
               '', but this binary supports only format '' @ show_int FormatVersion))))
          else None)"

definition writeFileAtomic :: "string \<Rightarrow> bytes \<Rightarrow> world \<Rightarrow> error option \<times> world" where
  "writeFileAtomic name data w =
     (let tmp = name @ ''.tmp''
      in case os_CreateTrunc tmp w of
           (Inl err, w) \<Rightarrow> (Some (KV (Some (Wrap ReasonInternal err (name @ '' could not be created'')))), w)
         | (Inr f, w) \<Rightarrow>
             (let (writeErr, w) = file_Write f data w;
                  (syncErr, w) = file_Sync f w;
                  (closeErr, f, w) = file_Close f w
              in case errors_Join [writeErr, syncErr, closeErr] of
                   Some err \<Rightarrow> (Some (KV (Some (Wrap ReasonInternal err (name @ '' could not be written'')))), w)
                 | None \<Rightarrow>
                     (case os_Rename tmp name w of
                        (Some err, w) \<Rightarrow>
                          (Some (KV (Some (Wrap ReasonInternal err (name @ '' could not be put in place'')))), w)
                      | (None, w) \<Rightarrow> syncDir w)))"

definition initializeDataDir :: "string \<Rightarrow> world \<Rightarrow> error option \<times> world" where
  "initializeDataDir dir w =
     (case os_ReadDir w of
        (Inl err, w) \<Rightarrow> (Some (KV (Some (Wrap ReasonInternal err ''data directory could not be read''))), w)
      | (Inr entries, w) \<Rightarrow>
          if list_ex (\<lambda>e. fst e \<noteq> versionFile @ ''.tmp'') entries then
            (Some (KV (Some (New ReasonInternal
               (''data directory '' @ dir @ '' contains data but no storage_version marker; refusing to use it'')))), w)
          else writeFileAtomic versionFile (str (show_int FormatVersion @ [CHR 0x0A])) w)"

text \<open>\<^verbatim>\<open>errors.Is(err, fs.ErrNotExist)\<close>: the error numbers of the operating system match by kind.\<close>

fun is_not_exist :: "error \<Rightarrow> bool" where
  "is_not_exist (OSErr k _) = (k = NotExist)"
| "is_not_exist (WrapErr _ e) = is_not_exist e"
| "is_not_exist (JoinErr es) = list_ex is_not_exist es"
| "is_not_exist (KV (Some (Error _ _ _ _ _ (Some c)))) = is_not_exist c"
| "is_not_exist _ = False"

definition PrepareDataDir :: "(string \<Rightarrow> string) \<Rightarrow> string \<Rightarrow> world \<Rightarrow> error option \<times> world" where
  "PrepareDataDir quote dir w =
     (case os_MkdirAll w of
        (Some err, w) \<Rightarrow> (Some (KV (Some (Wrap ReasonInternal err ''data directory could not be created''))), w)
      | (None, w) \<Rightarrow>
          (case os_ReadFile versionFile w of
             (Inr text, w) \<Rightarrow> (checkVersion quote dir (text_of text), w)
           | (Inl err, w) \<Rightarrow>
               if is_not_exist err then initializeDataDir dir w
               else (Some (KV (Some (Wrap ReasonInternal err ''storage_version marker could not be read''))), w)))"

text \<open>\<^verbatim>\<open>syncdir_windows.go\<close>: there is nothing to flush.\<close>

definition syncDir_windows :: "string \<Rightarrow> error option" where
  "syncDir_windows dir = None"

subsection \<open>The marker\<close>

abbreviation tmpFile :: string where "tmpFile \<equiv> versionFile @ ''.tmp''"

definition marker :: bytes where "marker = str (show_int FormatVersion @ [CHR 0x0A])"

lemma find_simps: "find P [] = None" "find P (x # xs) = (if P x then Some x else find P xs)"
  by simp_all

lemma TrimSpace_marker: "TrimSpace (show_int FormatVersion @ [CHR 0x0A]) = ''1''"
  by (simp add: TrimSpace_def trim_left.simps space_seqs_def FormatVersion_def show_int_def show_nat.simps
      digit_char_def upt_conv_Cons char_of_def bit_0)

lemma checkVersion_marker: "checkVersion quote dir (text_of marker) = None"
  unfolding marker_def text_of_str checkVersion_def TrimSpace_marker
  by (simp add: Atoi_def ParseUint_def digit_val_def FormatVersion_def)

lemma names_differ [simp]: "versionFile \<noteq> tmpFile" "tmpFile \<noteq> versionFile"
  by simp_all

text \<open>A complete marker: its bytes have been flushed, so no crash can change them.\<close>

definition complete :: "dfile \<Rightarrow> bool" where
  "complete f \<longleftrightarrow> content f = marker \<and> durable f = marker \<and> \<not> pending f"

definition preparable :: "world \<Rightarrow> bool" where
  "preparable w \<longleftrightarrow> distinct (map fst (files w)) \<and> dom (get_file w) \<subseteq> {versionFile, tmpFile} \<and>
     (\<forall>f. get_file w versionFile = Some f \<longrightarrow> complete f) \<and>
     (get_file w versionFile = None \<longrightarrow> ghosts w = []) \<and>
     (\<forall>(n, f) \<in> set (ghosts w). n = tmpFile \<or> n = versionFile \<and> complete f)"

lemma next_outcome_world:
  assumes "next_outcome w = (x, w')"
  shows "files w' = files w" "ghosts w' = ghosts w" "log_lines w' = log_lines w" "faults w = [] \<Longrightarrow> x = Ok \<and> faults w' = []"
  using assms by (auto simp: next_outcome_def split: list.splits)

definition unchanged :: "world \<Rightarrow> world \<Rightarrow> bool" where
  "unchanged w w' \<longleftrightarrow> files w' = files w \<and> ghosts w' = ghosts w \<and> log_lines w' = log_lines w"

lemma unchanged_refl [simp]: "unchanged w w"
  by (simp add: unchanged_def)

lemma unchanged_trans: "unchanged w w' \<Longrightarrow> unchanged w' w'' \<Longrightarrow> unchanged w w''"
  by (simp add: unchanged_def)

lemma unchanged_same_disk: "unchanged w w' \<Longrightarrow> same_disk w w'"
  by (simp add: unchanged_def same_disk_def tidy_def get_file_def fun_eq_iff)

lemma unchanged_next: "next_outcome w = (x, w') \<Longrightarrow> unchanged w w' \<and> sound w (x = Ok) w'"
  using next_outcome_world [of w x w'] by (auto simp: unchanged_def sound_def)

lemma unchanged_get: "unchanged w w' \<Longrightarrow> get_file w' = get_file w"
  by (simp add: unchanged_def get_file_def fun_eq_iff)

lemma preparable_unchanged: "unchanged w w' \<Longrightarrow> preparable w \<Longrightarrow> preparable w'"
  unfolding preparable_def unchanged_def get_file_def by simp

lemma preparable_crash:
  assumes "preparable w" and "crash w w'"
  shows "preparable w'"
proof -
  have each: "\<exists>f. (get_file w n = Some f \<or> (n, f) \<in> set (ghosts w)) \<and> crash_file f f'"
    if "get_file w' n = Some f'" for n f'
  proof -
    have "case get_file w' n of None \<Rightarrow> (case get_file w n of None \<Rightarrow> True | Some f \<Rightarrow> \<not> entry_durable f)
        | Some f' \<Rightarrow> \<exists>f. (get_file w n = Some f \<or> (n, f) \<in> set (ghosts w)) \<and> crash_file f f'"
      using assms(2) unfolding crash_def by blast
    then show ?thesis using that by simp
  qed
  have "complete f'" if here: "get_file w' versionFile = Some f'" for f'
  proof -
    obtain f where f: "get_file w versionFile = Some f \<or> (versionFile, f) \<in> set (ghosts w)" "crash_file f f'"
      using each [OF here] by blast
    then have "complete f"
      using assms(1) unfolding preparable_def by fastforce
    then show ?thesis
      using f(2) by (auto simp: complete_def crash_file_def)
  qed
  moreover have "n \<in> {versionFile, tmpFile}" if "get_file w' n = Some f'" for n f'
    using each [OF that] assms(1) unfolding preparable_def by blast
  moreover have "distinct (map fst (files w'))" "ghosts w' = []"
    using assms(2) by (simp_all add: crash_def)
  ultimately show ?thesis
    unfolding preparable_def by auto
qed

lemma os_CreateTrunc_spec:
  assumes "os_CreateTrunc name w = (r, w')"
  shows "(case r of
            Inl e \<Rightarrow> same_disk w w'
          | Inr h \<Rightarrow> h = \<lparr>h_name = name, h_open = True\<rparr> \<and>
              get_file w' = (get_file w)(name := get_file w' name) \<and> map_option content (get_file w' name) = Some [] \<and>
              (tidy w \<longrightarrow> tidy w'))
     \<and> sound w (\<not> isl r) w'"
  using assms next_outcome_same [of w]
  by (auto simp: os_CreateTrunc_def sound_def same_disk_def split: prod.splits outcome.splits option.splits)

lemma get_file_filter: "get_file (w\<lparr>files := filter (\<lambda>p. fst p \<noteq> n) (files w), ghosts := gs\<rparr>) = (get_file w)(n := None)"
  by (rule ext) (simp add: get_file_def map_of_filter_neq)

lemma os_Rename_spec:
  assumes "os_Rename old new w = (r, w')" and "tidy w" and "get_file w old = Some f" and "get_file w new = None"
  shows "(if r = None then get_file w' = (get_file w)(old := None, new \<mapsto> f\<lparr>entry_durable := False\<rparr>) \<and> ghosts w' = [(old, f)]
             \<and> distinct (map fst (files w'))
          else same_disk w w') \<and> sound w (r = None) w'"
proof -
  obtain x w1 where x: "next_outcome w = (x, w1)" by fastforce
  have w1: "get_file w1 = get_file w" "tidy w1" "sound w (x = Ok) w1" "same_disk w w1"
    using next_outcome_same [OF x] assms(2) by (auto simp: same_disk_def)
  have "distinct (map fst (filter P (files w1)))" for P
    using w1(2) by (simp add: tidy_def distinct_map_filter)
  then have "distinct (map fst (files (put_file new g (w1\<lparr>files := filter (\<lambda>p. fst p \<noteq> old) (files w1), ghosts := gs\<rparr>))))" for g gs
    using w1(2) by (auto simp: put_file_def tidy_def)
  then show ?thesis
    using assms x w1 by (cases x) (auto simp: os_Rename_def get_file_filter tidy_def sound_def)
qed

lemma syncDir_ghosts:
  assumes "syncDir w = (r, w')"
  shows "set (ghosts w') \<subseteq> set (ghosts w)" "r = None \<Longrightarrow> ghosts w' = []"
    "distinct (map fst (files w)) \<Longrightarrow> distinct (map fst (files w'))"
proof -
  obtain x1 w1 where 1: "next_outcome w = (x1, w1)" by fastforce
  obtain x2 w2 where 2: "next_outcome w1 = (x2, w2)" by fastforce
  define w2' where "w2' = (if x2 = Ok then sync_entries w2 else w2)"
  obtain x3 w3 where 3: "next_outcome w2' = (x3, w3)" by fastforce
  note same = next_outcome_world [OF 1] next_outcome_world [OF 2] next_outcome_world [OF 3]
  have w': "w' = (if x1 = Ok then w3 else w1)" and r: "r = None \<longleftrightarrow> x1 = Ok \<and> x2 = Ok \<and> x3 = Ok"
    using assms 1 2 3 by (auto simp: syncDir_def w2'_def Let_def split: outcome.splits if_splits)
  have "map fst (files w2') = map fst (files w2)"
    by (simp add: w2'_def sync_entries_def comp_def case_prod_beta)
  then show "set (ghosts w') \<subseteq> set (ghosts w)" "r = None \<Longrightarrow> ghosts w' = []"
    "distinct (map fst (files w)) \<Longrightarrow> distinct (map fst (files w'))"
    using same w' r by (auto simp: w2'_def sync_entries_def)
qed

text \<open>The file is written and flushed under its temporary name, whatever calls fail.\<close>

lemma write_temporary:
  assumes "h = \<lparr>h_name = name, h_open = True\<rparr>" and "get_file w name = Some f" and "content f = []" and "tidy w"
    and "file_Write h data w = (r1, w1)" and "file_Sync h w1 = (r2, w2)" and "file_Close h w2 = (r3, h', w3)"
  obtains g where "get_file w3 = (get_file w)(name \<mapsto> g)" and "tidy w3"
    and "sound w (r1 = None \<and> r2 = None \<and> r3 = None) w3"
    and "r1 = None \<Longrightarrow> r2 = None \<Longrightarrow> content g = data \<and> durable g = data \<and> \<not> pending g"
proof -
  have h: "h_open h" "h_name h = name"
    using assms(1) by simp_all
  obtain n where n: "r1 = None \<Longrightarrow> length data \<le> n"
    "get_file w1 = (get_file w)(name \<mapsto> f\<lparr>content := content f @ take n data, pending := True\<rparr>)" "tidy w1"
    "sound w (r1 = None) w1"
    using file_Write_spec [OF assms(5) h(1)] assms(2,4) h(2) by metis
  let ?f1 = "f\<lparr>content := content f @ take n data, pending := True\<rparr>"
  let ?g = "if r2 = None then ?f1\<lparr>durable := content ?f1, pending := False\<rparr> else ?f1"
  have f1: "get_file w1 (h_name h) = Some ?f1"
    using n(2) h(2) by simp
  note s = file_Sync_spec [OF assms(6) h(1) f1]
  have g2: "get_file w2 = (get_file w)(name \<mapsto> ?g)"
    using s(1) n(2) h(2) by auto
  note c = file_Close_spec [OF assms(7)]
  show thesis
  proof (rule that [of ?g])
    show "get_file w3 = (get_file w)(name \<mapsto> ?g)"
      using c g2 by (simp add: same_disk_def)
    show "tidy w3"
      using c s(2) n(3) by (simp add: same_disk_def)
    show "sound w (r1 = None \<and> r2 = None \<and> r3 = None) w3"
      using c s(4) n(4) h(1) by (auto simp: sound_def)
    show "content ?g = data \<and> durable ?g = data \<and> \<not> pending ?g" if "r1 = None" "r2 = None"
      using that n(1) assms(3) by simp
  qed
qed

definition fresh_dir :: "world \<Rightarrow> bool" where
  "fresh_dir w \<longleftrightarrow> tidy w \<and> dom (get_file w) \<subseteq> {tmpFile}"

lemma fresh_preparable: "fresh_dir w \<Longrightarrow> preparable w"
  unfolding fresh_dir_def preparable_def tidy_def by auto

lemma preparable_cases:
  assumes "preparable w"
  obtains (marked) f where "get_file w versionFile = Some f" "complete f" | (unmarked) "fresh_dir w"
proof (cases "get_file w versionFile")
  case None
  then have "versionFile \<notin> dom (get_file w)" by auto
  then show ?thesis
    using assms None unmarked unfolding preparable_def fresh_dir_def tidy_def by blast
next
  case (Some f)
  then show ?thesis
    using assms marked unfolding preparable_def by blast
qed

text \<open>The marker is in place and both its bytes and its entry have been flushed.\<close>

definition marked_durably :: "world \<Rightarrow> bool" where
  "marked_durably w \<longleftrightarrow> preparable w \<and> (\<exists>f. get_file w versionFile = Some f \<and> entry_durable f)"

lemma marked_durably_crash:
  assumes "marked_durably w" and "crash w w'"
  shows "\<exists>f. get_file w' versionFile = Some f \<and> content f = marker"
proof -
  obtain f where f: "get_file w versionFile = Some f" "entry_durable f" and p: "preparable w"
    using assms(1) by (auto simp: marked_durably_def)
  have "case get_file w' versionFile of None \<Rightarrow> (case get_file w versionFile of None \<Rightarrow> True | Some f \<Rightarrow> \<not> entry_durable f)
        | Some f' \<Rightarrow> \<exists>f. (get_file w versionFile = Some f \<or> (versionFile, f) \<in> set (ghosts w)) \<and> crash_file f f'"
    using assms(2) unfolding crash_def by blast
  then obtain f' where f': "get_file w' versionFile = Some f'"
    using f by (cases "get_file w' versionFile") auto
  then show ?thesis
    using preparable_crash [OF p assms(2)] by (auto simp: preparable_def complete_def)
qed

lemma dom_entries_durable: "dom (entries_durable d) = dom d"
  by (auto simp: entries_durable_def)

lemma errors_Join_None: "errors_Join es = None \<longleftrightarrow> (\<forall>e \<in> set es. e = None)"
proof -
  have "errors_Join es = None \<longleftrightarrow> filter (\<lambda>x. x \<noteq> None) es = []"
    by (auto simp: errors_Join_def map_filter_def split: list.splits)
  then show ?thesis
    by (auto simp: filter_empty_conv)
qed

text \<open>Renaming the complete temporary file and flushing the directory.\<close>

lemma publish_marker:
  assumes fresh: "fresh_dir w" and g: "get_file w tmpFile = Some g" "complete g"
    and rn: "os_Rename tmpFile versionFile w = (None, w1)" and sy: "syncDir w1 = (r, w')"
  shows "preparable w'" "r = None \<Longrightarrow> marked_durably w'"
proof -
  have none: "get_file w versionFile = None"
    using fresh names_differ by (auto simp: fresh_dir_def)
  have w1: "get_file w1 = (get_file w)(tmpFile := None, versionFile \<mapsto> g\<lparr>entry_durable := False\<rparr>)"
    "ghosts w1 = [(tmpFile, g)]" "distinct (map fst (files w1))"
    using os_Rename_spec [OF rn _ g(1) none] fresh by (simp_all add: fresh_dir_def)
  define g' where "g' = (if get_file w' = get_file w1 then g\<lparr>entry_durable := False\<rparr> else g\<lparr>entry_durable := True\<rparr>)"
  have g': "get_file w' versionFile = Some g'"
    using syncDir_spec(1) [OF sy] w1(1) by (auto simp: g'_def entries_durable_def)
  have dom: "dom (get_file w') = dom (get_file w1)"
    using syncDir_spec(1) [OF sy] dom_entries_durable by metis
  have durable: "entry_durable g'" if "r = None"
  proof -
    have "get_file w' versionFile = Some (g\<lparr>entry_durable := True\<rparr>)"
      using syncDir_spec(2) [OF sy that] w1(1) by (simp add: entries_durable_def)
    then show ?thesis using g' by simp
  qed
  have "complete g'"
    using g(2) by (simp add: g'_def complete_def)
  then show p: "preparable w'"
    unfolding preparable_def
  proof (intro conjI)
    show "distinct (map fst (files w'))"
      using syncDir_ghosts(3) [OF sy] w1 by simp
    show "dom (get_file w') \<subseteq> {versionFile, tmpFile}"
      using fresh unfolding dom w1(1) fresh_dir_def by auto
  qed (use g' syncDir_ghosts(1) [OF sy] w1 in auto)
  show "r = None \<Longrightarrow> marked_durably w'"
    using p g' durable by (simp add: marked_durably_def)
qed

text \<open>A complete temporary file is renamed over the marker and the directory flushed.\<close>

lemma put_in_place:
  assumes fresh: "fresh_dir w" and g: "get_file w tmpFile = Some g" "complete g" "tidy w"
    and ren: "os_Rename tmpFile versionFile w = (r1, w1)" and sync: "syncDir w1 = (r2, w2)"
    and run: "(ok, w') = (if r1 = None then (r2 = None, w2) else (False, w1))"
  shows "preparable w' \<and> (ok \<longrightarrow> marked_durably w') \<and> sound w ok w'"
proof -
  have "get_file w versionFile = None"
    using fresh names_differ by (auto simp: fresh_dir_def)
  note rn = os_Rename_spec [OF ren g(3,1) this]
  show ?thesis
  proof (cases r1)
    case (Some err)
    moreover have "fresh_dir w1"
      using rn Some fresh by (simp add: fresh_dir_def same_disk_def)
    ultimately show ?thesis
      using run fresh_preparable rn by (auto simp: sound_def)
  next
    case None
    then show ?thesis
      using run rn publish_marker [OF fresh g(1,2) _ sync] ren syncDir_spec(5) [OF sync] by (auto simp: sound_def)
  qed
qed

lemma writeFileAtomic_marker:
  assumes fresh: "fresh_dir w" and run: "writeFileAtomic versionFile marker w = (r, w')"
  shows "preparable w' \<and> (r = None \<longrightarrow> marked_durably w') \<and> sound w (r = None) w'"
proof -
  obtain r0 w0 where c: "os_CreateTrunc tmpFile w = (r0, w0)" by fastforce
  note cs = os_CreateTrunc_spec [OF c]
  show ?thesis
  proof (cases r0)
    case (Inl e)
    then have "r \<noteq> None" "w' = w0"
      using run c by (auto simp: writeFileAtomic_def Let_def)
    moreover have "fresh_dir w0"
      using cs Inl fresh by (simp add: fresh_dir_def same_disk_def)
    ultimately show ?thesis
      using cs Inl fresh_preparable by (auto simp: sound_def)
  next
    case (Inr h)
    then obtain f where f: "get_file w0 tmpFile = Some f" "content f = []" "get_file w0 = (get_file w)(tmpFile \<mapsto> f)"
      and h: "h = \<lparr>h_name = tmpFile, h_open = True\<rparr>" and t0: "tidy w0" and s0: "sound w True w0"
      using cs fresh by (auto simp: fresh_dir_def)
    obtain r1 w1 where 1: "file_Write h marker w0 = (r1, w1)" by fastforce
    obtain r2 w2 where 2: "file_Sync h w1 = (r2, w2)" by fastforce
    obtain r3 h3 w3 where 3: "file_Close h w2 = (r3, h3, w3)" by (metis prod_cases3)
    obtain g where g: "get_file w3 = (get_file w0)(tmpFile \<mapsto> g)" "tidy w3"
      "sound w0 (r1 = None \<and> r2 = None \<and> r3 = None) w3"
      "r1 = None \<Longrightarrow> r2 = None \<Longrightarrow> content g = marker \<and> durable g = marker \<and> \<not> pending g"
      using write_temporary [OF h f(1,2) t0 1 2 3] by blast
    have fresh3: "fresh_dir w3"
      using g(1,2) f(3) fresh by (auto simp: fresh_dir_def)
    obtain r4 w4 where 4: "os_Rename tmpFile versionFile w3 = (r4, w4)" by fastforce
    obtain r5 w5 where 5: "syncDir w4 = (r5, w5)" by fastforce
    have run': "(r = None, w') = (case errors_Join [r1, r2, r3] of Some err \<Rightarrow> (False, w3)
        | None \<Rightarrow> if r4 = None then (r5 = None, w5) else (False, w4))"
      using run c Inr 1 2 3 4 5 by (auto simp: writeFileAtomic_def Let_def split: option.splits)
    show ?thesis
    proof (cases "r1 = None \<and> r2 = None \<and> r3 = None")
      case False
      then have "r \<noteq> None" "w' = w3"
        using run' errors_Join_None [of "[r1, r2, r3]"] by (auto split: option.splits)
      then show ?thesis
        using fresh3 fresh_preparable g(3) s0 False by (auto simp: sound_def)
    next
      case True
      then have rw: "(r = None, w') = (if r4 = None then (r5 = None, w5) else (False, w4))"
        and cg: "complete g" "get_file w3 tmpFile = Some g"
        using run' g(1,4) by (auto simp: errors_Join_def map_filter_def complete_def)
      from put_in_place [OF fresh3 cg(2,1) g(2) 4 5 rw] show ?thesis
        using s0 g(3) True by (auto simp: sound_def)
    qed
  qed
qed

lemma os_ReadDir_names:
  assumes "os_ReadDir w = (Inr es, w')"
  shows "set (map fst es) = dom (get_file w)"
proof -
  obtain x w1 where x: "next_outcome w = (x, w1)" by fastforce
  have "map fst es = sort (map fst (files w))"
    using assms x next_outcome_world(1) [OF x] by (auto simp: os_ReadDir_def comp_def split: outcome.splits)
  then show ?thesis
    by (simp add: get_file_def dom_map_of_conv_image_fst [symmetric] dom_def)
qed

lemma refused_unless_fresh:
  "os_ReadDir w = (Inr es, w') \<Longrightarrow>
     list_ex (\<lambda>e. fst e \<noteq> tmpFile) es \<longleftrightarrow> \<not> dom (get_file w) \<subseteq> {tmpFile}"
  using os_ReadDir_names [of w es w'] by (force simp: list_ex_iff)

lemma initializeDataDir_fresh:
  assumes "fresh_dir w" and run: "initializeDataDir dir w = (r, w')"
  shows "preparable w' \<and> (r = None \<longrightarrow> marked_durably w') \<and> sound w (r = None) w'"
proof -
  obtain x w1 where x: "os_ReadDir w = (x, w1)" by fastforce
  have fresh1: "fresh_dir w1" and s: "sound w (\<not> isl x) w1"
    using os_ReadDir_spec(1,2) [OF x] assms(1) by (auto simp: fresh_dir_def same_disk_def)
  show ?thesis
  proof (cases x)
    case (Inl e)
    then show ?thesis
      using run x fresh1 fresh_preparable s by (auto simp: initializeDataDir_def sound_def)
  next
    case (Inr es)
    then have "writeFileAtomic versionFile marker w1 = (r, w')"
      using run x refused_unless_fresh [of w es w1] assms(1)
      by (simp add: initializeDataDir_def fresh_dir_def marker_def)
    then show ?thesis
      using writeFileAtomic_marker [OF fresh1] s Inr by (auto simp: sound_def)
  qed
qed

text \<open>A directory that is not fresh is not initialized: no run writes to it.\<close>

lemma initializeDataDir_occupied:
  assumes "\<not> dom (get_file w) \<subseteq> {tmpFile}" and run: "initializeDataDir dir w = (r, w')"
  shows "r \<noteq> None \<and> unchanged w w'"
proof -
  obtain x w1 where x: "os_ReadDir w = (x, w1)" by fastforce
  then have "unchanged w w1"
    using unchanged_next [of w] by (auto simp: os_ReadDir_def split: prod.splits outcome.splits)
  then show ?thesis
    using run x refused_unless_fresh [of w _ w1] assms(1)
    by (cases x) (auto simp: initializeDataDir_def)
qed

lemma PrepareDataDir_run:
  assumes "PrepareDataDir quote dir w = (r, w')"
  obtains (os_error) "r \<noteq> None" "unchanged w w'" "faults w \<noteq> []"
  | (checks) f where "get_file w versionFile = Some f" "r = checkVersion quote dir (text_of (content f))"
      "unchanged w w'" "sound w True w'"
  | (initializes) w1 where "unchanged w w1" "sound w (get_file w versionFile = None) w1"
      "initializeDataDir dir w1 = (r, w')"
proof -
  obtain x w1 where x: "os_MkdirAll w = (x, w1)" by fastforce
  obtain y w2 where y: "os_ReadFile versionFile w1 = (y, w2)" by fastforce
  have m: "unchanged w w1" "sound w (x = None) w1"
    using x unchanged_next [of w] by (auto simp: os_MkdirAll_def sound_def split: prod.splits outcome.splits)
  then have get: "get_file w1 = get_file w"
    using unchanged_get by simp
  have same: "unchanged w1 w2" and rd: "\<And>t. y = Inr t \<Longrightarrow> \<exists>f. get_file w1 versionFile = Some f \<and> t = content f"
    and sd: "sound w1 (get_file w1 versionFile = None \<or> \<not> isl y) w2"
    and ne: "\<And>e. y = Inl e \<Longrightarrow> faults w1 = [] \<Longrightarrow> is_not_exist e"
  proof -
    obtain z w0 where z: "next_outcome w1 = (z, w0)" by fastforce
    have u: "unchanged w1 w0" "sound w1 (z = Ok) w0" "get_file w0 = get_file w1"
      using unchanged_next [OF z] unchanged_get by blast+
    show "unchanged w1 w2" "\<And>t. y = Inr t \<Longrightarrow> \<exists>f. get_file w1 versionFile = Some f \<and> t = content f"
      "sound w1 (get_file w1 versionFile = None \<or> \<not> isl y) w2"
      "\<And>e. y = Inl e \<Longrightarrow> faults w1 = [] \<Longrightarrow> is_not_exist e"
      using y z u by (auto simp: os_ReadFile_def sound_def errNotExist_def split: outcome.splits option.splits)
  qed
  have same2: "unchanged w w2"
    using m(1) same by (rule unchanged_trans)
  show thesis
  proof (cases x)
    case (Some e)
    then show thesis
      using os_error assms x m by (auto simp: PrepareDataDir_def sound_def)
  next
    case None
    show thesis
    proof (cases y)
      case (Inr t)
      then obtain f where "get_file w1 versionFile = Some f" "t = content f"
        using rd by blast
      then show thesis
        using checks [of f] assms x y m None Inr same2 sd get by (auto simp: PrepareDataDir_def sound_def)
    next
      case (Inl e)
      show thesis
      proof (cases "is_not_exist e")
        case True
        then show thesis
          using initializes [of w2] assms x y m None Inl same2 sd get by (auto simp: PrepareDataDir_def sound_def)
      next
        case False
        then show thesis
          using os_error assms x y m None Inl same2 ne by (auto simp: PrepareDataDir_def sound_def)
      qed
    qed
  qed
qed

lemma preparable_step:
  assumes "preparable w" and run: "PrepareDataDir quote dir w = (r, w')"
  shows "preparable w' \<and> sound w (r = None) w' \<and> (fresh_dir w \<and> r = None \<longrightarrow> marked_durably w')"
  using run
proof (cases rule: PrepareDataDir_run)
  case os_error
  then show ?thesis
    using preparable_unchanged [OF _ assms(1)] by (auto simp: sound_def)
next
  case (checks f)
  have "complete f"
    using checks(1) assms(1) by (auto simp: preparable_def)
  then have "r = None"
    using checks(2) checkVersion_marker by (simp add: complete_def)
  moreover have "\<not> fresh_dir w"
    using checks(1) names_differ by (auto simp: fresh_dir_def)
  ultimately show ?thesis
    using preparable_unchanged [OF checks(3) assms(1)] checks(4) by (simp add: sound_def)
next
  case (initializes w1)
  have p1: "preparable w1"
    using initializes(1) assms(1) by (rule preparable_unchanged)
  show ?thesis
    using p1
  proof (cases rule: preparable_cases)
    case (marked f)
    then have "versionFile \<in> dom (get_file w1)" "get_file w versionFile \<noteq> None"
      using initializes(1) unchanged_get by auto
    then have occ: "\<not> dom (get_file w1) \<subseteq> {tmpFile}" and nf: "\<not> fresh_dir w"
      using unchanged_get [OF initializes(1)] names_differ by (auto simp: fresh_dir_def)
    show ?thesis
      using initializeDataDir_occupied [OF occ initializes(3)] preparable_unchanged [OF _ p1] initializes(2) nf marked
        unchanged_get [OF initializes(1)] by (simp add: sound_def)
  next
    case unmarked
    then show ?thesis
      using initializeDataDir_fresh [OF _ initializes(3)] initializes(2) unchanged_get [OF initializes(1)]
        names_differ by (auto simp: sound_def fresh_dir_def)
  qed
qed

subsection \<open>Histories of a data directory\<close>

text \<open>
  A directory starts out empty and is prepared any number of times, with any calls failing, and with
  crashes in between.
\<close>

inductive dir_reach :: "(string \<Rightarrow> string) \<Rightarrow> string \<Rightarrow> world \<Rightarrow> bool" for quote dir where
  boot: "files w = [] \<Longrightarrow> ghosts w = [] \<Longrightarrow> dir_reach quote dir w"
| prepare: "dir_reach quote dir w \<Longrightarrow> PrepareDataDir quote dir w = (r, w') \<Longrightarrow> dir_reach quote dir w'"
| crash: "dir_reach quote dir w \<Longrightarrow> crash w w' \<Longrightarrow> dir_reach quote dir w'"
| faults: "dir_reach quote dir w \<Longrightarrow> dir_reach quote dir (w\<lparr>faults := fs\<rparr>)"

lemma dir_reach_preparable: "dir_reach quote dir w \<Longrightarrow> preparable w"
proof (induction rule: dir_reach.induct)
  case (boot w)
  then show ?case by (simp add: preparable_def get_file_def dom_def)
next
  case (prepare w r w')
  then show ?case using preparable_step by blast
next
  case (crash w w')
  then show ?case by (rule_tac preparable_crash)
next
  case (faults w fs)
  then show ?case by (rule_tac preparable_unchanged [of w]) (simp_all add: unchanged_def)
qed

text \<open>
  C16: However often initialization failed or was interrupted by a crash, the version marker of the
  directory is either absent or complete, and preparing the directory again succeeds once the
  system calls work.
\<close>

theorem PrepareDataDir_recoverable:
  assumes "dir_reach quote dir w"
  shows "(\<forall>f. get_file w versionFile = Some f \<longrightarrow> text_of (content f) = ''1'' @ [CHR 0x0A]) \<and>
    (\<exists>w'. PrepareDataDir quote dir (w\<lparr>faults := []\<rparr>) = (None, w'))"
proof -
  have "text_of marker = ''1'' @ [CHR 0x0A]"
    by (simp add: marker_def show_int_def FormatVersion_def show_nat.simps digit_char_def char_of_def bit_0)
  then have "\<forall>f. get_file w versionFile = Some f \<longrightarrow> text_of (content f) = ''1'' @ [CHR 0x0A]"
    using dir_reach_preparable [OF assms] by (simp add: preparable_def complete_def)
  moreover have "preparable (w\<lparr>faults := []\<rparr>)"
    using dir_reach_preparable [OF dir_reach.faults [OF assms]] .
  then have "\<exists>w'. PrepareDataDir quote dir (w\<lparr>faults := []\<rparr>) = (None, w')"
    using preparable_step [of "w\<lparr>faults := []\<rparr>" quote dir]
    by (cases "PrepareDataDir quote dir (w\<lparr>faults := []\<rparr>)") (simp add: sound_def)
  ultimately show ?thesis ..
qed

abbreviation blank_world :: "outcome list \<Rightarrow> world" where
  "blank_world fs \<equiv> \<lparr>files = [], ghosts = [], faults = fs, log_lines = []\<rparr>"

abbreviation marker_file :: "bool \<Rightarrow> dfile" where
  "marker_file flushed \<equiv>
     \<lparr>content = marker, durable = marker, pending = False, entry_durable = flushed, regular = True\<rparr>"

lemmas run_simps = PrepareDataDir_def os_MkdirAll_def os_ReadFile_def initializeDataDir_def os_ReadDir_def
  writeFileAtomic_def os_CreateTrunc_def file_Write_def file_Sync_def file_Close_def os_Rename_def syncDir_def
  next_outcome_def get_file_def put_file_def append_content_def sync_entries_def errors_Join_def map_filter_def
  errNotExist_def

lemma prepare_blank:
  "PrepareDataDir quote dir (blank_world []) =
     (None, \<lparr>files = [(versionFile, marker_file True)], ghosts = [], faults = [], log_lines = []\<rparr>)"
  by (simp add: run_simps marker_def [symmetric] Let_def)

lemma prepare_interrupted:
  "PrepareDataDir quote dir (blank_world (replicate 8 Ok @ [Fail errExist 0])) =
     (Some (KV (Some (Wrap ReasonInternal errExist ''directory could not be opened for sync''))),
      \<lparr>files = [(versionFile, marker_file False)], ghosts = [(tmpFile, marker_file False)], faults = [], log_lines = []\<rparr>)"
  by (simp add: run_simps marker_def [symmetric] Let_def eval_nat_numeral)

theorem PrepareDataDir_recoverable_witness:
  "\<exists>w'. PrepareDataDir id ''data'' (snd (PrepareDataDir id ''data'' (blank_world [Ok, Ok, Ok, Ok, Fail errExist 1]))\<lparr>faults := []\<rparr>) = (None, w')"
proof -
  have "dir_reach id ''data'' (snd (PrepareDataDir id ''data'' (blank_world [Ok, Ok, Ok, Ok, Fail errExist 1])))"
    by (rule dir_reach.prepare [OF dir_reach.boot, where r = "fst (PrepareDataDir id ''data'' (blank_world [Ok, Ok, Ok, Ok, Fail errExist 1]))"]) simp_all
  from PrepareDataDir_recoverable [OF this] show ?thesis by blast
qed

text \<open>
  C17: A directory without a marker that was prepared successfully keeps its marker in every later
  crash: the marker's bytes and its directory entry are flushed before success is reported.
\<close>

theorem PrepareDataDir_marker_survives:
  assumes "dir_reach quote dir w" and "get_file w versionFile = None"
    and "PrepareDataDir quote dir w = (None, w1)" and "crash w1 w2"
  shows "\<exists>f. get_file w2 versionFile = Some f \<and> content f = str (show_int FormatVersion @ [CHR 0x0A])"
proof -
  have p: "preparable w"
    using assms(1) by (rule dir_reach_preparable)
  then have "fresh_dir w"
    by (cases rule: preparable_cases) (simp_all add: assms(2))
  then have "marked_durably w1"
    using preparable_step [OF p assms(3)] by simp
  from marked_durably_crash [OF this assms(4)] show ?thesis
    by (simp add: marker_def)
qed

theorem PrepareDataDir_marker_survives_witness:
  "let w = \<lparr>files = [(versionFile, marker_file True)], ghosts = [], faults = [], log_lines = []\<rparr>
   in crash w w \<and> (\<exists>f. get_file w versionFile = Some f \<and> content f = str (show_int FormatVersion @ [CHR 0x0A]))"
proof -
  let ?w = "\<lparr>files = [(versionFile, marker_file True)], ghosts = [], faults = [], log_lines = []\<rparr>"
  have c: "crash ?w ?w"
    by (simp add: crash_def crash_file_def get_file_def)
  have "dir_reach id ''data'' (blank_world [])"
    by (rule dir_reach.boot) simp_all
  from PrepareDataDir_marker_survives [OF this _ prepare_blank c] c show ?thesis
    by (simp add: get_file_def)
qed

text \<open>
  A directory with a marker is accepted exactly when the marker, with surrounding white space
  removed, is the decimal number of the format this binary supports; the directory is not touched.
\<close>

theorem PrepareDataDir_checks_version:
  assumes "get_file w versionFile = Some f" and "faults w = []"
  shows "\<exists>r w'. PrepareDataDir quote dir w = (r, w') \<and> files w' = files w \<and>
    (r = None \<longleftrightarrow> Atoi (TrimSpace (text_of (content f))) = Some FormatVersion)"
proof -
  obtain r w' where run: "PrepareDataDir quote dir w = (r, w')" by fastforce
  then show ?thesis
  proof (cases rule: PrepareDataDir_run)
    case os_error
    then show ?thesis using assms by simp
  next
    case (checks g)
    then show ?thesis
      using run assms(1) by (auto simp: unchanged_def checkVersion_def split: option.splits)
  next
    case (initializes w1)
    then show ?thesis using assms by (simp add: sound_def)
  qed
qed

theorem PrepareDataDir_checks_version_witness:
  "\<exists>r w'. PrepareDataDir id ''data'' \<lparr>files = [(versionFile, \<lparr>content = str ''2'', durable = [], pending = False,
       entry_durable = True, regular = True\<rparr>)], ghosts = [], faults = [], log_lines = []\<rparr> = (r, w') \<and> r \<noteq> None"
proof -
  let ?f = "\<lparr>content = str ''2'', durable = [], pending = False, entry_durable = True, regular = True\<rparr>"
  have "TrimSpace ''2'' = ''2''"
    by (simp add: TrimSpace_def trim_left.simps space_seqs_def upt_conv_Cons char_of_def bit_0)
  then have "Atoi (TrimSpace (text_of (content ?f))) \<noteq> Some FormatVersion"
    by (simp add: Atoi_def ParseUint_def digit_val_def FormatVersion_def)
  then show ?thesis
    using PrepareDataDir_checks_version [of "\<lparr>files = [(versionFile, ?f)], ghosts = [], faults = [], log_lines = []\<rparr>" ?f id "''data''"]
    by (auto simp: get_file_def)
qed

text \<open>
  C18: A directory that holds anything but a leftover temporary marker, and has no marker, is refused,
  and not a byte of it is changed, whatever calls fail.
\<close>

theorem PrepareDataDir_refuses_foreign_data:
  assumes "get_file w versionFile = None" and "get_file w name \<noteq> None" and "name \<noteq> versionFile @ ''.tmp''"
    and "PrepareDataDir quote dir w = (r, w')"
  shows "r \<noteq> None \<and> files w' = files w"
  using assms(4)
proof (cases rule: PrepareDataDir_run)
  case os_error
  then show ?thesis by (simp add: unchanged_def)
next
  case (checks f)
  then show ?thesis using assms(1) by simp
next
  case (initializes w1)
  have "\<not> dom (get_file w1) \<subseteq> {tmpFile}"
    using assms(2,3) unchanged_get [OF initializes(1)] by auto
  from initializeDataDir_occupied [OF this initializes(3)] initializes(1) show ?thesis
    by (simp add: unchanged_def)
qed

theorem PrepareDataDir_refuses_foreign_data_witness:
  "fst (PrepareDataDir id ''data'' \<lparr>files = [(''log'', marker_file True)], ghosts = [], faults = [], log_lines = []\<rparr>) \<noteq> None"
proof -
  let ?w = "\<lparr>files = [(''log'', marker_file True)], ghosts = [], faults = [], log_lines = []\<rparr>"
  show ?thesis
    using PrepareDataDir_refuses_foreign_data [of ?w "''log''" id "''data''" "fst (PrepareDataDir id ''data'' ?w)"
        "snd (PrepareDataDir id ''data'' ?w)"]
    by (simp add: get_file_def versionFile_def)
qed

text \<open>
  The durability of the marker is not restored by a second attempt: when the first preparation put
  the marker in place but failed to flush the directory, the next one accepts the marker as it is, and
  after its success a crash can still remove the marker. If the log directory created meanwhile
  survives that crash, the node refuses its own data directory.
\<close>

theorem marker_flush_not_repeated:
  "\<exists>w0 e w1 w2 w3.
     dir_reach quote dir w0 \<and> PrepareDataDir quote dir w0 = (Some e, w1) \<and> PrepareDataDir quote dir w1 = (None, w2) \<and>
     crash (put_file logDir \<lparr>content = [], durable = [], pending = False, entry_durable = False, regular = False\<rparr> w2) w3 \<and>
     get_file w3 versionFile = None \<and> fst (PrepareDataDir quote dir w3) \<noteq> None"
proof -
  let ?d = "\<lparr>content = [], durable = [], pending = False, entry_durable = False, regular = False\<rparr>"
  let ?w1 = "\<lparr>files = [(versionFile, marker_file False)], ghosts = [(tmpFile, marker_file False)], faults = [], log_lines = []\<rparr>"
  let ?w3 = "\<lparr>files = [(logDir, ?d\<lparr>entry_durable := True\<rparr>)], ghosts = [], faults = [], log_lines = []\<rparr>"
  have neq: "versionFile \<noteq> logDir" "logDir \<noteq> versionFile" "logDir \<noteq> tmpFile"
    by (simp_all add: versionFile_def logDir_def)
  have "dir_reach quote dir (blank_world (replicate 8 Ok @ [Fail errExist 0]))"
    by (rule dir_reach.boot) simp_all
  moreover note prepare_interrupted [of quote dir]
  moreover have "PrepareDataDir quote dir ?w1 = (None, ?w1)"
    by (simp add: PrepareDataDir_def os_MkdirAll_def os_ReadFile_def next_outcome_def get_file_def checkVersion_marker)
  moreover have "crash (put_file logDir ?d ?w1) ?w3"
    by (auto simp: crash_def crash_file_def get_file_def put_file_def neq)
  moreover have "get_file ?w3 versionFile = None" "fst (PrepareDataDir quote dir ?w3) \<noteq> None"
    using neq by (auto simp: run_simps)
  ultimately show ?thesis by blast
qed

end
