(* ===== verification/Clock.thy ===== *)
theory Clock
  imports Prelude "HOL-Library.Monad_Syntax"
begin

text \<open>
  \<^verbatim>\<open>internal/clock/clocktest/fake.go\<close>: the clock that drives time-dependent code in tests. Times are
  nanoseconds. Tickers are numbered as they are created; \<open>live\<close> lists the keys of the map of running
  tickers, and a ticker's channel keeps its buffered tick after the ticker is stopped. \<^verbatim>\<open>Advance\<close> contains a
  loop that need not end, so it is a partial function; the lemmas show that it always ends, because no
  ticker with an interval of zero or less exists, and that the clock behaves as its comments say.
\<close>

subsection \<open>Definitions\<close>

record fakeTicker =
  interval :: int
  next_tick :: int
  chan :: "int list"

record Fake =
  now :: int
  tickers :: "fakeTicker list"
  live :: "nat list"

definition New_Fake :: "int \<Rightarrow> Fake" where
  "New_Fake start = \<lparr>now = start, tickers = [], live = []\<rparr>"

definition Now :: "Fake \<Rightarrow> int" where "Now f = now f"

text \<open>A panic is \<open>None\<close>.\<close>

definition NewTicker :: "int \<Rightarrow> Fake \<Rightarrow> (nat \<times> Fake) option" where
  "NewTicker d f =
     (if d \<le> 0 then None
      else
        let t = \<lparr>interval = d, next_tick = now f + d, chan = []\<rparr>;
            n = length (tickers f)
        in Some (n, f\<lparr>tickers := tickers f @ [t], live := live f @ [n]\<rparr>))"

text \<open>The channel has room for one tick; a tick that finds it full is dropped.\<close>

definition try_send :: "int \<Rightarrow> fakeTicker \<Rightarrow> fakeTicker" where
  "try_send x t = (if length (chan t) < 1 then t\<lparr>chan := chan t @ [x]\<rparr> else t)"

partial_function (option) skip_missed :: "int \<Rightarrow> int \<Rightarrow> int \<Rightarrow> int option" where
  "skip_missed n d next = (if \<not> n < next then skip_missed n d (next + d) else Some next)"

definition fire :: "int \<Rightarrow> fakeTicker \<Rightarrow> fakeTicker option" where
  "fire n t =
     (if n < next_tick t then Some t
      else
        let t = try_send n t
        in Option.bind (skip_missed n (interval t) (next_tick t)) (\<lambda>next. Some (t\<lparr>next_tick := next\<rparr>)))"

fun fire_all :: "int \<Rightarrow> nat list \<Rightarrow> fakeTicker list \<Rightarrow> fakeTicker list option" where
  "fire_all n [] ts = Some ts"
| "fire_all n (i # is) ts = Option.bind (fire n (ts ! i)) (\<lambda>t. fire_all n is (ts[i := t]))"

definition Advance :: "int \<Rightarrow> Fake \<Rightarrow> Fake option" where
  "Advance d f =
     (let f = f\<lparr>now := now f + d\<rparr>
      in Option.bind (fire_all (now f) (live f) (tickers f)) (\<lambda>ts. Some (f\<lparr>tickers := ts\<rparr>)))"

definition ticker_C :: "nat \<Rightarrow> Fake \<Rightarrow> int list" where "ticker_C i f = chan (tickers f ! i)"

definition Stop :: "nat \<Rightarrow> Fake \<Rightarrow> Fake" where
  "Stop i f = f\<lparr>live := filter (\<lambda>j. j \<noteq> i) (live f)\<rparr>"

text \<open>A receiver takes the buffered tick.\<close>

definition receive :: "nat \<Rightarrow> Fake \<Rightarrow> (int \<times> Fake) option" where
  "receive i f =
     (case ticker_C i f of
        [] \<Rightarrow> None
      | x # xs \<Rightarrow> Some (x, f\<lparr>tickers := (tickers f)[i := (tickers f ! i)\<lparr>chan := xs\<rparr>]\<rparr>))"

subsection \<open>Runs of the clock\<close>

inductive clock_reach :: "int \<Rightarrow> Fake \<Rightarrow> bool" for start where
  new: "clock_reach start (New_Fake start)"
| ticker: "clock_reach start f \<Longrightarrow> NewTicker d f = Some (i, f') \<Longrightarrow> clock_reach start f'"
| advance: "clock_reach start f \<Longrightarrow> 0 \<le> d \<Longrightarrow> Advance d f = Some f' \<Longrightarrow> clock_reach start f'"
| stop: "clock_reach start f \<Longrightarrow> clock_reach start (Stop i f)"
| recv: "clock_reach start f \<Longrightarrow> i < length (tickers f) \<Longrightarrow> receive i f = Some (x, f') \<Longrightarrow> clock_reach start f'"

text \<open>
  A ticker is sound at a time when its interval is positive and its channel holds at most one tick, not
  from the future; a running one has its next tick ahead, at most one interval away.
\<close>

definition sound_ticker :: "int \<Rightarrow> fakeTicker \<Rightarrow> bool" where
  "sound_ticker n t \<longleftrightarrow> 0 < interval t \<and> length (chan t) \<le> 1 \<and> (\<forall>x \<in> set (chan t). x \<le> n)"

definition waiting :: "int \<Rightarrow> fakeTicker \<Rightarrow> bool" where
  "waiting n t \<longleftrightarrow> n < next_tick t \<and> next_tick t \<le> n + interval t"

definition sound_clock :: "Fake \<Rightarrow> bool" where
  "sound_clock f \<longleftrightarrow> distinct (live f) \<and> (\<forall>t \<in> set (tickers f). sound_ticker (now f) t) \<and>
     (\<forall>i \<in> set (live f). i < length (tickers f) \<and> waiting (now f) (tickers f ! i))"

subsection \<open>The loop ends\<close>

lemma skip_missed_ends:
  assumes "0 < d"
  shows "\<exists>k. skip_missed n d next = Some (next + int k * d) \<and> n < next + int k * d \<and>
    (0 < k \<longrightarrow> next + int k * d \<le> n + d) \<and> (k = 0 \<longleftrightarrow> n < next)"
proof (induction "nat (n + 1 - next)" arbitrary: "next" rule: less_induct)
  case less
  show ?case
  proof (cases "n < next")
    case True
    then show ?thesis by (subst skip_missed.simps) (auto intro!: exI [of _ 0])
  next
    case False
    then have "nat (n + 1 - (next + d)) < nat (n + 1 - next)"
      using assms by simp
    from less [OF this] obtain k where k: "skip_missed n d (next + d) = Some (next + d + int k * d)"
      "n < next + d + int k * d" "0 < k \<longrightarrow> next + d + int k * d \<le> n + d" "k = 0 \<longleftrightarrow> n < next + d"
      by blast
    have "next + int (Suc k) * d = next + d + int k * d"
      by (simp add: algebra_simps)
    moreover have "skip_missed n d next = skip_missed n d (next + d)"
      using False by (subst skip_missed.simps) simp
    ultimately show ?thesis
      using k False by (intro exI [of _ "Suc k"]) auto
  qed
qed

text \<open>What a running ticker looks like after the time moved on to \<open>n\<close>.\<close>

definition fired :: "int \<Rightarrow> fakeTicker \<Rightarrow> fakeTicker \<Rightarrow> bool" where
  "fired n t t' \<longleftrightarrow> interval t' = interval t \<and> waiting n t' \<and>
     interval t dvd (next_tick t' - next_tick t) \<and>
     chan t' = (if next_tick t \<le> n \<and> chan t = [] then [n] else chan t)"

lemma fire_ends:
  assumes "sound_ticker m t" and "waiting m t" and "m \<le> n"
  shows "\<exists>t'. fire n t = Some t' \<and> fired n t t'"
proof (cases "n < next_tick t")
  case True
  then show ?thesis
    using assms by (auto simp: fire_def fired_def waiting_def)
next
  case False
  have d: "0 < interval t"
    using assms(1) by (simp add: sound_ticker_def)
  obtain k where k: "skip_missed n (interval t) (next_tick t) = Some (next_tick t + int k * interval t)"
    "n < next_tick t + int k * interval t" "0 < k \<longrightarrow> next_tick t + int k * interval t \<le> n + interval t" "k = 0 \<longleftrightarrow> n < next_tick t"
    using skip_missed_ends [OF d, of n "next_tick t"] by blast
  have "interval (try_send n t) = interval t" "next_tick (try_send n t) = next_tick t"
    by (simp_all add: try_send_def)
  then have "fire n t = Some ((try_send n t)\<lparr>next_tick := next_tick t + int k * interval t\<rparr>)"
    using False k(1) by (simp add: fire_def)
  moreover have "fired n t ((try_send n t)\<lparr>next_tick := next_tick t + int k * interval t\<rparr>)"
    using k False by (auto simp: fired_def waiting_def try_send_def)
  ultimately show ?thesis by blast
qed

lemma fire_all_ends:
  assumes "distinct is" and "\<And>i. i \<in> set is \<Longrightarrow> i < length ts \<and> sound_ticker m (ts ! i) \<and> waiting m (ts ! i)" and "m \<le> n"
  shows "\<exists>ts'. fire_all n is ts = Some ts' \<and> length ts' = length ts \<and>
    (\<forall>i < length ts. if i \<in> set is then fired n (ts ! i) (ts' ! i) else ts' ! i = ts ! i)"
  using assms(1,2)
proof (induction "is" arbitrary: ts)
  case Nil
  then show ?case by simp
next
  case (Cons i "is")
  obtain t where t: "fire n (ts ! i) = Some t" "fired n (ts ! i) t"
    using Cons.prems(2) [of i] fire_ends [OF _ _ assms(3)] by auto
  have "j < length (ts[i := t]) \<and> sound_ticker m (ts[i := t] ! j) \<and> waiting m (ts[i := t] ! j)" if "j \<in> set is" for j
    using Cons.prems that by (auto simp: nth_list_update)
  then obtain ts' where ts': "fire_all n is (ts[i := t]) = Some ts'" "length ts' = length ts"
    "\<forall>j < length ts. if j \<in> set is then fired n (ts[i := t] ! j) (ts' ! j) else ts' ! j = ts[i := t] ! j"
    using Cons.IH [of "ts[i := t]"] Cons.prems(1) by auto
  have "if j \<in> set (i # is) then fired n (ts ! j) (ts' ! j) else ts' ! j = ts ! j" if "j < length ts" for j
    using ts'(3) [rule_format, OF that] Cons.prems t(2) that by (cases "j = i") (auto simp: nth_list_update)
  then show ?case
    using t(1) ts' by auto
qed

lemma Advance_ends:
  assumes "sound_clock f" and "0 \<le> d"
  shows "\<exists>f'. Advance d f = Some f' \<and> now f' = now f + d \<and> live f' = live f \<and> length (tickers f') = length (tickers f) \<and>
    (\<forall>i < length (tickers f). if i \<in> set (live f) then fired (now f + d) (tickers f ! i) (tickers f' ! i)
       else tickers f' ! i = tickers f ! i)"
  using fire_all_ends [of "live f" "tickers f" "now f" "now f + d"] assms
  by (auto simp: sound_clock_def Advance_def Let_def)

lemma fired_sound: "fired n t t' \<Longrightarrow> sound_ticker m t \<Longrightarrow> m \<le> n \<Longrightarrow> sound_ticker n t' \<and> waiting n t'"
  by (auto simp: fired_def sound_ticker_def split: if_splits)

lemma clock_reach_sound: "clock_reach start f \<Longrightarrow> sound_clock f"
proof (induction rule: clock_reach.induct)
  case new
  then show ?case by (simp add: sound_clock_def New_Fake_def)
next
  case (ticker f d i f')
  then show ?case
    by (auto simp: sound_clock_def NewTicker_def Let_def sound_ticker_def waiting_def nth_append less_Suc_eq split: if_splits)
next
  case (advance f d f')
  from Advance_ends [OF advance.IH advance.hyps(2)] advance.hyps(3)
  have f': "now f' = now f + d" "live f' = live f" "length (tickers f') = length (tickers f)"
    "\<forall>i < length (tickers f). if i \<in> set (live f) then fired (now f + d) (tickers f ! i) (tickers f' ! i)
       else tickers f' ! i = tickers f ! i"
    by auto
  have s: "sound_ticker (now f) (tickers f ! i)" if "i < length (tickers f)" for i
    using advance.IH that by (simp add: sound_clock_def)
  have "sound_ticker (now f') (tickers f' ! i) \<and> (i \<in> set (live f) \<longrightarrow> waiting (now f') (tickers f' ! i))"
    if "i < length (tickers f)" for i
  proof (cases "i \<in> set (live f)")
    case True
    then show ?thesis
      using f'(4) that fired_sound [OF _ s [OF that]] advance.hyps(2) f'(1) by (auto split: if_splits)
  next
    case False
    then show ?thesis
      using f'(1,4) that s [OF that] advance.hyps(2) by (fastforce simp: sound_ticker_def)
  qed
  then show ?case
    using advance.IH f'(2,3) by (auto simp: sound_clock_def in_set_conv_nth)
next
  case (stop f i)
  then show ?case by (auto simp: sound_clock_def Stop_def)
next
  case (recv f i x f')
  then obtain xs where f': "f' = f\<lparr>tickers := (tickers f)[i := (tickers f ! i)\<lparr>chan := xs\<rparr>]\<rparr>"
    and xs: "chan (tickers f ! i) = x # xs"
    by (auto simp: receive_def ticker_C_def split: list.splits)
  have "sound_ticker (now f) (tickers f ! i)"
    using recv by (simp add: sound_clock_def)
  then have t: "sound_ticker (now f) ((tickers f ! i)\<lparr>chan := xs\<rparr>)"
    by (auto simp: sound_ticker_def xs)
  show ?case
    unfolding sound_clock_def
  proof (intro conjI ballI)
    show "sound_ticker (now f') u" if "u \<in> set (tickers f')" for u
      using that t recv.IH set_update_subset_insert [of "tickers f" i] by (fastforce simp: f' sound_clock_def)
  qed (use recv in \<open>auto simp: f' sound_clock_def waiting_def nth_list_update\<close>)
qed

lemma Advance_others:
  assumes "Advance d f = Some f'" and "i \<notin> set (live f)"
  shows "tickers f' ! i = tickers f ! i" "live f' = live f"
proof -
  have keep: "fire_all n is ts = Some ts' \<Longrightarrow> i \<notin> set is \<Longrightarrow> ts' ! i = ts ! i" for n "is" ts ts'
    by (induction "is" arbitrary: ts) (auto simp: Option.bind_eq_Some_conv)
  show "tickers f' ! i = tickers f ! i" "live f' = live f"
    using assms keep by (auto simp: Advance_def Let_def Option.bind_eq_Some_conv)
qed

subsection \<open>Properties\<close>

text \<open>
  C31: Advancing the clock always returns. The time moves forward by exactly the given duration; every
  running ticker that is due gets one tick with the new time if its channel is empty, however often it
  was due, and keeps its unread tick otherwise; its next tick is the first one still ahead in its own
  rhythm; and no other ticker changes.
\<close>

theorem Advance_returns:
  assumes "clock_reach start f" and "0 \<le> d"
  shows "\<exists>f'. Advance d f = Some f' \<and> now f' = now f + d \<and>
    (\<forall>i < length (tickers f).
       let t = tickers f ! i; t' = tickers f' ! i
       in if i \<in> set (live f) then
            chan t' = (if next_tick t \<le> now f' \<and> chan t = [] then [now f'] else chan t) \<and>
            now f' < next_tick t' \<and> next_tick t' \<le> now f' + interval t \<and> interval t dvd (next_tick t' - next_tick t)
          else t' = t)"
proof -
  obtain f' where f': "Advance d f = Some f'" "now f' = now f + d"
    "\<forall>i < length (tickers f). if i \<in> set (live f) then fired (now f + d) (tickers f ! i) (tickers f' ! i)
       else tickers f' ! i = tickers f ! i"
    using Advance_ends [OF clock_reach_sound [OF assms(1)] assms(2)] by blast
  then show ?thesis
    by (intro exI [of _ f'] conjI) (auto simp: Let_def fired_def waiting_def)
qed

theorem Advance_returns_witness:
  "\<exists>f'. Advance 25 \<lparr>now = 0, tickers = [\<lparr>interval = 10, next_tick = 10, chan = []\<rparr>], live = [0]\<rparr> = Some f'
     \<and> chan (tickers f' ! 0) = [25]"
proof -
  let ?f = "\<lparr>now = 0, tickers = [\<lparr>interval = 10, next_tick = 10, chan = []\<rparr>], live = [0]\<rparr>"
  have "clock_reach 0 ?f"
    by (rule clock_reach.ticker [OF clock_reach.new, of 10 _ 0]) (simp add: NewTicker_def New_Fake_def)
  from Advance_returns [OF this, of 25] show ?thesis
    by (auto simp: Let_def)
qed

text \<open>
  C31: A stopped ticker is silent: after \<^verbatim>\<open>Stop\<close>, no sequence of advances changes what its channel holds.
\<close>

theorem stopped_ticker_silent:
  assumes "rtranclp (\<lambda>f f'. \<exists>d. Advance d f = Some f') (Stop i f) f'"
  shows "ticker_C i f' = ticker_C i f"
proof -
  have "i \<notin> set (live f') \<and> ticker_C i f' = ticker_C i (Stop i f)"
    using assms
  proof (induction rule: rtranclp_induct)
    case base
    then show ?case by (simp add: Stop_def)
  next
    case (step g g')
    then show ?case
      using Advance_others by (auto simp: ticker_C_def)
  qed
  then show ?thesis
    by (simp add: ticker_C_def Stop_def)
qed

theorem stopped_ticker_silent_witness:
  "\<exists>f'. Advance 25 (Stop 0 \<lparr>now = 0, tickers = [\<lparr>interval = 10, next_tick = 10, chan = [3]\<rparr>], live = [0]\<rparr>) = Some f'
     \<and> ticker_C 0 f' = [3]"
proof -
  let ?f = "\<lparr>now = 0, tickers = [\<lparr>interval = 10, next_tick = 10, chan = [3]\<rparr>], live = [0]\<rparr>"
  obtain f' where f': "Advance 25 (Stop 0 ?f) = Some f'"
    by (simp add: Advance_def Stop_def)
  then have "rtranclp (\<lambda>f f'. \<exists>d. Advance d f = Some f') (Stop 0 ?f) f'"
    by blast
  from stopped_ticker_silent [OF this] f' show ?thesis
    by (simp add: ticker_C_def)
qed

end
