(* ===== verification/Shard.thy ===== *)
theory Shard
  imports Crc32c Kverr
begin

text \<open>
  Package \<^verbatim>\<open>internal/shard\<close>: the slot function. A key's hash input is the text between its first opening
  brace and the next closing one, when there is any, and the whole key otherwise; its slot is the
  CRC32C of the hash input modulo the slot count. The lemmas give the brace rule as a declarative
  specification, show that it is stable (a key and its partition key always share a slot), and that
  every slot is in range.
\<close>

subsection \<open>Definitions (slot.go)\<close>

definition DefaultSlotCount :: u32 where
  "DefaultSlotCount = 16384"

record Slotter =
  count :: u32

definition NewSlotter :: "u32 \<Rightarrow> error + Slotter" where
  "NewSlotter slotCount =
     (if slotCount = 0 then Inl (KV (Some (New ReasonInvalidArgument ''slot count must be greater than zero'')))
      else Inr \<lparr>count = slotCount\<rparr>)"

definition Count :: "Slotter \<Rightarrow> u32" where
  "Count s = count s"

fun IndexByte :: "bytes \<Rightarrow> byte \<Rightarrow> int" where
  "IndexByte [] b = -1"
| "IndexByte (x # xs) b =
     (if x = b then 0 else let r = IndexByte xs b in if r < 0 then -1 else r + 1)"

definition HashInput :: "bytes \<Rightarrow> bytes" where
  "HashInput key =
     (let start = IndexByte key 0x7B
      in if start < 0 then key
         else
           let len = IndexByte (drop (nat start + 1) key) 0x7D
           in if len \<le> 0 then key else take (nat len) (drop (nat start + 1) key))"

text \<open>The modulo panics for the zero \<^verbatim>\<open>Slotter\<close>: \<open>None\<close> is that panic.\<close>

definition Slot :: "Slotter \<Rightarrow> bytes \<Rightarrow> u32 option" where
  "Slot s key = (if count s = 0 then None else Some (crc32c (HashInput key) mod count s))"

text \<open>The brace rule as a specification: the partition keys of a key.\<close>

definition partition_key :: "bytes \<Rightarrow> bytes \<Rightarrow> bool" where
  "partition_key key tag \<longleftrightarrow>
     (\<exists>pre post. key = pre @ [0x7B] @ tag @ [0x7D] @ post
        \<and> 0x7B \<notin> set pre \<and> 0x7D \<notin> set tag \<and> tag \<noteq> [])"

text \<open>
  The pairs of \<^verbatim>\<open>testdata/slots.golden\<close> with keys of at most twelve bytes: keys as bytes, with their
  slots among 16384.
\<close>

definition golden :: "(bytes \<times> u32) list" where
  "golden =
    [([], 0),
     ([0x61], 816),
     ([0x30], 6880),
     ([0x2F, 0x61, 0x70, 0x70, 0x2F, 0x63, 0x6F, 0x6E, 0x66, 0x69, 0x67], 10026),
     ([0x2F, 0x61, 0x70, 0x70, 0x2F, 0x63, 0x6F, 0x6E, 0x66, 0x69, 0x67, 0x2F], 7466),
     ([0x6B, 0x65, 0x79], 13677),
     ([0x4B, 0x65, 0x79], 3705),
     ([0x4B, 0x45, 0x59], 9125),
     ([0x31, 0x32, 0x33, 0x34, 0x35, 0x36, 0x37, 0x38, 0x39], 4739),
     ([0x75, 0x73, 0x65, 0x72, 0x3A, 0x31, 0x30, 0x30, 0x30], 13288),
     ([0x75, 0x73, 0x65, 0x72, 0x73, 0x2F, 0x31], 14811),
     ([0x75, 0x73, 0x65, 0x72, 0x73, 0x2F, 0x32], 2607),
     ([0x74, 0x65, 0x6E, 0x61, 0x6E, 0x74, 0x2D, 0x34, 0x32], 12985),
     ([0x7B, 0x7D], 4266),
     ([0x7B, 0x7D, 0x2F, 0x78], 12434),
     ([0x7B, 0x7D, 0x7B, 0x61, 0x7D], 11480),
     ([0x7B], 11367),
     ([0x7D], 2959),
     ([0x7B, 0x61], 6165),
     ([0x61, 0x7D], 4733),
     ([0x7D, 0x7B], 9840),
     ([0x61, 0x7D, 0x62, 0x7B, 0x63], 12908),
     ([0x61, 0x7D, 0x7B, 0x62, 0x7D], 12484),
     ([0x7B, 0x7B, 0x61, 0x7D, 0x7D], 6165),
     ([0x7B, 0x61, 0x7D, 0x7B, 0x62, 0x7D], 816),
     ([0x7B, 0x61, 0x7D], 816),
     ([0x7B, 0x20, 0x7D], 7567),
     ([0x7B, 0x78, 0x7D], 8083),
     ([0], 4945),
     ([0xFF], 0),
     ([0, 1, 2, 3], 6819),
     ([0xFF, 0xFE, 0xFD, 0xFC], 11931),
     ([0, 0x7B, 0xFF, 0, 0x7D, 1], 4945),
     ([0xC3, 0x28], 13735),
     ([0xC3, 0x28, 0x7B, 0x6B, 0x7D], 11016),
     ([0xD0, 0xBA, 0xD0, 0xBB, 0xD1, 0x8E, 0xD1, 0x87], 11182),
     ([0xE9, 0x94, 0xAE, 0x2F, 0xE5, 0x80, 0xBC], 14725),
     ([0x65, 0x6D, 0x6F, 0x6A, 0x69, 0x2F, 0xF0, 0x9F, 0x94, 0x91], 7909)]"

subsection \<open>The brace rule\<close>

lemma IndexByte_absent: "b \<notin> set xs \<Longrightarrow> IndexByte xs b = -1"
  by (induction xs) auto

lemma IndexByte_present: "b \<notin> set pre \<Longrightarrow> IndexByte (pre @ b # post) b = int (length pre)"
  by (induction pre) auto

lemma IndexByte_cases:
  obtains "b \<notin> set xs" "IndexByte xs b = -1"
  | pre post where "xs = pre @ b # post" "b \<notin> set pre" "IndexByte xs b = int (length pre)"
  using split_list_first [of b xs] IndexByte_absent IndexByte_present by metis

lemma HashInput_partition:
  assumes "0x7B \<notin> set pre" "0x7D \<notin> set tag" "tag \<noteq> []"
  shows "HashInput (pre @ 0x7B # tag @ 0x7D # post) = tag"
  using assms IndexByte_present [of "0x7B" pre "tag @ 0x7D # post"]
    IndexByte_present [of "0x7D" tag post]
  by (simp add: HashInput_def)

lemma partition_key_split:
  assumes "partition_key (pre @ 0x7B # rest) tag" and "0x7B \<notin> set pre"
  obtains post where "rest = tag @ 0x7D # post" "0x7D \<notin> set tag" "tag \<noteq> []"
proof -
  from assms(1) obtain pre' post where eq: "pre @ 0x7B # rest = pre' @ 0x7B # (tag @ 0x7D # post)"
    and pre': "0x7B \<notin> set pre'" and tag: "0x7D \<notin> set tag" "tag \<noteq> []"
    by (auto simp: partition_key_def)
  from split_first_unique [OF eq assms(2) pre'] that tag show thesis
    by simp
qed

lemma HashInput_whole:
  assumes "\<nexists>tag. partition_key key tag"
  shows "HashInput key = key"
proof (cases key "0x7B :: byte" rule: IndexByte_cases)
  case 1
  then show ?thesis by (simp add: HashInput_def)
next
  case open_brace: (2 pre rest)
  show ?thesis
  proof (cases rest "0x7D :: byte" rule: IndexByte_cases)
    case 1
    with open_brace show ?thesis by (simp add: HashInput_def)
  next
    case (2 tag post)
    with open_brace assms have "tag = []"
      by (auto simp: partition_key_def)
    with 2 open_brace show ?thesis by (simp add: HashInput_def)
  qed
qed

text \<open>
  C29: The brace rule as implemented is the documented one: a key with a partition key (the non-empty
  text between its first opening brace and the first closing brace after it) hashes exactly that text,
  and every other key hashes the whole key.
\<close>

theorem HashInput_brace_rule:
  "(\<forall>tag. partition_key key tag \<longrightarrow> HashInput key = tag) \<and>
     ((\<nexists>tag. partition_key key tag) \<longrightarrow> HashInput key = key)"
  using HashInput_partition HashInput_whole by (auto simp: partition_key_def)

theorem HashInput_brace_rule_witness:
  "partition_key [0x7B, 0x61, 0x7D, 0x7B, 0x62, 0x7D] [0x61]
     \<and> HashInput [0x7B, 0x61, 0x7D, 0x7B, 0x62, 0x7D] = [0x61]
     \<and> HashInput [0x7B, 0x7D, 0x78] = [0x7B, 0x7D, 0x78]"
proof -
  have p: "partition_key [0x7B, 0x61, 0x7D, 0x7B, 0x62, 0x7D] [0x61]"
    unfolding partition_key_def by (rule exI [of _ "[]"]) auto
  have "\<nexists>tag. partition_key [0x7B, 0x7D, 0x78] tag"
    using partition_key_split [of "[]" "[0x7D, 0x78]"]
    by (metis append_Nil append_is_Nil_conv list.sel(1) hd_append empty_iff list.set(1) hd_in_set)
  with p HashInput_brace_rule show ?thesis by blast
qed

subsection \<open>Slots\<close>

lemma HashInput_idem: "HashInput (HashInput key) = HashInput key"
proof (cases "\<exists>tag. partition_key key tag")
  case True
  then obtain tag where tag: "partition_key key tag" by blast
  then have eq: "HashInput key = tag"
    using HashInput_partition by (auto simp: partition_key_def)
  from tag have "0x7D \<notin> set tag"
    by (auto simp: partition_key_def)
  then have "\<nexists>t. partition_key tag t"
    by (auto simp: partition_key_def)
  with eq show ?thesis
    by (simp add: HashInput_whole)
next
  case False
  then show ?thesis by (simp add: HashInput_whole)
qed

text \<open>
  C30: A slotter exists for every positive slot count and for no other; with it every key, the empty one
  included, gets a slot below the count, and the key's partition key gets the same slot.
\<close>

theorem Slot_total_in_range_stable:
  "(slotCount = 0 \<longrightarrow>
      (\<exists>e. NewSlotter slotCount = Inl e \<and> ReasonOf (Some e) = ReasonInvalidArgument)) \<and>
   (slotCount \<noteq> 0 \<longrightarrow>
      (\<exists>s. NewSlotter slotCount = Inr s \<and> Count s = slotCount \<and>
         (\<forall>key. \<exists>slot. Slot s key = Some slot \<and> slot < slotCount
            \<and> Slot s (HashInput key) = Some slot)))"
  by (auto simp: NewSlotter_def Count_def Slot_def HashInput_idem ReasonOf_def New_registered
      word_mod_less_divisor word_gt_0)

theorem Slot_total_in_range_stable_witness:
  "\<exists>s. NewSlotter DefaultSlotCount = Inr s \<and> (\<exists>slot. Slot s [0x61] = Some slot \<and> slot < 16384)"
proof -
  have "DefaultSlotCount \<noteq> 0"
    by (simp add: DefaultSlotCount_def)
  with Slot_total_in_range_stable [of DefaultSlotCount] show ?thesis
    by (force simp: DefaultSlotCount_def)
qed

text \<open>
  Keys with the same partition key are colocated: whatever surrounds the braces, every such key
  has the slot of the bare partition key.
\<close>

theorem partition_keys_colocate:
  assumes "partition_key k1 tag" and "partition_key k2 tag"
  shows "Slot s k1 = Slot s k2 \<and> Slot s k1 = Slot s tag"
proof -
  have "HashInput k1 = tag" "HashInput k2 = tag"
    using assms HashInput_partition by (auto simp: partition_key_def)
  then show ?thesis
    using HashInput_idem [of k1] by (simp add: Slot_def)
qed

theorem partition_keys_colocate_witness:
  "Slot \<lparr>count = DefaultSlotCount\<rparr> [0x61, 0x7B, 0x75, 0x7D, 0x31]
     = Slot \<lparr>count = DefaultSlotCount\<rparr> [0x7B, 0x75, 0x7D, 0x62]"
proof -
  have "partition_key [0x61, 0x7B, 0x75, 0x7D, 0x31] [0x75]"
    unfolding partition_key_def by (rule exI [of _ "[0x61]"]) auto
  moreover have "partition_key [0x7B, 0x75, 0x7D, 0x62] [0x75]"
    unfolding partition_key_def by (rule exI [of _ "[]"]) auto
  ultimately show ?thesis
    using partition_keys_colocate by blast
qed

text \<open>
  The slot function reproduces the golden slots that lock it: for each listed key, the brace rule,
  the CRC32C and the modulo give exactly the recorded slot.
\<close>

theorem Slot_golden:
  "list_all (\<lambda>(key, slot). Slot \<lparr>count = DefaultSlotCount\<rparr> key = Some slot) golden"
  by (simp add: golden_def Slot_def DefaultSlotCount_def HashInput_def crc_eval)

end
