(* ===== verification/ConfigDefaults.thy ===== *)
theory ConfigDefaults
  imports ConfigTypes Shard
begin

text \<open>
  \<^verbatim>\<open>internal/config/defaults.go\<close>: the built-in configuration. Settings the code leaves out of a struct
  literal have the zero value of their type: empty strings and lists. The
  sample ratio is the double nearest to 0.05.
\<close>

definition defaultNode :: Node where
  "defaultNode =
     \<lparr>ID = ''gokvx-0'', Environment = EnvironmentProduction, DataDir = ''/var/lib/gokvx'',
      ShutdownGrace = 20 * Second\<rparr>"

definition defaultListen :: Listen where
  "defaultListen =
     \<lparr>L_Client = ''0.0.0.0:2379'', L_Peer = ''0.0.0.0:2380'', L_Metrics = ''127.0.0.1:9100'',
      L_Diagnostics = ''127.0.0.1:6060''\<rparr>"

definition defaultAuth :: Auth where
  "defaultAuth =
     \<lparr>Mode = AuthModeEnabled, InsecureAllowRemote = False,
      JWT =
        \<lparr>IssuerURL = '''', JWKSURL = '''', Audience = [''gokvx''], Algorithms = [''RS256''],
         ClockSkew = 60 * Second, RefreshInterval = 15 * Minute, MinRefreshInterval = 60 * Second,
         HTTPTimeout = 5 * Second, MaxResponseBytes = 2 ^ 20, MinRSABits = 2048,
         ClaimsCache = \<lparr>MaxEntries = 10000\<rparr>\<rparr>,
      Scopes = \<lparr>S_Read = ''kv:read'', S_Write = ''kv:write'', S_Watch = ''kv:watch'', S_Admin = ''kv:admin''\<rparr>\<rparr>"

definition defaultTLS :: TLS where
  "defaultTLS =
     \<lparr>TLS_Enabled = True, MinVersion = ''1.3'', CertFile = ''/etc/gokvx/tls/tls.crt'',
      KeyFile = ''/etc/gokvx/tls/tls.key'', ClientCAFile = ''/etc/gokvx/tls/client-ca.crt'',
      PeerCAFile = ''/etc/gokvx/tls/peer-ca.crt'', Reload = True, AllowedPeerSANs = [], AllowedClientSANs = []\<rparr>"

definition defaultLimits :: Limits where
  "defaultLimits =
     \<lparr>MaxKeyBytes = 1024, MaxValueBytes = 2 ^ 20, MaxRequestBytes = 4 * 2 ^ 20, MaxConcurrentStreams = 1000,
      MaxWatchersPerPrincipal = 100,
      RateLimit =
        \<lparr>RL_Read = \<lparr>Rate = Fin 5000, Burst = 10000\<rparr>, RL_Write = \<lparr>Rate = Fin 1000, Burst = 2000\<rparr>,
         RL_Admin = \<lparr>Rate = Fin 10, Burst = 20\<rparr>\<rparr>\<rparr>"

definition defaultStorage :: Storage where
  "defaultStorage =
     \<lparr>Engine = ''pebble'', Fsync = FsyncAlways, Fsync_Interval = 100 * Millisecond, WALSegmentBytes = 64 * 2 ^ 20,
      WALRetainSegments = 4, SnapshotEntries = 10000, SnapshotInterval = 30 * Minute, QuotaBytes = 8 * 2 ^ 30,
      AutoCompactionRetention = 1000\<rparr>"

definition defaultCluster :: Cluster where
  "defaultCluster =
     \<lparr>Bootstrap = False, InitialPeers = [], SlotCount = DefaultSlotCount, Groups = 1, ReplicationFactor = 3,
      Raft =
        \<lparr>TickInterval = 100 * Millisecond, HeartbeatTicks = 1, ElectionTicks = 10, MaxInflightMsgs = 256,
         MaxSizePerMsg = 2 ^ 20, PreVote = True, CheckQuorum = True, LeaderTransferOnShutdown = True\<rparr>,
      Read =
        \<lparr>DefaultConsistency = ''linearizable'', ForwardWritesToLeader = True, LeaderWaitTimeout = 3 * Second\<rparr>\<rparr>"

definition defaultObservability :: Observability where
  "defaultObservability =
     \<lparr>Log = \<lparr>Level = ''info'', Format = ''json''\<rparr>,
      Tracing =
        \<lparr>T_Enabled = True, OTLPEndpoint = ''otel-collector.observability.svc:4317'',
         Sampler = ''parentbased_traceidratio'', SampleRatio = Fin (3602879701896397 / 2 ^ 56)\<rparr>,
      Metrics = \<lparr>M_Enabled = True\<rparr>,
      Health = \<lparr>MaxApplyLagEntries = 1000\<rparr>\<rparr>"

definition Defaults :: Config where
  "Defaults =
     \<lparr>Node = defaultNode, Listen = defaultListen, Advertise = \<lparr>A_Client = '''', A_Peer = ''''\<rparr>,
      Auth = defaultAuth, TLS = defaultTLS, Limits = defaultLimits, Storage = defaultStorage,
      Cluster = defaultCluster, Observability = defaultObservability\<rparr>"

lemmas default_defs = Defaults_def defaultNode_def defaultListen_def defaultAuth_def defaultTLS_def
  defaultLimits_def defaultStorage_def defaultCluster_def defaultObservability_def

end
