(* ===== verification/ConfigKeys.thy ===== *)
theory ConfigKeys
  imports ConfigDefaults
begin

text \<open>
  \<^verbatim>\<open>internal/config/keys.go\<close>: the configuration keys, derived from the \<^verbatim>\<open>Config\<close> type by reflection. The type
  is described by \<open>Config_type\<close>, with the koanf tag of every field in declaration order, and a
  configuration is viewed as a tree of values of that shape, so that \<^verbatim>\<open>reflect\<close>'s field index is a path in
  the tree. The lemmas show that keys and environment variables are unambiguous and that every key finds
  a value of its type in every configuration.
\<close>

subsection \<open>Go types and values\<close>

datatype gotype = TString | TBool | TInt | TInt64 | TUint32 | TFloat64 | TDuration | TList
  | TStruct "(string \<times> gotype) list"

datatype govalue = VString string | VBool bool | VInt int | VInt64 int | VUint32 u32 | VFloat float64
  | VDuration int | VList "string list" | VStruct "govalue list"

fun has_type :: "govalue \<Rightarrow> gotype \<Rightarrow> bool" where
  "has_type (VString _) t = (t = TString)"
| "has_type (VBool _) t = (t = TBool)"
| "has_type (VInt _) t = (t = TInt)"
| "has_type (VInt64 _) t = (t = TInt64)"
| "has_type (VUint32 _) t = (t = TUint32)"
| "has_type (VFloat _) t = (t = TFloat64)"
| "has_type (VDuration _) t = (t = TDuration)"
| "has_type (VList _) t = (t = TList)"
| "has_type (VStruct vs) (TStruct fs) = list_all2 has_type vs (map snd fs)"
| "has_type (VStruct _) _ = False"

subsection \<open>The structure of Config (struct tags)\<close>

definition Node_type :: gotype where
  "Node_type = TStruct [(''id'', TString), (''environment'', TString), (''data_dir'', TString), (''shutdown_grace'', TDuration)]"

definition Listen_type :: gotype where
  "Listen_type = TStruct [(''client'', TString), (''peer'', TString), (''metrics'', TString), (''diagnostics'', TString)]"

definition Advertise_type :: gotype where
  "Advertise_type = TStruct [(''client'', TString), (''peer'', TString)]"

definition ClaimsCache_type :: gotype where
  "ClaimsCache_type = TStruct [(''max_entries'', TInt)]"

definition JWT_type :: gotype where
  "JWT_type = TStruct
     [(''issuer_url'', TString), (''jwks_url'', TString), (''audience'', TList), (''algorithms'', TList),
      (''clock_skew'', TDuration), (''refresh_interval'', TDuration), (''min_refresh_interval'', TDuration),
      (''http_timeout'', TDuration), (''max_response_bytes'', TInt64), (''min_rsa_bits'', TInt),
      (''claims_cache'', ClaimsCache_type)]"

definition Scopes_type :: gotype where
  "Scopes_type = TStruct [(''read'', TString), (''write'', TString), (''watch'', TString), (''admin'', TString)]"

definition Auth_type :: gotype where
  "Auth_type = TStruct
     [(''mode'', TString), (''insecure_allow_remote'', TBool), (''jwt'', JWT_type), (''scopes'', Scopes_type)]"

definition TLS_type :: gotype where
  "TLS_type = TStruct
     [(''enabled'', TBool), (''min_version'', TString), (''cert_file'', TString), (''key_file'', TString),
      (''client_ca_file'', TString), (''peer_ca_file'', TString), (''reload'', TBool), (''allowed_peer_sans'', TList),
      (''allowed_client_sans'', TList)]"

definition RateLimit_type :: gotype where
  "RateLimit_type = TStruct [(''rate'', TFloat64), (''burst'', TInt)]"

definition RateLimits_type :: gotype where
  "RateLimits_type = TStruct [(''read'', RateLimit_type), (''write'', RateLimit_type), (''admin'', RateLimit_type)]"

definition Limits_type :: gotype where
  "Limits_type = TStruct
     [(''max_key_bytes'', TInt), (''max_value_bytes'', TInt), (''max_request_bytes'', TInt),
      (''max_concurrent_streams'', TInt), (''max_watchers_per_principal'', TInt), (''rate_limit'', RateLimits_type)]"

definition Storage_type :: gotype where
  "Storage_type = TStruct
     [(''engine'', TString), (''fsync'', TString), (''fsync_interval'', TDuration), (''wal_segment_bytes'', TInt64),
      (''wal_retain_segments'', TInt), (''snapshot_entries'', TInt), (''snapshot_interval'', TDuration),
      (''quota_bytes'', TInt64), (''auto_compaction_retention'', TInt64)]"

definition Raft_type :: gotype where
  "Raft_type = TStruct
     [(''tick_interval'', TDuration), (''heartbeat_ticks'', TInt), (''election_ticks'', TInt),
      (''max_inflight_msgs'', TInt), (''max_size_per_msg'', TInt64), (''pre_vote'', TBool), (''check_quorum'', TBool),
      (''leader_transfer_on_shutdown'', TBool)]"

definition Read_type :: gotype where
  "Read_type = TStruct
     [(''default_consistency'', TString), (''forward_writes_to_leader'', TBool), (''leader_wait_timeout'', TDuration)]"

definition Cluster_type :: gotype where
  "Cluster_type = TStruct
     [(''bootstrap'', TBool), (''initial_peers'', TList), (''slot_count'', TUint32), (''groups'', TInt),
      (''replication_factor'', TInt), (''raft'', Raft_type), (''read'', Read_type)]"

definition Log_type :: gotype where
  "Log_type = TStruct [(''level'', TString), (''format'', TString)]"

definition Tracing_type :: gotype where
  "Tracing_type = TStruct
     [(''enabled'', TBool), (''otlp_endpoint'', TString), (''sampler'', TString), (''sample_ratio'', TFloat64)]"

definition Observability_type :: gotype where
  "Observability_type = TStruct
     [(''log'', Log_type), (''tracing'', Tracing_type), (''metrics'', TStruct [(''enabled'', TBool)]),
      (''health'', TStruct [(''max_apply_lag_entries'', TInt)])]"

definition Config_fields :: "(string \<times> gotype) list" where
  "Config_fields =
     [(''node'', Node_type), (''listen'', Listen_type), (''advertise'', Advertise_type), (''auth'', Auth_type),
      (''tls'', TLS_type), (''limits'', Limits_type), (''storage'', Storage_type), (''cluster'', Cluster_type),
      (''observability'', Observability_type)]"

lemmas type_defs = Node_type_def Listen_type_def Advertise_type_def ClaimsCache_type_def JWT_type_def Scopes_type_def
  Auth_type_def TLS_type_def RateLimit_type_def RateLimits_type_def Limits_type_def Storage_type_def Raft_type_def
  Read_type_def Cluster_type_def Log_type_def Tracing_type_def Observability_type_def Config_fields_def

text \<open>A configuration as the tree of its values, field by field.\<close>

definition rate_value :: "RateLimit \<Rightarrow> govalue" where
  "rate_value r = VStruct [VFloat (Rate r), VInt (Burst r)]"

definition jwt_value :: "JWT \<Rightarrow> govalue" where
  "jwt_value j = VStruct
     [VString (IssuerURL j), VString (JWKSURL j), VList (Audience j), VList (Algorithms j), VDuration (ClockSkew j),
      VDuration (RefreshInterval j), VDuration (MinRefreshInterval j), VDuration (HTTPTimeout j),
      VInt64 (MaxResponseBytes j), VInt (MinRSABits j), VStruct [VInt (MaxEntries (ClaimsCache j))]]"

definition config_value :: "Config \<Rightarrow> govalue" where
  "config_value c =
     (let n = Node c; l = Listen c; a = Auth c; t = TLS c; m = Limits c; s = Storage c; cl = Cluster c;
          r = Raft cl; rd = Read cl; ob = Observability c; tr = Tracing ob
      in VStruct
        [VStruct [VString (ID n), VString (Environment n), VString (DataDir n), VDuration (ShutdownGrace n)],
         VStruct [VString (L_Client l), VString (L_Peer l), VString (L_Metrics l), VString (L_Diagnostics l)],
         VStruct [VString (A_Client (Advertise c)), VString (A_Peer (Advertise c))],
         VStruct [VString (Mode a), VBool (InsecureAllowRemote a), jwt_value (JWT a),
           VStruct [VString (S_Read (Scopes a)), VString (S_Write (Scopes a)), VString (S_Watch (Scopes a)), VString (S_Admin (Scopes a))]],
         VStruct [VBool (TLS_Enabled t), VString (MinVersion t), VString (CertFile t), VString (KeyFile t),
           VString (ClientCAFile t), VString (PeerCAFile t), VBool (Reload t), VList (AllowedPeerSANs t), VList (AllowedClientSANs t)],
         VStruct [VInt (MaxKeyBytes m), VInt (MaxValueBytes m), VInt (MaxRequestBytes m), VInt (MaxConcurrentStreams m),
           VInt (MaxWatchersPerPrincipal m),
           VStruct [rate_value (RL_Read (RateLimit m)), rate_value (RL_Write (RateLimit m)), rate_value (RL_Admin (RateLimit m))]],
         VStruct [VString (Engine s), VString (Fsync s), VDuration (Fsync_Interval s), VInt64 (WALSegmentBytes s),
           VInt (WALRetainSegments s), VInt (SnapshotEntries s), VDuration (SnapshotInterval s), VInt64 (QuotaBytes s),
           VInt64 (AutoCompactionRetention s)],
         VStruct [VBool (Bootstrap cl), VList (InitialPeers cl), VUint32 (SlotCount cl), VInt (Groups cl), VInt (ReplicationFactor cl),
           VStruct [VDuration (TickInterval r), VInt (HeartbeatTicks r), VInt (ElectionTicks r), VInt (MaxInflightMsgs r),
             VInt64 (MaxSizePerMsg r), VBool (PreVote r), VBool (CheckQuorum r), VBool (LeaderTransferOnShutdown r)],
           VStruct [VString (DefaultConsistency rd), VBool (ForwardWritesToLeader rd), VDuration (LeaderWaitTimeout rd)]],
         VStruct [VStruct [VString (Level (Log ob)), VString (Format (Log ob))],
           VStruct [VBool (T_Enabled tr), VString (OTLPEndpoint tr), VString (Sampler tr), VFloat (SampleRatio tr)],
           VStruct [VBool (M_Enabled (Metrics ob))], VStruct [VInt (MaxApplyLagEntries (Health ob))]]])"

subsection \<open>Fields (keys.go)\<close>

definition envPrefix :: string where "envPrefix = ''GOKVX_''"

record field =
  f_key :: string
  f_index :: "nat list"
  f_typ :: gotype

text \<open>The loop over the fields of a struct, from position \<open>i\<close> on; a struct field is walked recursively.\<close>

fun collectFields :: "(string \<times> gotype) list \<Rightarrow> nat \<Rightarrow> string \<Rightarrow> nat list \<Rightarrow> field list" where
  "collectFields [] i pre index = []"
| "collectFields ((tag, t) # fs) i pre index =
     (let key = (if pre \<noteq> '''' then pre @ ''.'' @ tag else tag);
          idx = index @ [i]
      in (case t of
            TStruct gs \<Rightarrow> collectFields gs 0 key idx
          | _ \<Rightarrow> [\<lparr>f_key = key, f_index = idx, f_typ = t\<rparr>]) @ collectFields fs (i + 1) pre index)"

definition all_fields :: "field list" where
  "all_fields = collectFields Config_fields 0 '''' []"

text \<open>A map built by assigning in order: a later field with the same name replaces an earlier one.\<close>

definition indexFields :: "field list \<Rightarrow> (field \<Rightarrow> string) \<Rightarrow> (string \<rightharpoonup> field)" where
  "indexFields fs name = fold (\<lambda>f m. m(name f \<mapsto> f)) fs Map.empty"

definition ToUpper :: "string \<Rightarrow> string" where
  "ToUpper s = map (\<lambda>c. let n = of_char c :: nat in if 97 \<le> n \<and> n \<le> 122 then char_of (n - 32) else c) s"

definition ReplaceAll :: "char \<Rightarrow> char \<Rightarrow> string \<Rightarrow> string" where
  "ReplaceAll old new s = map (\<lambda>c. if c = old then new else c) s"

definition envName :: "field \<Rightarrow> string" where
  "envName f = envPrefix @ ToUpper (ReplaceAll (CHR ''.'') (CHR ''_'') (f_key f))"

definition fieldsByKey :: "string \<rightharpoonup> field" where "fieldsByKey = indexFields all_fields f_key"
definition fieldsByEnv :: "string \<rightharpoonup> field" where "fieldsByEnv = indexFields all_fields envName"

text \<open>Every proper prefix of a key that ends before a dot names a section.\<close>

fun dot_prefixes :: "string \<Rightarrow> string list" where
  "dot_prefixes [] = []"
| "dot_prefixes (c # cs) = (if c = CHR ''.'' then [[]] else []) @ map ((#) c) (dot_prefixes cs)"

definition collectSections :: "field list \<Rightarrow> string list" where
  "collectSections fs = concat (map (\<lambda>f. dot_prefixes (f_key f)) fs)"

definition sections :: "string \<Rightarrow> bool" where "sections key \<longleftrightarrow> key \<in> set (collectSections all_fields)"

definition isList :: "field \<Rightarrow> bool" where "isList f \<longleftrightarrow> f_typ f = TList"

fun FieldByIndex :: "govalue \<Rightarrow> nat list \<Rightarrow> govalue option" where
  "FieldByIndex v [] = Some v"
| "FieldByIndex (VStruct vs) (i # is) = (if i < length vs then FieldByIndex (vs ! i) is else None)"
| "FieldByIndex _ (i # is) = None"

text \<open>Reflection panics on an index that does not exist, which is \<open>None\<close>.\<close>

definition valueOf :: "field \<Rightarrow> Config \<Rightarrow> govalue option" where
  "valueOf f c = FieldByIndex (config_value c) (f_index f)"

subsection \<open>Every key has a value of its type\<close>

lemma config_value_typed: "has_type (config_value c) (TStruct Config_fields)"
  by (simp add: config_value_def Let_def type_defs jwt_value_def rate_value_def)

text \<open>The index of a collected field leads to a value of the field's type, in every well-typed struct.\<close>

lemma collectFields_index:
  "list_all2 has_type vs (map snd fs) \<Longrightarrow> f \<in> set (collectFields fs i pre index) \<Longrightarrow>
     \<exists>j rest v. f_index f = index @ (i + j) # rest \<and> j < length vs \<and>
       FieldByIndex (vs ! j) rest = Some v \<and> has_type v (f_typ f)"
proof (induction fs i pre index arbitrary: vs rule: collectFields.induct)
  case (1 i pre index)
  then show ?case by simp
next
  case (2 tag t fs i pre index)
  let ?key = "if pre \<noteq> '''' then pre @ ''.'' @ tag else tag"
  obtain w ws where vs: "vs = w # ws" and w: "has_type w t" and ws: "list_all2 has_type ws (map snd fs)"
    using "2.prems"(1) by (auto simp: list_all2_Cons2)
  consider (rest) "f \<in> set (collectFields fs (i + 1) pre index)"
    | (struct) gs where "t = TStruct gs" "f \<in> set (collectFields gs 0 ?key (index @ [i]))"
    | (leaf) "f = \<lparr>f_key = ?key, f_index = index @ [i], f_typ = t\<rparr>"
    using "2.prems"(2) by (auto simp: Let_def split: gotype.splits)
  then show ?case
  proof cases
    case rest
    from "2.IH"(2) [OF refl refl ws rest] obtain j path v where
      "f_index f = index @ (i + 1 + j) # path" "j < length ws" "FieldByIndex (ws ! j) path = Some v" "has_type v (f_typ f)"
      by blast
    then show ?thesis
      by (intro exI [of _ "Suc j"] exI [of _ path] exI [of _ v]) (simp add: vs)
  next
    case (struct gs)
    then obtain us where us: "w = VStruct us" "list_all2 has_type us (map snd gs)"
      using w by (cases w) auto
    from "2.IH"(1) [OF refl refl struct(1) us(2) struct(2)] obtain j path v where
      "f_index f = (index @ [i]) @ (0 + j) # path" "j < length us" "FieldByIndex (us ! j) path = Some v" "has_type v (f_typ f)"
      by blast
    then show ?thesis
      by (intro exI [of _ 0] exI [of _ "j # path"] exI [of _ v]) (simp add: vs us(1))
  next
    case leaf
    then show ?thesis
      using w by (intro exI [of _ 0] exI [of _ "[]"] exI [of _ w]) (simp add: vs)
  qed
qed

subsection \<open>Names are unambiguous\<close>

definition key_list :: "string list" where
  "key_list =
    [''node.id'', ''node.environment'', ''node.data_dir'',
      ''node.shutdown_grace'', ''listen.client'', ''listen.peer'',
      ''listen.metrics'', ''listen.diagnostics'', ''advertise.client'',
      ''advertise.peer'', ''auth.mode'', ''auth.insecure_allow_remote'',
      ''auth.jwt.issuer_url'', ''auth.jwt.jwks_url'', ''auth.jwt.audience'',
      ''auth.jwt.algorithms'', ''auth.jwt.clock_skew'',
      ''auth.jwt.refresh_interval'', ''auth.jwt.min_refresh_interval'',
      ''auth.jwt.http_timeout'', ''auth.jwt.max_response_bytes'',
      ''auth.jwt.min_rsa_bits'', ''auth.jwt.claims_cache.max_entries'',
      ''auth.scopes.read'', ''auth.scopes.write'', ''auth.scopes.watch'',
      ''auth.scopes.admin'', ''tls.enabled'', ''tls.min_version'',
      ''tls.cert_file'', ''tls.key_file'', ''tls.client_ca_file'',
      ''tls.peer_ca_file'', ''tls.reload'', ''tls.allowed_peer_sans'',
      ''tls.allowed_client_sans'', ''limits.max_key_bytes'',
      ''limits.max_value_bytes'', ''limits.max_request_bytes'',
      ''limits.max_concurrent_streams'', ''limits.max_watchers_per_principal'',
      ''limits.rate_limit.read.rate'', ''limits.rate_limit.read.burst'',
      ''limits.rate_limit.write.rate'', ''limits.rate_limit.write.burst'',
      ''limits.rate_limit.admin.rate'', ''limits.rate_limit.admin.burst'',
      ''storage.engine'', ''storage.fsync'', ''storage.fsync_interval'',
      ''storage.wal_segment_bytes'', ''storage.wal_retain_segments'',
      ''storage.snapshot_entries'', ''storage.snapshot_interval'',
      ''storage.quota_bytes'', ''storage.auto_compaction_retention'',
      ''cluster.bootstrap'', ''cluster.initial_peers'', ''cluster.slot_count'',
      ''cluster.groups'', ''cluster.replication_factor'',
      ''cluster.raft.tick_interval'', ''cluster.raft.heartbeat_ticks'',
      ''cluster.raft.election_ticks'', ''cluster.raft.max_inflight_msgs'',
      ''cluster.raft.max_size_per_msg'', ''cluster.raft.pre_vote'',
      ''cluster.raft.check_quorum'',
      ''cluster.raft.leader_transfer_on_shutdown'',
      ''cluster.read.default_consistency'',
      ''cluster.read.forward_writes_to_leader'',
      ''cluster.read.leader_wait_timeout'', ''observability.log.level'',
      ''observability.log.format'', ''observability.tracing.enabled'',
      ''observability.tracing.otlp_endpoint'',
      ''observability.tracing.sampler'', ''observability.tracing.sample_ratio'',
      ''observability.metrics.enabled'',
      ''observability.health.max_apply_lag_entries'']"

lemma fields_keys: "map f_key all_fields = key_list"
  by code_simp

text \<open>A number that identifies a name up to the difference of dots and underscores.\<close>

definition name_code :: "string \<Rightarrow> int" where
  "name_code s = foldr (\<lambda>c n. 31 * n + of_char (if c = CHR ''.'' then CHR ''_'' else c)) s 0"

lemma name_codes_distinct: "distinct (map name_code key_list)"
  unfolding key_list_def name_code_def by simp

definition lower :: "char \<Rightarrow> bool" where
  "lower c \<longleftrightarrow> \<not> (65 \<le> (of_char c :: nat) \<and> (of_char c :: nat) \<le> 90)"

lemma keys_lower: "list_all (list_all lower) key_list"
  unfolding key_list_def lower_def by simp

lemma ToUpper_inj:
  assumes "list_all lower s" and "list_all lower t" and "ToUpper s = ToUpper t"
  shows "s = t"
proof -
  let ?up = "\<lambda>c. let n = of_char c :: nat in if 97 \<le> n \<and> n \<le> 122 then char_of (n - 32) else c"
  have code: "of_char (?up c) = (if 97 \<le> (of_char c :: nat) \<and> of_char c \<le> (122 :: nat) then of_char c - 32 else of_char c :: nat)" for c
    by (auto simp: Let_def intro!: mod_less)
  have "c = d" if "lower c" "lower d" "?up c = ?up d" for c d
  proof -
    have "(of_char (?up c) :: nat) = of_char (?up d)"
      using that(3) by simp
    then have "(of_char c :: nat) = of_char d"
      using that(1,2) unfolding code lower_def by (auto simp del: of_char_eq_iff split: if_splits)
    then show ?thesis by simp
  qed
  then have "inj_on ?up (set s \<union> set t)"
    using assms(1,2) unfolding inj_on_def list_all_iff by blast
  moreover have "map ?up s = map ?up t"
    using assms(3) by (simp add: ToUpper_def)
  ultimately show ?thesis
    by (meson map_inj_on)
qed

lemma lower_replace: "list_all lower s \<Longrightarrow> list_all lower (ReplaceAll (CHR ''.'') (CHR ''_'') s)"
  by (induction s) (auto simp: ReplaceAll_def lower_def)

lemma name_code_replace: "name_code s = foldr (\<lambda>c n. 31 * n + of_char c) (ReplaceAll (CHR ''.'') (CHR ''_'') s) 0"
proof -
  have "foldr (\<lambda>c n. 31 * n + of_char c) (map g s) 0 = foldr (\<lambda>c n. 31 * n + of_char (g c)) s (0 :: int)" for g
    by (simp only: foldr_map comp_def)
  from this [of "\<lambda>c. if c = CHR ''.'' then CHR ''_'' else c"] show ?thesis
    unfolding name_code_def ReplaceAll_def by simp
qed

lemma name_codes_inj: "inj_on (\<lambda>f. name_code (f_key f)) (set all_fields)" "distinct all_fields"
proof -
  have "map name_code key_list = map (\<lambda>f. name_code (f_key f)) all_fields"
    unfolding fields_keys [symmetric] map_map comp_def ..
  then have "distinct (map (\<lambda>f. name_code (f_key f)) all_fields)"
    using name_codes_distinct by argo
  then show "inj_on (\<lambda>f. name_code (f_key f)) (set all_fields)" "distinct all_fields"
    unfolding distinct_map by blast+
qed

lemma env_names_distinct: "distinct (map envName all_fields)"
proof -
  have "inj_on envName (set all_fields)"
  proof (rule inj_onI)
    fix f g assume fg: "f \<in> set all_fields" "g \<in> set all_fields" and eq: "envName f = envName g"
    have "set key_list = f_key ` set all_fields"
      unfolding fields_keys [symmetric] by (rule set_map)
    then have "list_all lower (f_key f)" "list_all lower (f_key g)"
      using keys_lower fg unfolding list_all_iff by blast+
    then have "ReplaceAll (CHR ''.'') (CHR ''_'') (f_key f) = ReplaceAll (CHR ''.'') (CHR ''_'') (f_key g)"
      using eq by (rule_tac ToUpper_inj) (simp_all add: lower_replace envName_def)
    then have "name_code (f_key f) = name_code (f_key g)"
      unfolding name_code_replace by argo
    then show "f = g"
      using name_codes_inj(1) fg unfolding inj_on_def by blast
  qed
  then show ?thesis
    using name_codes_inj(2) unfolding distinct_map by blast
qed

lemma distinct_mapD: "distinct (map f xs) \<Longrightarrow> distinct xs"
  by (simp add: distinct_map)

lemma keys_distinct: "distinct (map f_key all_fields)"
  unfolding fields_keys using name_codes_distinct by (rule distinct_mapD)

lemma indexFields_exact:
  assumes "distinct (map name fs)"
  shows "indexFields fs name k = Some f \<longleftrightarrow> f \<in> set fs \<and> name f = k"
proof -
  have "fold (\<lambda>f m. m(name f \<mapsto> f)) fs m k = Some f \<longleftrightarrow>
      (f \<in> set fs \<and> name f = k) \<or> (k \<notin> name ` set fs \<and> m k = Some f)" if "distinct (map name fs)" for m
    using that by (induction fs arbitrary: m) auto
  from this [OF assms] show ?thesis
    by (simp add: indexFields_def)
qed

subsection \<open>Properties\<close>

text \<open>
  C34: Configuration names are unambiguous: a key finds exactly the field with that key, and an
  environment variable exactly the field with that variable, although the variable's name no longer
  tells dots from underscores.
\<close>

theorem config_names_exact:
  "(fieldsByKey key = Some f) = (f \<in> set all_fields \<and> f_key f = key) \<and>
   (fieldsByEnv name = Some g) = (g \<in> set all_fields \<and> envName g = name)"
  unfolding fieldsByKey_def fieldsByEnv_def
  by (simp add: indexFields_exact [OF keys_distinct] indexFields_exact [OF env_names_distinct])

lemma valueOf_typed: "f \<in> set all_fields \<Longrightarrow> \<exists>v. valueOf f c = Some v \<and> has_type v (f_typ f)"
proof -
  assume f: "f \<in> set all_fields"
  obtain vs where vs: "config_value c = VStruct vs"
    by (simp add: config_value_def Let_def)
  then have "list_all2 has_type vs (map snd Config_fields)"
    using config_value_typed [of c] by simp
  from collectFields_index [OF this f [unfolded all_fields_def]] show ?thesis
    by (auto simp: valueOf_def vs)
qed

text \<open>
  C35: Every configuration key reaches a value of its declared type in every configuration; reading a
  key through its field index never fails.
\<close>

theorem config_keys_typed:
  "list_all (\<lambda>f. \<exists>v. valueOf f c = Some v \<and> has_type v (f_typ f)) all_fields"
  using valueOf_typed by (simp add: list_all_iff)

end
