(* ===== verification/NetAddr.thy ===== *)
theory NetAddr
  imports DataDir
begin

text \<open>
  The address functions of Go's package \<^verbatim>\<open>net\<close> that the configuration rules use: \<^verbatim>\<open>SplitHostPort\<close>, \<^verbatim>\<open>ParseIP\<close>
  and \<^verbatim>\<open>IP.IsLoopback\<close>. An address is the list of its sixteen bytes, as \<^verbatim>\<open>net.IP\<close> holds it; IPv4 addresses
  are mapped into IPv6.
\<close>

subsection \<open>Searching a string\<close>

definition IndexByteString :: "string \<Rightarrow> char \<Rightarrow> nat option" where
  "IndexByteString s c = (let n = length (takeWhile (\<lambda>x. x \<noteq> c) s) in if n < length s then Some n else None)"

definition LastIndexByteString :: "string \<Rightarrow> char \<Rightarrow> nat option" where
  "LastIndexByteString s c = map_option (\<lambda>n. length s - 1 - n) (IndexByteString (rev s) c)"

text \<open>\<^verbatim>\<open>strings.Cut\<close> around a one-byte separator.\<close>

definition Cut :: "string \<Rightarrow> char \<Rightarrow> string \<times> string \<times> bool" where
  "Cut s c =
     (case IndexByteString s c of None \<Rightarrow> (s, [], False) | Some i \<Rightarrow> (take i s, drop (i + 1) s, True))"

subsection \<open>Host and port\<close>

text \<open>The error texts are not used by any caller, so a failure is \<open>None\<close>.\<close>

definition SplitHostPort :: "string \<Rightarrow> (string \<times> string) option" where
  "SplitHostPort hostport =
     (case LastIndexByteString hostport (CHR '':'') of
        None \<Rightarrow> None
      | Some i \<Rightarrow>
          let bracketed = (hostport ! 0 = CHR ''['');
              parts =
                (if bracketed then
                   (case IndexByteString hostport (CHR '']'') of
                      None \<Rightarrow> None
                    | Some e \<Rightarrow>
                        if e + 1 = length hostport then None
                        else if e + 1 = i then Some (take (e - 1) (drop 1 hostport), 1, e + 1)
                        else None)
                 else
                   (let host = take i hostport
                    in if IndexByteString host (CHR '':'') \<noteq> None then None else Some (host, 0, 0)))
          in (case parts of
                None \<Rightarrow> None
              | Some (host, j, k) \<Rightarrow>
                  if IndexByteString (drop j hostport) (CHR ''['') \<noteq> None then None
                  else if IndexByteString (drop k hostport) (CHR '']'') \<noteq> None then None
                  else Some (host, drop (i + 1) hostport)))"

subsection \<open>IP addresses\<close>

text \<open>The four decimal fields of an IPv4 address: up to 255, without leading zeros, separated by dots.\<close>

fun split_char :: "char \<Rightarrow> string \<Rightarrow> string list" where
  "split_char c [] = [[]]"
| "split_char c (x # xs) =
     (if x = c then [] # split_char c xs
      else (case split_char c xs of [] \<Rightarrow> [[x]] | s # ss \<Rightarrow> (x # s) # ss))"

definition ipv4_field :: "string \<Rightarrow> nat option" where
  "ipv4_field f =
     (if f = [] \<or> (length f > 1 \<and> hd f = CHR ''0'') then None
      else
        (case parse_digits 0 f of
           None \<Rightarrow> None
         | Some n \<Rightarrow> if n \<le> 255 then Some n else None))"

definition parseIPv4 :: "string \<Rightarrow> nat list option" where
  "parseIPv4 s =
     (let fs = map ipv4_field (split_char (CHR ''.'') s)
      in if length fs = 4 \<and> list_all (\<lambda>f. f \<noteq> None) fs then Some (map the fs) else None)"

definition hex_val :: "char \<Rightarrow> nat option" where
  "hex_val c =
     (let n = of_char c :: nat
      in if 48 \<le> n \<and> n \<le> 57 then Some (n - 48)
         else if 97 \<le> n \<and> n \<le> 102 then Some (n - 97 + 10)
         else if 65 \<le> n \<and> n \<le> 70 then Some (n - 65 + 10)
         else None)"

definition hex_number :: "string \<Rightarrow> nat" where
  "hex_number ds = fold (\<lambda>c acc. 16 * acc + (case hex_val c of None \<Rightarrow> 0 | Some d \<Rightarrow> d)) ds 0"

text \<open>
  The loop of \<^verbatim>\<open>netip.parseIPv6\<close>: \<open>ip\<close> holds the bytes read so far and \<open>ellipsis\<close> the position of \<^verbatim>\<open>::\<close>.
  It returns the bytes, the position and the text left over. Every round consumes text.
\<close>

fun ipv6_loop :: "nat \<Rightarrow> nat list \<Rightarrow> nat option \<Rightarrow> string \<Rightarrow> (nat list \<times> nat option \<times> string) option" where
  "ipv6_loop 0 ip ellipsis s = Some (ip, ellipsis, s)"
| "ipv6_loop (Suc fuel) ip ellipsis s =
     (let digits = takeWhile (\<lambda>c. hex_val c \<noteq> None) s;
          rest = dropWhile (\<lambda>c. hex_val c \<noteq> None) s
      in if digits = [] \<or> length digits > 4 then None
         else if take 1 rest = ''.'' then
           (if (ellipsis = None \<and> length ip \<noteq> 12) \<or> length ip + 4 > 16 then None
            else (case parseIPv4 s of None \<Rightarrow> None | Some v4 \<Rightarrow> Some (ip @ v4, ellipsis, [])))
         else
           (let acc = hex_number digits;
                ip = ip @ [acc div 256, acc mod 256]
            in (case rest of
                  [] \<Rightarrow> Some (ip, ellipsis, [])
                | c # s \<Rightarrow>
                    if c \<noteq> CHR '':'' \<or> s = [] then None
                    else if hd s = CHR '':'' then
                      (if ellipsis \<noteq> None then None
                       else if tl s = [] then Some (ip, Some (length ip), [])
                       else ipv6_loop fuel ip (Some (length ip)) (tl s))
                    else ipv6_loop fuel ip ellipsis s)))"

text \<open>An address with a zone is refused by \<^verbatim>\<open>net.ParseIP\<close>, so a percent sign ends the parse.\<close>

definition parseIPv6 :: "string \<Rightarrow> nat list option" where
  "parseIPv6 s =
     (if CHR ''%'' \<in> set s then None
      else
        let (ellipsis, s) = (if take 2 s = ''::'' then (Some 0, drop 2 s) else (None, s))
        in if ellipsis \<noteq> None \<and> s = [] then Some (replicate 16 0)
           else
             (case ipv6_loop 8 [] ellipsis s of
                None \<Rightarrow> None
              | Some (ip, ellipsis, rest) \<Rightarrow>
                  if rest \<noteq> [] then None
                  else if length ip < 16 then
                    (case ellipsis of
                       None \<Rightarrow> None
                     | Some e \<Rightarrow> Some (take e ip @ replicate (16 - length ip) 0 @ drop e ip))
                  else if ellipsis \<noteq> None then None
                  else Some ip))"

definition ParseIP :: "string \<Rightarrow> nat list option" where
  "ParseIP s =
     (case filter (\<lambda>c. c \<in> set ''.:%'') s of
        [] \<Rightarrow> None
      | c # _ \<Rightarrow>
          if c = CHR ''.'' then map_option (\<lambda>v4. replicate 10 0 @ [255, 255] @ v4) (parseIPv4 s)
          else if c = CHR '':'' then parseIPv6 s
          else None)"

text \<open>\<^verbatim>\<open>IP.IsLoopback\<close>: 127.0.0.0/8, also when mapped into IPv6, or ::1.\<close>

definition IsLoopback :: "nat list \<Rightarrow> bool" where
  "IsLoopback ip \<longleftrightarrow>
     (if take 12 ip = replicate 10 0 @ [255, 255] then ip ! 12 = 127 else ip = replicate 15 0 @ [1])"

end
