(* ===== verification/ConfigValidate.thy ===== *)
theory ConfigValidate
  imports ConfigDefaults NetAddr
begin

text \<open>
  \<^verbatim>\<open>internal/config/validate.go\<close> and \<^verbatim>\<open>rules.go\<close>: the rules a configuration must satisfy. Each rule takes the
  violations found so far and returns them with its own appended, in the order of the code. URL parsing
  (\<^verbatim>\<open>net/url\<close>) is the parameter \<open>U\<close>, because the set of accepted URLs differs between Go releases; what is
  proved holds for every parser. \<open>quote\<close> is \<^verbatim>\<open>strconv.Quote\<close>, which only shapes messages.
\<close>

subsection \<open>URLs\<close>

record 'u url_pkg =
  url_Parse :: "string \<Rightarrow> error + 'u"
  url_Scheme :: "'u \<Rightarrow> string"
  url_Host :: "'u \<Rightarrow> string"
  url_HasUser :: "'u \<Rightarrow> bool"
  url_SetUser :: "string \<Rightarrow> 'u \<Rightarrow> 'u"
  url_String :: "'u \<Rightarrow> string"

subsection \<open>Violations and basic rules (validate.go)\<close>

type_synonym violations = "field_violation list"

definition violations_add :: "string \<Rightarrow> string \<Rightarrow> violations \<Rightarrow> violations" where
  "violations_add key description v = v @ [\<lparr>Field = key, Description_of = description\<rparr>]"

definition violations_err :: "string \<Rightarrow> violations \<Rightarrow> error option" where
  "violations_err message v =
     (if v = [] then None
      else
        let sorted_list = sort_key Field v
        in Some (KV (Some (WithViolations (New ReasonInvalidArgument message) sorted_list))))"

definition requireValue :: "string \<Rightarrow> string \<Rightarrow> violations \<Rightarrow> violations" where
  "requireValue key s v = (if s = '''' then violations_add key ''is required'' v else v)"

text \<open>The generic rules get the comparison and the zero value of the type they are used at.\<close>

definition requirePositive :: "('a \<Rightarrow> 'a \<Rightarrow> bool) \<Rightarrow> 'a \<Rightarrow> string \<Rightarrow> 'a \<Rightarrow> violations \<Rightarrow> violations" where
  "requirePositive le zero key x v =
     (if le x zero then violations_add key ''must be greater than zero'' v else v)"

definition requireNonNegative :: "('a \<Rightarrow> 'a \<Rightarrow> bool) \<Rightarrow> 'a \<Rightarrow> string \<Rightarrow> 'a \<Rightarrow> violations \<Rightarrow> violations" where
  "requireNonNegative lt zero key x v =
     (if lt x zero then violations_add key ''must not be negative'' v else v)"

abbreviation pos_int :: "string \<Rightarrow> int \<Rightarrow> violations \<Rightarrow> violations" where
  "pos_int \<equiv> requirePositive (\<le>) 0"
abbreviation pos_u32 :: "string \<Rightarrow> u32 \<Rightarrow> violations \<Rightarrow> violations" where
  "pos_u32 \<equiv> requirePositive (\<le>) 0"
abbreviation pos_float :: "string \<Rightarrow> float64 \<Rightarrow> violations \<Rightarrow> violations" where
  "pos_float \<equiv> requirePositive f_le (Fin 0)"
abbreviation nonneg_int :: "string \<Rightarrow> int \<Rightarrow> violations \<Rightarrow> violations" where
  "nonneg_int \<equiv> requireNonNegative (<) 0"

fun strings_Join :: "string list \<Rightarrow> string \<Rightarrow> string" where
  "strings_Join [] sep = []"
| "strings_Join [s] sep = s"
| "strings_Join (s # ss) sep = s @ sep @ strings_Join ss sep"

definition requireOneOf ::
  "(string \<Rightarrow> string) \<Rightarrow> string \<Rightarrow> string \<Rightarrow> string list \<Rightarrow> violations \<Rightarrow> violations" where
  "requireOneOf quote key value allowed v =
     (if value \<in> set allowed then v
      else
        violations_add key
          (''must be one of '' @ strings_Join allowed '', '' @ '' (got '' @ quote value @ '')'') v)"

definition requireHostPort :: "string \<Rightarrow> string \<Rightarrow> violations \<Rightarrow> violations" where
  "requireHostPort key addr v =
     (case SplitHostPort addr of
        None \<Rightarrow> violations_add key ''must be an address of the form host:port'' v
      | Some (_, port) \<Rightarrow>
          (case ParseUint 16 port of
             None \<Rightarrow> violations_add key ''must have a port between 1 and 65535'' v
           | Some n \<Rightarrow>
               if n = 0 then violations_add key ''must have a port between 1 and 65535'' v else v))"

definition requireHTTPSURL :: "'u url_pkg \<Rightarrow> string \<Rightarrow> string \<Rightarrow> violations \<Rightarrow> violations" where
  "requireHTTPSURL U key s v =
     (if s = '''' then violations_add key ''is required'' v
      else
        (case url_Parse U s of
           Inl _ \<Rightarrow> violations_add key ''must be an absolute https:// URL'' v
         | Inr u \<Rightarrow>
             if url_Scheme U u \<noteq> ''https'' \<or> url_Host U u = '''' then
               violations_add key ''must be an absolute https:// URL'' v
             else v))"

definition isLoopback :: "string \<Rightarrow> bool" where
  "isLoopback addr =
     (case SplitHostPort addr of
        None \<Rightarrow> False
      | Some (host, _) \<Rightarrow>
          if host = ''localhost'' then True
          else (case ParseIP host of None \<Rightarrow> False | Some ip \<Rightarrow> IsLoopback ip))"

subsection \<open>The rules (rules.go)\<close>

definition jwtAlgorithms :: "string list" where
  "jwtAlgorithms =
     [''RS256'', ''RS384'', ''RS512'', ''PS256'', ''PS384'', ''PS512'', ''ES256'', ''ES384'', ''ES512'']"

definition traceSamplers :: "string list" where
  "traceSamplers =
     [''always_on'', ''always_off'', ''traceidratio'',
      ''parentbased_always_on'', ''parentbased_always_off'', ''parentbased_traceidratio'']"

text \<open>The loop that looks for an empty entry stops at the first one.\<close>

definition requireEntries :: "string \<Rightarrow> string list \<Rightarrow> violations \<Rightarrow> violations" where
  "requireEntries key items v =
     (if items = [] then violations_add key ''must have at least one entry'' v
      else if list_ex (\<lambda>item. TrimSpace item = '''') items then
        violations_add key ''must not contain empty entries'' v
      else v)"

definition validateNode :: "(string \<Rightarrow> string) \<Rightarrow> Config \<Rightarrow> violations \<Rightarrow> violations" where
  "validateNode quote c v =
     (let n = Node c;
          v = requireValue ''node.id'' (ID n) v;
          v = requireOneOf quote ''node.environment'' (Environment n)
                [EnvironmentProduction, EnvironmentStaging, EnvironmentDevelopment] v;
          v = requireValue ''node.data_dir'' (DataDir n) v
      in pos_int ''node.shutdown_grace'' (ShutdownGrace n) v)"

type_synonym setting = "string \<times> string"

definition validateListen :: "Config \<Rightarrow> violations \<Rightarrow> violations" where
  "validateListen c v =
     (let v = requireHostPort ''listen.client'' (L_Client (Listen c)) v;
          v = requireHostPort ''listen.peer'' (L_Peer (Listen c)) v;
          v = (if M_Enabled (Metrics (Observability c)) \<or> L_Metrics (Listen c) \<noteq> ''''
               then requireHostPort ''listen.metrics'' (L_Metrics (Listen c)) v else v)
      in fold (\<lambda>(key, value) v. if value \<noteq> '''' then requireHostPort key value v else v)
           [(''listen.diagnostics'', L_Diagnostics (Listen c)),
            (''advertise.client'', A_Client (Advertise c)),
            (''advertise.peer'', A_Peer (Advertise c))] v)"

definition validateJWT ::
  "(string \<Rightarrow> string) \<Rightarrow> 'u url_pkg \<Rightarrow> Config \<Rightarrow> violations \<Rightarrow> violations" where
  "validateJWT quote U c v =
     (let j = JWT (Auth c);
          v = (if Mode (Auth c) = AuthModeEnabled then
                 requireHTTPSURL U ''auth.jwt.jwks_url'' (JWKSURL j)
                   (requireHTTPSURL U ''auth.jwt.issuer_url'' (IssuerURL j) v)
               else v);
          v = requireEntries ''auth.jwt.audience'' (Audience j) v;
          v = requireEntries ''auth.jwt.algorithms'' (Algorithms j) v;
          v = fold (\<lambda>alg. requireOneOf quote ''auth.jwt.algorithms'' alg jwtAlgorithms) (Algorithms j) v;
          v = nonneg_int ''auth.jwt.clock_skew'' (ClockSkew j) v;
          v = pos_int ''auth.jwt.refresh_interval'' (RefreshInterval j) v;
          v = pos_int ''auth.jwt.min_refresh_interval'' (MinRefreshInterval j) v;
          v = pos_int ''auth.jwt.http_timeout'' (HTTPTimeout j) v;
          v = pos_int ''auth.jwt.max_response_bytes'' (MaxResponseBytes j) v;
          v = (if MinRSABits j < 2048
               then violations_add ''auth.jwt.min_rsa_bits'' ''must be at least 2048 (KV-SEC-018)'' v else v)
      in nonneg_int ''auth.jwt.claims_cache.max_entries'' (MaxEntries (ClaimsCache j)) v)"

text \<open>The loop of \<^verbatim>\<open>validateScopes\<close>; \<open>seen\<close> is the map from scopes to the key that named them last.\<close>

fun check_scopes :: "setting list \<Rightarrow> (string \<rightharpoonup> string) \<Rightarrow> violations \<Rightarrow> violations" where
  "check_scopes [] seen v = v"
| "check_scopes ((key, value) # scopes) seen v =
     (let v = requireValue key value v;
          v = (case seen value of
                 Some other \<Rightarrow>
                   if value \<noteq> '''' then
                     violations_add key (''must differ from '' @ other @ ''; one scope must never grant another'') v
                   else v
               | None \<Rightarrow> v)
      in check_scopes scopes (seen(value \<mapsto> key)) v)"

definition validateScopes :: "Scopes \<Rightarrow> violations \<Rightarrow> violations" where
  "validateScopes s v =
     check_scopes
       [(''auth.scopes.read'', S_Read s), (''auth.scopes.write'', S_Write s),
        (''auth.scopes.watch'', S_Watch s), (''auth.scopes.admin'', S_Admin s)] Map.empty v"

definition validateAuth ::
  "(string \<Rightarrow> string) \<Rightarrow> 'u url_pkg \<Rightarrow> Config \<Rightarrow> violations \<Rightarrow> violations" where
  "validateAuth quote U c v =
     (let a = Auth c;
          v = requireOneOf quote ''auth.mode'' (Mode a) [AuthModeEnabled, AuthModeDisabled] v;
          v = validateJWT quote U c v;
          v = validateScopes (Scopes a) v
      in if Mode a \<noteq> AuthModeDisabled then v
         else
           let v = (if Environment (Node c) \<noteq> EnvironmentDevelopment
                    then violations_add ''auth.mode'' ''may be disabled only when node.environment is development'' v
                    else v)
           in if InsecureAllowRemote a then v
              else
                fold (\<lambda>(key, value) v.
                    if value \<noteq> '''' \<and> \<not> isLoopback value then
                      violations_add key
                        ''must be a loopback address while authentication is disabled, unless auth.insecure_allow_remote is true''
                        v
                    else v)
                  [(''listen.client'', L_Client (Listen c)), (''listen.peer'', L_Peer (Listen c)),
                   (''listen.metrics'', L_Metrics (Listen c)), (''listen.diagnostics'', L_Diagnostics (Listen c))] v)"

definition validateTLS :: "(string \<Rightarrow> string) \<Rightarrow> Config \<Rightarrow> violations \<Rightarrow> violations" where
  "validateTLS quote c v =
     (let t = TLS c;
          v = requireOneOf quote ''tls.min_version'' (MinVersion t) [''1.3'', ''1.2'']  v
      in if \<not> TLS_Enabled t then
           (if Mode (Auth c) = AuthModeEnabled
            then violations_add ''tls.enabled'' ''may be false only when auth.mode is disabled (KV-SEC-001)'' v
            else v)
         else
           let v = requireValue ''tls.cert_file'' (CertFile t) v;
               v = requireValue ''tls.key_file'' (KeyFile t) v;
               v = requireValue ''tls.client_ca_file'' (ClientCAFile t) v;
               v = requireEntries ''tls.allowed_client_sans'' (AllowedClientSANs t) v
           in if length (InitialPeers (Cluster c)) > 0 then
                requireEntries ''tls.allowed_peer_sans'' (AllowedPeerSANs t)
                  (requireValue ''tls.peer_ca_file'' (PeerCAFile t) v)
              else v)"

definition validateLimits :: "Config \<Rightarrow> violations \<Rightarrow> violations" where
  "validateLimits c v =
     (let l = Limits c;
          v = pos_int ''limits.max_key_bytes'' (MaxKeyBytes l) v;
          v = pos_int ''limits.max_value_bytes'' (MaxValueBytes l) v;
          v = pos_int ''limits.max_request_bytes'' (MaxRequestBytes l) v;
          v = pos_int ''limits.max_concurrent_streams'' (MaxConcurrentStreams l) v;
          v = pos_int ''limits.max_watchers_per_principal'' (MaxWatchersPerPrincipal l) v;
          v = (if MaxKeyBytes l > MaxRequestBytes l
               then violations_add ''limits.max_key_bytes'' ''must not exceed limits.max_request_bytes'' v else v);
          v = (if MaxValueBytes l > MaxRequestBytes l
               then violations_add ''limits.max_value_bytes'' ''must not exceed limits.max_request_bytes'' v else v)
      in fold (\<lambda>(prefix, limit) v.
             pos_int (prefix @ ''.burst'') (Burst limit) (pos_float (prefix @ ''.rate'') (Rate limit) v))
           [(''limits.rate_limit.read'', RL_Read (RateLimit l)),
            (''limits.rate_limit.write'', RL_Write (RateLimit l)),
            (''limits.rate_limit.admin'', RL_Admin (RateLimit l))] v)"

definition validateStorage :: "(string \<Rightarrow> string) \<Rightarrow> Config \<Rightarrow> violations \<Rightarrow> violations" where
  "validateStorage quote c v =
     (let s = Storage c;
          v = requireOneOf quote ''storage.engine'' (Engine s) [''pebble''] v;
          v = requireOneOf quote ''storage.fsync'' (Fsync s) [FsyncAlways, FsyncInterval, FsyncOS] v;
          v = (if Fsync s = FsyncInterval then pos_int ''storage.fsync_interval'' (Fsync_Interval s) v else v);
          v = pos_int ''storage.wal_segment_bytes'' (WALSegmentBytes s) v;
          v = nonneg_int ''storage.wal_retain_segments'' (WALRetainSegments s) v;
          v = pos_int ''storage.snapshot_entries'' (SnapshotEntries s) v;
          v = pos_int ''storage.snapshot_interval'' (SnapshotInterval s) v;
          v = pos_int ''storage.quota_bytes'' (QuotaBytes s) v
      in nonneg_int ''storage.auto_compaction_retention'' (AutoCompactionRetention s) v)"

definition check_peer :: "string \<Rightarrow> violations \<Rightarrow> violations" where
  "check_peer peer v =
     (case Cut peer (CHR ''='') of
        (name, addr, ok) \<Rightarrow>
          if \<not> ok \<or> name = '''' then
            violations_add ''cluster.initial_peers'' ''entries must have the form name=host:port'' v
          else requireHostPort ''cluster.initial_peers'' addr v)"

definition validateCluster :: "(string \<Rightarrow> string) \<Rightarrow> Config \<Rightarrow> violations \<Rightarrow> violations" where
  "validateCluster quote c v =
     (let cl = Cluster c;
          v = fold check_peer (InitialPeers cl) v;
          v = pos_u32 ''cluster.slot_count'' (SlotCount cl) v;
          v = pos_int ''cluster.groups'' (Groups cl) v;
          v = pos_int ''cluster.replication_factor'' (ReplicationFactor cl) v;
          r = Raft cl;
          v = pos_int ''cluster.raft.tick_interval'' (TickInterval r) v;
          v = pos_int ''cluster.raft.heartbeat_ticks'' (HeartbeatTicks r) v;
          v = (if ElectionTicks r < wrap_int (10 * HeartbeatTicks r)
               then violations_add ''cluster.raft.election_ticks''
                 (''must be at least 10 '' @ [CHR 0xC3, CHR 0x97] @ '' cluster.raft.heartbeat_ticks (KV-CON-004)'') v
               else v);
          v = pos_int ''cluster.raft.max_inflight_msgs'' (MaxInflightMsgs r) v;
          v = pos_int ''cluster.raft.max_size_per_msg'' (MaxSizePerMsg r) v;
          v = (if \<not> PreVote r then violations_add ''cluster.raft.pre_vote'' ''must be true (KV-CON-005)'' v else v);
          v = (if \<not> CheckQuorum r then violations_add ''cluster.raft.check_quorum'' ''must be true (KV-CON-006)'' v
               else v);
          v = requireOneOf quote ''cluster.read.default_consistency'' (DefaultConsistency (Read cl)) [''linearizable''] v
      in pos_int ''cluster.read.leader_wait_timeout'' (LeaderWaitTimeout (Read cl)) v)"

definition validateObservability :: "(string \<Rightarrow> string) \<Rightarrow> Config \<Rightarrow> violations \<Rightarrow> violations" where
  "validateObservability quote c v =
     (let ob = Observability c;
          v = requireOneOf quote ''observability.log.level'' (Level (Log ob)) [''debug'', ''info'', ''warn'', ''error''] v;
          v = requireOneOf quote ''observability.log.format'' (Format (Log ob)) [''json'', ''text''] v;
          v = (if Format (Log ob) = ''text'' \<and> Environment (Node c) \<noteq> EnvironmentDevelopment
               then violations_add ''observability.log.format''
                 ''may be text only when node.environment is development (KV-OBS-020)'' v
               else v);
          v = (if T_Enabled (Tracing ob)
               then requireValue ''observability.tracing.otlp_endpoint'' (OTLPEndpoint (Tracing ob)) v else v);
          v = requireOneOf quote ''observability.tracing.sampler'' (Sampler (Tracing ob)) traceSamplers v;
          v = (if f_less (SampleRatio (Tracing ob)) (Fin 0) \<or> f_less (Fin 1) (SampleRatio (Tracing ob))
               then violations_add ''observability.tracing.sample_ratio'' ''must be between 0 and 1'' v else v)
      in pos_int ''observability.health.max_apply_lag_entries'' (MaxApplyLagEntries (Health ob)) v)"

subsection \<open>Validate\<close>

definition collect_violations :: "(string \<Rightarrow> string) \<Rightarrow> 'u url_pkg \<Rightarrow> Config \<Rightarrow> violations" where
  "collect_violations quote U c =
     (let v = [];
          v = validateNode quote c v;
          v = validateListen c v;
          v = validateAuth quote U c v;
          v = validateTLS quote c v;
          v = validateLimits c v;
          v = validateStorage quote c v;
          v = validateCluster quote c v
      in validateObservability quote c v)"

definition Validate :: "(string \<Rightarrow> string) \<Rightarrow> 'u url_pkg \<Rightarrow> Config \<Rightarrow> error option" where
  "Validate quote U c = violations_err ''configuration is invalid'' (collect_violations quote U c)"

named_theorems rule_intros \<open>closure of the rules under composition\<close>

subsection \<open>Rules only append\<close>

text \<open>
  The contract all rules share: a rule looks only at the configuration and appends what it finds, so no
  rule hides the violations of another.
\<close>

locale validation_rule =
  fixes R :: "violations \<Rightarrow> violations"
  assumes appends: "R v = v @ R []"
begin

lemma clean_iff: "R v = [] \<longleftrightarrow> v = [] \<and> R [] = []"
  using appends [of v] by auto

lemma keeps: "x \<in> set v \<Longrightarrow> x \<in> set (R v)"
  using appends [of v] by (metis Un_iff set_append)

end

lemma violations_add_append: "violations_add k d v = v @ violations_add k d []"
  by (simp add: violations_add_def)

interpretation requireValue: validation_rule "requireValue key s" for key s
  by unfold_locales (simp add: requireValue_def violations_add_def)

interpretation requirePositive: validation_rule "requirePositive le zero key x" for le zero key x
  by unfold_locales (simp add: requirePositive_def violations_add_def)

interpretation requireNonNegative: validation_rule "requireNonNegative lt zero key x" for lt zero key x
  by unfold_locales (simp add: requireNonNegative_def violations_add_def)

interpretation requireOneOf: validation_rule "requireOneOf quote key value allowed" for quote key "value" allowed
  by unfold_locales (simp add: requireOneOf_def violations_add_def)

interpretation requireHostPort: validation_rule "requireHostPort key addr" for key addr
  by unfold_locales (simp add: requireHostPort_def violations_add_def split: option.splits prod.splits)

interpretation requireHTTPSURL: validation_rule "requireHTTPSURL U key s" for U key s
  by unfold_locales (simp add: requireHTTPSURL_def violations_add_def split: sum.splits)

interpretation requireEntries: validation_rule "requireEntries key items" for key items
  by unfold_locales (simp add: requireEntries_def violations_add_def)

lemma rule_id [rule_intros]: "validation_rule (\<lambda>v. v)"
  by unfold_locales simp

lemma rule_comp:
  assumes "validation_rule R" and "validation_rule S"
  shows "validation_rule (\<lambda>v. S (R v))"
proof
  fix v
  have "S (R v) = (v @ R []) @ S []"
    using validation_rule.appends [OF assms(1), of v] validation_rule.appends [OF assms(2), of "R v"] by simp
  moreover have "S (R []) = R [] @ S []"
    using validation_rule.appends [OF assms(2), of "R []"] .
  ultimately show "S (R v) = v @ S (R [])" by simp
qed

lemma rule_if [rule_intros]:
  "validation_rule R \<Longrightarrow> validation_rule S \<Longrightarrow> validation_rule (\<lambda>v. if b then R v else S v)"
  by (cases b) simp_all

lemma rule_pair [rule_intros]:
  "(\<And>a b. validation_rule (f a b)) \<Longrightarrow> validation_rule (case x of (a, b) \<Rightarrow> f a b)"
  by (cases x) simp

lemma rule_let [rule_intros]:
  "validation_rule R \<Longrightarrow> validation_rule F \<Longrightarrow> validation_rule (\<lambda>v. Let (R v) F)"
  using rule_comp [of R F] by (simp add: Let_def)

lemma rule_let_value [rule_intros]:
  "validation_rule (\<lambda>v. G x v) \<Longrightarrow> validation_rule (\<lambda>v. Let x (\<lambda>n. G n v))"
  by (simp add: Let_def)

lemma rule_fold:
  assumes "\<And>x. x \<in> set xs \<Longrightarrow> validation_rule (f x)"
  shows "validation_rule (fold f xs)"
  using assms
proof (induction xs)
  case Nil
  then show ?case by unfold_locales simp
next
  case (Cons x xs)
  have "validation_rule (\<lambda>v. fold f xs (f x v))"
    by (rule rule_comp [OF Cons.prems Cons.IH]) (simp_all add: Cons.prems)
  then show ?case by (simp add: comp_def)
qed

lemma rule_add: "validation_rule (violations_add k d)"
  by unfold_locales (simp add: violations_add_def)

lemma rule_fold_after [rule_intros]:
  "(\<And>x. validation_rule (f x)) \<Longrightarrow> validation_rule R \<Longrightarrow> validation_rule (\<lambda>v. fold f xs (R v))"
  by (rule rule_comp [OF _ rule_fold])

lemmas basic_rules [rule_intros] =
  rule_comp [OF _ rule_add]
  rule_comp [OF _ requireValue.validation_rule_axioms]
  rule_comp [OF _ requirePositive.validation_rule_axioms]
  rule_comp [OF _ requireNonNegative.validation_rule_axioms]
  rule_comp [OF _ requireOneOf.validation_rule_axioms]
  rule_comp [OF _ requireHostPort.validation_rule_axioms]
  rule_comp [OF _ requireHTTPSURL.validation_rule_axioms]
  rule_comp [OF _ requireEntries.validation_rule_axioms]

interpretation node: validation_rule "validateNode quote c" for quote c
  unfolding validateNode_def by (intro rule_intros)

interpretation listen: validation_rule "validateListen c" for c
  unfolding validateListen_def by (intro rule_intros)

interpretation jwt: validation_rule "validateJWT quote U c" for quote U c
  unfolding validateJWT_def by (intro rule_intros)

lemma rule_scopes: "validation_rule (check_scopes scopes seen)"
proof (induction scopes arbitrary: seen)
  case Nil
  then show ?case using rule_id by simp
next
  case (Cons s scopes)
  obtain key val where s: "s = (key, val)" by fastforce
  have "validation_rule (\<lambda>v. check_scopes scopes (seen(val \<mapsto> key))
      (case seen val of Some other \<Rightarrow>
         if val \<noteq> '''' then
           violations_add key (''must differ from '' @ other @ ''; one scope must never grant another'') (requireValue key val v)
         else requireValue key val v
       | None \<Rightarrow> requireValue key val v))"
    by (rule rule_comp [OF _ Cons.IH]) (cases "seen val"; simp; intro conjI impI rule_intros)
  then show ?case
    by (simp add: s Let_def cong: option.case_cong)
qed

interpretation auth: validation_rule "validateAuth quote U c" for quote U c
  unfolding validateAuth_def validateScopes_def
  by (intro rule_intros rule_comp [OF _ rule_scopes] rule_comp [OF _ jwt.validation_rule_axioms])

interpretation tls: validation_rule "validateTLS quote c" for quote c
  unfolding validateTLS_def by (intro rule_intros)

interpretation limits: validation_rule "validateLimits c" for c
  unfolding validateLimits_def by (intro rule_intros)

interpretation storage: validation_rule "validateStorage quote c" for quote c
  unfolding validateStorage_def by (intro rule_intros)

lemma rule_peer: "validation_rule (check_peer peer)"
  unfolding check_peer_def by (cases "Cut peer (CHR ''='')") (simp, intro conjI impI rule_intros)

interpretation cluster: validation_rule "validateCluster quote c" for quote c
  unfolding validateCluster_def by (intro rule_intros rule_peer)

interpretation observability: validation_rule "validateObservability quote c" for quote c
  unfolding validateObservability_def by (intro rule_intros)

subsection \<open>When a rule finds nothing\<close>

named_theorems clean_rules \<open>when a rule leaves the list of violations empty\<close>

lemma violations_add_not_Nil [clean_rules]: "violations_add k d v \<noteq> []"
  by (simp add: violations_add_def)

lemma requireValue_clean [clean_rules]: "requireValue k s v = [] \<longleftrightarrow> v = [] \<and> s \<noteq> ''''"
  by (simp add: requireValue_def violations_add_def)

lemma requirePositive_clean [clean_rules]: "requirePositive le z k x v = [] \<longleftrightarrow> v = [] \<and> \<not> le x z"
  by (simp add: requirePositive_def violations_add_def)

lemma requireNonNegative_clean [clean_rules]: "requireNonNegative lt z k x v = [] \<longleftrightarrow> v = [] \<and> \<not> lt x z"
  by (simp add: requireNonNegative_def violations_add_def)

lemma requireOneOf_clean [clean_rules]: "requireOneOf q k x xs v = [] \<longleftrightarrow> v = [] \<and> x \<in> set xs"
  by (simp add: requireOneOf_def violations_add_def)

lemma requireEntries_clean [clean_rules]:
  "requireEntries k xs v = [] \<longleftrightarrow> v = [] \<and> xs \<noteq> [] \<and> (\<forall>x \<in> set xs. TrimSpace x \<noteq> '''')"
  by (auto simp: requireEntries_def violations_add_def list_ex_iff)

definition https_url :: "'u url_pkg \<Rightarrow> string \<Rightarrow> bool" where
  "https_url U s \<longleftrightarrow> s \<noteq> '''' \<and> (\<exists>u. url_Parse U s = Inr u \<and> url_Scheme U u = ''https'' \<and> url_Host U u \<noteq> '''')"

lemma requireHTTPSURL_clean [clean_rules]: "requireHTTPSURL U k s v = [] \<longleftrightarrow> v = [] \<and> https_url U s"
  by (auto simp: requireHTTPSURL_def https_url_def violations_add_def split: sum.splits)

definition host_port :: "string \<Rightarrow> bool" where
  "host_port addr \<longleftrightarrow> (\<exists>host port n. SplitHostPort addr = Some (host, port) \<and> ParseUint 16 port = Some n \<and> 0 < n)"

lemma requireHostPort_clean [clean_rules]: "requireHostPort k addr v = [] \<longleftrightarrow> v = [] \<and> host_port addr"
  by (auto simp: requireHostPort_def host_port_def violations_add_def split: option.splits prod.splits)

lemma check_clean [clean_rules]: "(if b then violations_add k d v else v) = [] \<longleftrightarrow> \<not> b \<and> v = []"
  by (simp add: violations_add_def)

lemma fold_clean:
  assumes "\<And>x. x \<in> set xs \<Longrightarrow> validation_rule (f x)"
  shows "fold f xs v = [] \<longleftrightarrow> v = [] \<and> (\<forall>x \<in> set xs. f x [] = [])"
  using assms
proof (induction xs arbitrary: v)
  case Nil
  then show ?case by simp
next
  case (Cons x xs)
  have "validation_rule (f x)"
    using Cons.prems by simp
  note validation_rule.clean_iff [OF this, of v]
  moreover have "fold f xs (f x v) = [] \<longleftrightarrow> f x v = [] \<and> (\<forall>x \<in> set xs. f x [] = [])"
    using Cons.IH Cons.prems by simp
  ultimately show ?case by auto
qed

text \<open>The four scopes are accepted exactly when they are named and pairwise different.\<close>

lemma check_scopes_clean:
  "check_scopes scopes seen v = [] \<longleftrightarrow>
     v = [] \<and> distinct (map snd scopes) \<and> '''' \<notin> snd ` set scopes \<and> (\<forall>s \<in> snd ` set scopes. seen s = None)"
proof (induction scopes arbitrary: seen v)
  case Nil
  then show ?case by simp
next
  case (Cons sc scopes)
  obtain key val where sc: "sc = (key, val)" by fastforce
  show ?case
    by (cases "seen val") (auto simp: sc Cons.IH Let_def clean_rules split: if_splits)
qed

lemma validateScopes_clean:
  "validateScopes s v = [] \<longleftrightarrow> v = [] \<and> '''' \<notin> {S_Read s, S_Write s, S_Watch s, S_Admin s}
     \<and> distinct [S_Read s, S_Write s, S_Watch s, S_Admin s]"
  unfolding validateScopes_def check_scopes_clean by auto

lemma validateJWT_clean:
  "validateJWT quote U c [] = [] \<Longrightarrow>
     (Mode (Auth c) = AuthModeEnabled \<longrightarrow> https_url U (IssuerURL (JWT (Auth c))) \<and> https_url U (JWKSURL (JWT (Auth c))))
     \<and> Algorithms (JWT (Auth c)) \<noteq> [] \<and> set (Algorithms (JWT (Auth c))) \<subseteq> set jwtAlgorithms
     \<and> 2048 \<le> MinRSABits (JWT (Auth c))"
  by (auto simp: validateJWT_def Let_def clean_rules fold_clean requireOneOf.validation_rule_axioms split: if_splits)

text \<open>The guards that apply while authentication is off.\<close>

lemma disabled_guards_clean:
  assumes "(if Mode a \<noteq> AuthModeDisabled then v
      else let v = (if Environment (Node c) \<noteq> EnvironmentDevelopment then violations_add k d v else v)
           in if InsecureAllowRemote a then v
              else fold (\<lambda>(key, value) v. if value \<noteq> '''' \<and> \<not> isLoopback value then violations_add key d' v else v) ls v) = []"
  shows "v = [] \<and> (Mode a = AuthModeDisabled \<longrightarrow> Environment (Node c) = EnvironmentDevelopment \<and>
    (InsecureAllowRemote a \<or> (\<forall>l \<in> snd ` set ls. l \<noteq> '''' \<longrightarrow> isLoopback l)))"
proof -
  have "validation_rule (\<lambda>v. if l \<noteq> '''' \<and> \<not> isLoopback l then violations_add key d' v else v)" for key l
    by (intro rule_intros)
  then have "fold (\<lambda>(key, value) v. if value \<noteq> '''' \<and> \<not> isLoopback value then violations_add key d' v else v) ls v = []
      \<longleftrightarrow> v = [] \<and> (\<forall>l \<in> snd ` set ls. l \<noteq> '''' \<longrightarrow> isLoopback l)" for v
    by (subst fold_clean) (auto simp: clean_rules)
  then show ?thesis
    using assms by (auto simp: Let_def clean_rules split: if_splits)
qed

lemma validateAuth_clean:
  assumes "validateAuth quote U c [] = []"
  shows "Mode (Auth c) \<in> {AuthModeEnabled, AuthModeDisabled} \<and> validateJWT quote U c [] = [] \<and> validateScopes (Scopes (Auth c)) [] = []
     \<and> (Mode (Auth c) = AuthModeDisabled \<longrightarrow> Environment (Node c) = EnvironmentDevelopment
         \<and> (InsecureAllowRemote (Auth c) \<or>
             (\<forall>a \<in> {L_Client (Listen c), L_Peer (Listen c), L_Metrics (Listen c), L_Diagnostics (Listen c)}.
                a \<noteq> '''' \<longrightarrow> isLoopback a)))"
proof -
  let ?one = "requireOneOf quote ''auth.mode'' (Mode (Auth c)) [AuthModeEnabled, AuthModeDisabled] []"
  have guards: "validateScopes (Scopes (Auth c)) (validateJWT quote U c ?one) = [] \<and>
    (Mode (Auth c) = AuthModeDisabled \<longrightarrow> Environment (Node c) = EnvironmentDevelopment \<and>
      (InsecureAllowRemote (Auth c) \<or> (\<forall>a \<in> snd ` set [(''listen.client'', L_Client (Listen c)), (''listen.peer'', L_Peer (Listen c)),
          (''listen.metrics'', L_Metrics (Listen c)), (''listen.diagnostics'', L_Diagnostics (Listen c))]. a \<noteq> '''' \<longrightarrow> isLoopback a)))"
    using assms unfolding validateAuth_def Let_def [of "Auth c"] Let_def [of "requireOneOf _ _ _ _ _"]
      Let_def [of "validateJWT _ _ _ _"] Let_def [of "validateScopes _ _"] by (rule disabled_guards_clean)
  moreover have "validateJWT quote U c ?one = [] \<longleftrightarrow> ?one = [] \<and> validateJWT quote U c [] = []"
    by (rule jwt.clean_iff)
  ultimately show ?thesis
    by (auto simp: validateScopes_clean requireOneOf_clean)
qed

lemma validateTLS_clean:
  "validateTLS quote c [] = [] \<Longrightarrow>
     (Mode (Auth c) = AuthModeEnabled \<longrightarrow> TLS_Enabled (TLS c))
     \<and> MinVersion (TLS c) \<in> {''1.2'', ''1.3''}
     \<and> (TLS_Enabled (TLS c) \<longrightarrow> AllowedClientSANs (TLS c) \<noteq> [] \<and> (InitialPeers (Cluster c) \<noteq> [] \<longrightarrow> AllowedPeerSANs (TLS c) \<noteq> []))"
  by (auto simp: validateTLS_def Let_def clean_rules split: if_splits)

lemma collect_violations_parts:
  "collect_violations quote U c = validateNode quote c [] @ validateListen c [] @ validateAuth quote U c [] @
     validateTLS quote c [] @ validateLimits c [] @ validateStorage quote c [] @ validateCluster quote c [] @
     validateObservability quote c []"
  unfolding collect_violations_def Let_def
  by (metis (no_types, lifting) append.assoc listen.appends auth.appends tls.appends limits.appends
      storage.appends cluster.appends observability.appends)

lemma Validate_None: "Validate quote U c = None \<longleftrightarrow> collect_violations quote U c = []"
  by (simp add: Validate_def violations_err_def)

subsection \<open>Properties\<close>

text \<open>A parser for the examples: every text is a URL, and the scheme is https when it starts that way.\<close>

definition text_urls :: "string url_pkg" where
  "text_urls =
     \<lparr>url_Parse = Inr, url_Scheme = (\<lambda>s. if take 8 s = ''https://'' then ''https'' else ''''),
      url_Host = drop 8, url_HasUser = (\<lambda>s. CHR ''@'' \<in> set s),
      url_SetUser = (\<lambda>user s. take 8 s @ user @ dropWhile (\<lambda>c. c \<noteq> CHR ''@'') s), url_String = id\<rparr>"

definition sample_config :: Config where
  "sample_config =
     Defaults\<lparr>Auth := defaultAuth\<lparr>JWT := (JWT defaultAuth)\<lparr>IssuerURL := ''https://id.example'', JWKSURL := ''https://id.example/keys''\<rparr>\<rparr>,
              TLS := defaultTLS\<lparr>AllowedClientSANs := [''client'']\<rparr>\<rparr>"

lemmas section_defs = validateNode_def validateListen_def validateAuth_def validateJWT_def validateScopes_def
  validateTLS_def validateLimits_def validateStorage_def validateCluster_def validateObservability_def

lemmas rule_defs = requireValue_def requirePositive_def requireNonNegative_def requireOneOf_def requireHostPort_def
  requireHTTPSURL_def requireEntries_def violations_add_def

lemmas setting_defs = EnvironmentProduction_def EnvironmentStaging_def EnvironmentDevelopment_def
  AuthModeEnabled_def AuthModeDisabled_def fsync_defs Millisecond_def Second_def Minute_def DefaultSlotCount_def
  jwtAlgorithms_def traceSamplers_def

lemma default_addresses:
  "SplitHostPort ''0.0.0.0:2379'' = Some (''0.0.0.0'', ''2379'')" "SplitHostPort ''0.0.0.0:2380'' = Some (''0.0.0.0'', ''2380'')"
  "SplitHostPort ''127.0.0.1:9100'' = Some (''127.0.0.1'', ''9100'')" "SplitHostPort ''127.0.0.1:6060'' = Some (''127.0.0.1'', ''6060'')"
  "ParseUint 16 ''2379'' = Some 2379" "ParseUint 16 ''2380'' = Some 2380" "ParseUint 16 ''9100'' = Some 9100" "ParseUint 16 ''6060'' = Some 6060"
  by (simp_all add: SplitHostPort_def LastIndexByteString_def IndexByteString_def ParseUint_def digit_val_def)

lemma default_entries: "TrimSpace ''gokvx'' \<noteq> []" "TrimSpace ''RS256'' \<noteq> []" "TrimSpace ''client'' \<noteq> []"
  by (simp_all add: TrimSpace_def trim_left.simps space_seqs_def upt_conv_Cons char_of_def bit_0)

lemmas validation_run = collect_violations_parts section_defs rule_defs setting_defs default_defs default_addresses
  default_entries f_le_def

lemma sample_config_valid: "Validate id text_urls sample_config = None"
  by (simp add: Validate_None validation_run wrap_int_def sample_config_def text_urls_def)



text \<open>
  C21: Validation reports everything at once: it accepts exactly when none of the eight groups of rules,
  each run on its own, finds anything; otherwise the error is INVALID_ARGUMENT and carries the violations
  of all groups, none lost or repeated, ordered by key.
\<close>

theorem Validate_reports_every_violation:
  "let all = validateNode quote c [] @ validateListen c [] @ validateAuth quote U c [] @ validateTLS quote c [] @
       validateLimits c [] @ validateStorage quote c [] @ validateCluster quote c [] @ validateObservability quote c []
   in (case Validate quote U c of
         None \<Rightarrow> all = []
       | Some err \<Rightarrow>
           all \<noteq> [] \<and>
           (\<exists>e. err = KV (Some e) \<and> Error_Reason e = ReasonInvalidArgument \<and>
              sorted (map Field (Error_Violations e)) \<and> mset (Error_Violations e) = mset all))"
proof -
  have "kreason (WithViolations (New ReasonInvalidArgument m) vs) = ReasonInvalidArgument"
    "kviolations (WithViolations (New ReasonInvalidArgument m) vs) = vs" for m vs
    by (simp_all add: New_def New_registered)
  then show ?thesis
    unfolding collect_violations_parts [symmetric] Let_def
    by (simp add: Validate_def violations_err_def Error_Reason_def Error_Violations_def)
qed

text \<open>
  The built-in defaults are valid but for the values only a deployment can know: the token issuer,
  its key set and the trusted client names. Every other rule holds for them.
\<close>

theorem Defaults_need_deployment_values:
  "map Field (collect_violations quote U Defaults) =
     [''auth.jwt.issuer_url'', ''auth.jwt.jwks_url'', ''tls.allowed_client_sans'']"
  by (simp add: validation_run wrap_int_def)

text \<open>
  Two numeric rules are weaker than their messages. A rate or a sample ratio that is not a number
  passes, because every comparison with NaN is false; and the bound on the election timeout is computed
  with wrap-around, so a huge heartbeat passes with an election timeout below ten heartbeats.
\<close>

theorem Validate_accepts_NaN_and_overflow:
  "\<exists>c. Validate quote text_urls c = None
     \<and> Rate (RL_Write (RateLimit (Limits c))) = NaN \<and> SampleRatio (Tracing (Observability c)) = NaN
     \<and> 0 < HeartbeatTicks (Raft (Cluster c)) \<and> HeartbeatTicks (Raft (Cluster c)) < 2 ^ 63
     \<and> ElectionTicks (Raft (Cluster c)) < 10 * HeartbeatTicks (Raft (Cluster c))"
proof -
  let ?c = "sample_config
    \<lparr>Limits := defaultLimits\<lparr>RateLimit := (RateLimit defaultLimits)\<lparr>RL_Write := \<lparr>Rate = NaN, Burst = 2000\<rparr>\<rparr>\<rparr>,
     Cluster := defaultCluster\<lparr>Raft := (Raft defaultCluster)\<lparr>HeartbeatTicks := 1844674407370955162\<rparr>\<rparr>,
     Observability := defaultObservability\<lparr>Tracing := (Tracing defaultObservability)\<lparr>SampleRatio := NaN\<rparr>\<rparr>\<rparr>"
  have "Validate quote text_urls ?c = None"
    by (simp add: Validate_None validation_run wrap_int_def sample_config_def text_urls_def)
  then show ?thesis
    by (intro exI [of _ ?c]) (simp add: default_defs)
qed

end
