(* ===== verification/ConfigLoad.thy ===== *)
theory ConfigLoad
  imports ConfigKeys ConfigValidate
begin

text \<open>
  \<^verbatim>\<open>internal/config/load.go\<close>: assembling a configuration from the defaults, a file, the environment and flags.
  The packages koanf (the key-value store, the YAML parser and the decoder) and pflag are not part of
  the repository: koanf is the parameter record \<open>koanf_pkg\<close>, with its documented behaviour as
  \<open>koanf_documented\<close>, and a flag set is what pflag hands to the code, the flags that were set in the order
  \<^verbatim>\<open>Visit\<close> visits them.
\<close>

subsection \<open>The packages\<close>

text \<open>A value of type \<^verbatim>\<open>any\<close>: nil, a typed value, a YAML mapping, or another YAML value by its text.\<close>

datatype any = AnyNil | AnyValue govalue | AnyMap "(string \<times> any) list" | AnyOther string

record 'k koanf_pkg =
  k_New :: 'k
  k_Set :: "string \<Rightarrow> any \<Rightarrow> 'k \<Rightarrow> error + 'k"
  k_LoadYAML :: "string \<Rightarrow> error + 'k"
  k_Keys :: "'k \<Rightarrow> string list"
  k_Get :: "string \<Rightarrow> 'k \<Rightarrow> any"
  k_Unmarshal :: "'k \<Rightarrow> error + Config"
  k_MarshalYAML :: "'k \<Rightarrow> error + bytes"

record pflag =
  fl_Name :: string
  fl_String :: string
  fl_Slice :: "string list option"

record Options =
  File :: string
  Environ :: "string list"
  Flags :: "pflag list option"

subsection \<open>Service links\<close>

text \<open>Regular expressions, matched against a whole string by derivatives.\<close>

datatype regex = Nothing | Empty | Class "char list" | Seq regex regex | Alt regex regex | Star regex

fun nullable :: "regex \<Rightarrow> bool" where
  "nullable Nothing = False"
| "nullable Empty = True"
| "nullable (Class cs) = False"
| "nullable (Seq r s) = (nullable r \<and> nullable s)"
| "nullable (Alt r s) = (nullable r \<or> nullable s)"
| "nullable (Star r) = True"

fun deriv :: "char \<Rightarrow> regex \<Rightarrow> regex" where
  "deriv c Nothing = Nothing"
| "deriv c Empty = Nothing"
| "deriv c (Class cs) = (if c \<in> set cs then Empty else Nothing)"
| "deriv c (Seq r s) =
     (if nullable r then Alt (Seq (deriv c r) s) (deriv c s) else Seq (deriv c r) s)"
| "deriv c (Alt r s) = Alt (deriv c r) (deriv c s)"
| "deriv c (Star r) = Seq (deriv c r) (Star r)"

definition MatchString :: "regex \<Rightarrow> string \<Rightarrow> bool" where
  "MatchString r s = nullable (fold deriv s r)"

definition Lit :: "string \<Rightarrow> regex" where "Lit s = foldr (\<lambda>c. Seq (Class [c])) s Empty"
definition Plus :: "regex \<Rightarrow> regex" where "Plus r = Seq r (Star r)"
definition Opt :: "regex \<Rightarrow> regex" where "Opt r = Alt Empty r"

definition digit_class :: "char list" where "digit_class = ''0123456789''"
definition name_class :: "char list" where "name_class = ''ABCDEFGHIJKLMNOPQRSTUVWXYZ0123456789_''"

definition kubernetesServiceLink :: regex where
  "kubernetesServiceLink =
     Seq (Plus (Class name_class)) (Seq (Lit ''_'')
       (Alt (Lit ''SERVICE_HOST'')
         (Alt (Seq (Lit ''SERVICE_PORT'') (Opt (Seq (Lit ''_'') (Plus (Class name_class)))))
           (Seq (Lit ''PORT'')
             (Opt (Seq (Lit ''_'') (Seq (Plus (Class digit_class)) (Seq (Lit ''_'')
               (Seq (Alt (Lit ''TCP'') (Alt (Lit ''UDP'') (Lit ''SCTP'')))
                 (Opt (Seq (Lit ''_'') (Alt (Lit ''PROTO'') (Alt (Lit ''PORT'') (Lit ''ADDR''))))))))))))))"

subsection \<open>Sources\<close>

definition koanf_set :: "'k koanf_pkg \<Rightarrow> string \<Rightarrow> any \<Rightarrow> 'k \<Rightarrow> error + 'k" where
  "koanf_set K key x k =
     (case k_Set K key x k of
        Inl err \<Rightarrow> Inl (KV (Some (Wrap ReasonInternal err (''configuration key could not be set: '' @ key))))
      | Inr k \<Rightarrow> Inr k)"

text \<open>A field whose value cannot be read would make the code panic; \<open>config_keys_typed\<close> rules it out.\<close>

fun set_fields :: "'k koanf_pkg \<Rightarrow> field list \<Rightarrow> Config \<Rightarrow> 'k \<Rightarrow> error + 'k" where
  "set_fields K [] defaults k = Inr k"
| "set_fields K (f # fs) defaults k =
     (case koanf_set K (f_key f) (AnyValue (the (valueOf f defaults))) k of
        Inl err \<Rightarrow> Inl err
      | Inr k \<Rightarrow> set_fields K fs defaults k)"

definition setDefaults :: "'k koanf_pkg \<Rightarrow> 'k \<Rightarrow> error + 'k" where
  "setDefaults K k = set_fields K all_fields Defaults k"

definition isKey :: "string \<Rightarrow> bool" where "isKey key \<longleftrightarrow> fieldsByKey key \<noteq> None"

definition isEmptySection :: "any \<Rightarrow> bool" where
  "isEmptySection x = (case x of AnyNil \<Rightarrow> True | AnyMap m \<Rightarrow> m = [] | _ \<Rightarrow> False)"

fun load_keys ::
  "'k koanf_pkg \<Rightarrow> 'k \<Rightarrow> string list \<Rightarrow> 'k \<Rightarrow> violations \<Rightarrow> error + 'k \<times> violations" where
  "load_keys K src [] k v = Inr (k, v)"
| "load_keys K src (key # keys) k v =
     (let x = k_Get K key src
      in if isKey key then
           (case koanf_set K key x k of Inl err \<Rightarrow> Inl err | Inr k \<Rightarrow> load_keys K src keys k v)
         else if sections key \<and> isEmptySection x then load_keys K src keys k v
         else if sections key then
           load_keys K src keys k (violations_add key ''is a section and takes nested keys, not a value'' v)
         else load_keys K src keys k (violations_add key ''is not a configuration key'' v))"

definition loadFile ::
  "'k koanf_pkg \<Rightarrow> string \<Rightarrow> 'k \<Rightarrow> violations \<Rightarrow> error + 'k \<times> violations" where
  "loadFile K path k v =
     (case k_LoadYAML K path of
        Inl err \<Rightarrow> Inl (KV (Some (Wrap ReasonInvalidArgument err ''configuration file could not be read'')))
      | Inr src \<Rightarrow> load_keys K src (k_Keys K src) k v)"

definition parseEnvValue :: "field \<Rightarrow> string \<Rightarrow> govalue" where
  "parseEnvValue f text =
     (if \<not> isList f then VString text
      else VList (filter (\<lambda>item. item \<noteq> '''') (map TrimSpace (split_char (CHR '','') text))))"

fun loadEnv :: "'k koanf_pkg \<Rightarrow> string list \<Rightarrow> 'k \<Rightarrow> violations \<Rightarrow> error + 'k \<times> violations" where
  "loadEnv K [] k v = Inr (k, v)"
| "loadEnv K (entry # environ) k v =
     (case Cut entry (CHR ''='') of
        (name, text, _) \<Rightarrow>
          if \<not> prefix envPrefix name then loadEnv K environ k v
          else
            (case fieldsByEnv name of
               None \<Rightarrow>
                 if \<not> MatchString kubernetesServiceLink name then
                   loadEnv K environ k (violations_add name ''is not a configuration variable'' v)
                 else loadEnv K environ k v
             | Some f \<Rightarrow>
                 (case koanf_set K (f_key f) (AnyValue (parseEnvValue f text)) k of
                    Inl err \<Rightarrow> Inl err
                  | Inr k \<Rightarrow> loadEnv K environ k v)))"

definition flag_value :: "pflag \<Rightarrow> any" where
  "flag_value fl = AnyValue (case fl_Slice fl of Some items \<Rightarrow> VList items | None \<Rightarrow> VString (fl_String fl))"

text \<open>The callback of \<^verbatim>\<open>Visit\<close> does nothing once an earlier flag failed, so the loop stops there.\<close>

fun loadFlags :: "'k koanf_pkg \<Rightarrow> pflag list \<Rightarrow> 'k \<Rightarrow> error + 'k" where
  "loadFlags K [] k = Inr k"
| "loadFlags K (fl # fs) k =
     (case fieldsByKey (fl_Name fl) of
        None \<Rightarrow> loadFlags K fs k
      | Some f \<Rightarrow>
          (case koanf_set K (f_key f) (flag_value fl) k of Inl err \<Rightarrow> Inl err | Inr k \<Rightarrow> loadFlags K fs k))"

subsection \<open>Load\<close>

definition Load :: "'k koanf_pkg \<Rightarrow> Options \<Rightarrow> error + Config" where
  "Load K opts =
     (case setDefaults K (k_New K) of
        Inl err \<Rightarrow> Inl err
      | Inr k \<Rightarrow>
          (case (if File opts \<noteq> '''' then loadFile K (File opts) k [] else Inr (k, [])) of
             Inl err \<Rightarrow> Inl err
           | Inr (k, v) \<Rightarrow>
               (case loadEnv K (Environ opts) k v of
                  Inl err \<Rightarrow> Inl err
                | Inr (k, v) \<Rightarrow>
                    (case (case Flags opts of Some fs \<Rightarrow> loadFlags K fs k | None \<Rightarrow> Inr k) of
                       Inl err \<Rightarrow> Inl err
                     | Inr k \<Rightarrow>
                         (case violations_err ''configuration contains unknown keys'' v of
                            Some err \<Rightarrow> Inl err
                          | None \<Rightarrow>
                              (case k_Unmarshal K k of
                                 Inl err \<Rightarrow>
                                   Inl (KV (Some (Wrap ReasonInvalidArgument err
                                     ''configuration has a value of the wrong type'')))
                               | Inr cfg \<Rightarrow> Inr cfg))))))"

subsection \<open>Flags\<close>

record flag_def =
  fd_name :: string
  fd_default :: govalue
  fd_usage :: string

text \<open>Defining a flag twice, or with a default of another type than its key, panics: \<open>None\<close>.\<close>

definition define_flag :: "string \<Rightarrow> govalue \<Rightarrow> string \<Rightarrow> flag_def list \<Rightarrow> flag_def list option" where
  "define_flag name def usage fs =
     (if name \<in> set (map fd_name fs) then None
      else Some (fs @ [\<lparr>fd_name = name, fd_default = def, fd_usage = usage\<rparr>]))"

definition defineFlag ::
  "flag_def list \<Rightarrow> field \<Rightarrow> govalue \<Rightarrow> string \<Rightarrow> (error option \<times> flag_def list) option" where
  "defineFlag fs f def usage =
     (case f_typ f of
        TStruct gs \<Rightarrow>
          Some (Some (KV (Some (New ReasonInternal
            (''configuration key '' @ f_key f @ '' has unsupported type struct'')))), fs)
      | t \<Rightarrow>
          if has_type def t then map_option (Pair None) (define_flag (f_key f) def usage fs) else None)"

fun register_fields ::
  "field list \<Rightarrow> Config \<Rightarrow> flag_def list \<Rightarrow> (error option \<times> flag_def list) option" where
  "register_fields [] defaults fs = Some (None, fs)"
| "register_fields (f # rest) defaults fs =
     (case valueOf f defaults of
        None \<Rightarrow> None
      | Some def \<Rightarrow>
          (case defineFlag fs f def (''sets '' @ f_key f @ '' (environment: '' @ envName f @ '')'') of
             None \<Rightarrow> None
           | Some (Some err, fs) \<Rightarrow> Some (Some err, fs)
           | Some (None, fs) \<Rightarrow> register_fields rest defaults fs))"

definition RegisterFlags :: "flag_def list \<Rightarrow> (error option \<times> flag_def list) option" where
  "RegisterFlags fs = register_fields all_fields Defaults fs"

subsection \<open>What Load decodes\<close>

text \<open>
  The documented behaviour of koanf that the code relies on: a new store is empty, storing a
  configuration key always works and replaces just that key, and decoding depends on the stored values
  only.
\<close>

definition koanf_documented ::
  "'k koanf_pkg \<Rightarrow> ('k \<Rightarrow> (string \<rightharpoonup> any)) \<Rightarrow> ((string \<rightharpoonup> any) \<Rightarrow> error + Config) \<Rightarrow> bool" where
  "koanf_documented K view decode \<longleftrightarrow>
     view (k_New K) = Map.empty \<and>
     (\<forall>key x k. isKey key \<longrightarrow> (\<exists>k'. k_Set K key x k = Inr k' \<and> view k' = (view k)(key \<mapsto> x))) \<and>
     (\<forall>k. k_Unmarshal K k = decode (view k))"

text \<open>The assignments each source makes, in order, and the names each source has that mean nothing.\<close>

definition default_bindings :: "(string \<times> any) list" where
  "default_bindings = map (\<lambda>f. (f_key f, AnyValue (the (valueOf f Defaults)))) all_fields"

definition file_bindings :: "'k koanf_pkg \<Rightarrow> 'k \<Rightarrow> (string \<times> any) list" where
  "file_bindings K src = map (\<lambda>key. (key, k_Get K key src)) (filter isKey (k_Keys K src))"

definition file_unknown :: "'k koanf_pkg \<Rightarrow> 'k \<Rightarrow> string list" where
  "file_unknown K src =
     filter (\<lambda>key. \<not> isKey key \<and> \<not> (sections key \<and> isEmptySection (k_Get K key src))) (k_Keys K src)"

definition env_split :: "string \<Rightarrow> string \<times> string" where
  "env_split entry = (case Cut entry (CHR ''='') of (name, text, _) \<Rightarrow> (name, text))"

definition env_bindings :: "string list \<Rightarrow> (string \<times> any) list" where
  "env_bindings environ =
     concat (map (\<lambda>entry. case env_split entry of (name, text) \<Rightarrow>
       if prefix envPrefix name then
         (case fieldsByEnv name of None \<Rightarrow> [] | Some f \<Rightarrow> [(f_key f, AnyValue (parseEnvValue f text))])
       else []) environ)"

definition env_unknown :: "string list \<Rightarrow> string list" where
  "env_unknown environ =
     filter (\<lambda>name. prefix envPrefix name \<and> fieldsByEnv name = None \<and> \<not> MatchString kubernetesServiceLink name)
       (map (\<lambda>entry. fst (env_split entry)) environ)"

definition flag_bindings :: "pflag list option \<Rightarrow> (string \<times> any) list" where
  "flag_bindings flags =
     (case flags of
        None \<Rightarrow> []
      | Some fs \<Rightarrow> map (\<lambda>fl. (fl_Name fl, flag_value fl)) (filter (\<lambda>fl. isKey (fl_Name fl)) fs))"

lemma isKey_field: "isKey (f_key f) \<longleftrightarrow> f_key f \<in> f_key ` set all_fields"
  by (simp add: isKey_def fieldsByKey_def indexFields_exact [OF keys_distinct]) (metis imageE imageI)

lemma fieldsByKey_key: "fieldsByKey key = Some f \<Longrightarrow> f_key f = key \<and> isKey key"
  by (auto simp: isKey_def fieldsByKey_def indexFields_exact [OF keys_distinct])

lemma fieldsByEnv_key: "fieldsByEnv name = Some f \<Longrightarrow> isKey (f_key f)"
  by (auto simp: isKey_field fieldsByEnv_def indexFields_exact [OF env_names_distinct])

text \<open>Later assignments win.\<close>

abbreviation assigned :: "(string \<times> any) list \<Rightarrow> (string \<rightharpoonup> any)" where
  "assigned bs \<equiv> map_of (rev bs)"

lemma assigned_step: "m' = m(key \<mapsto> x) \<Longrightarrow> m ++ assigned ((key, x) # bs) = m' ++ assigned bs"
  by (simp add: map_add_def fun_eq_iff split: option.splits)

lemma assigned_append: "m ++ assigned (as @ bs) = (m ++ assigned as) ++ assigned bs"
  by (simp add: map_add_assoc)

lemma koanf_set_ok:
  assumes "koanf_documented K view decode" and "isKey key"
  shows "\<exists>k'. koanf_set K key x k = Inr k' \<and> view k' = (view k)(key \<mapsto> x)"
proof -
  obtain k' where "k_Set K key x k = Inr k'" "view k' = (view k)(key \<mapsto> x)"
    using assms unfolding koanf_documented_def by blast
  then show ?thesis by (simp add: koanf_set_def)
qed

lemma set_fields_ok:
  assumes "koanf_documented K view decode" and "set fs \<subseteq> set all_fields"
  shows "\<exists>k'. set_fields K fs c k = Inr k' \<and>
    view k' = view k ++ assigned (map (\<lambda>f. (f_key f, AnyValue (the (valueOf f c)))) fs)"
  using assms(2)
proof (induction fs arbitrary: k)
  case Nil
  then show ?case by simp
next
  case (Cons f fs)
  have "isKey (f_key f)"
    using Cons.prems by (simp add: isKey_field)
  from koanf_set_ok [OF assms(1) this] obtain k1 where
    k1: "koanf_set K (f_key f) (AnyValue (the (valueOf f c))) k = Inr k1"
      "view k1 = (view k)(f_key f \<mapsto> AnyValue (the (valueOf f c)))"
    by blast
  obtain k2 where "set_fields K fs c k1 = Inr k2"
    "view k2 = view k1 ++ assigned (map (\<lambda>f. (f_key f, AnyValue (the (valueOf f c)))) fs)"
    using Cons.IH Cons.prems by (meson list.set_intros(2) subset_code(1))
  then show ?case
    using k1(1) unfolding list.map assigned_step [OF k1(2)] by simp
qed

definition unknown_key :: "string \<Rightarrow> field_violation" where
  "unknown_key key = \<lparr>Field = key, Description_of =
     (if sections key then ''is a section and takes nested keys, not a value'' else ''is not a configuration key'')\<rparr>"

definition unknown_variable :: "string \<Rightarrow> field_violation" where
  "unknown_variable name = \<lparr>Field = name, Description_of = ''is not a configuration variable''\<rparr>"

lemma load_keys_ok:
  assumes doc: "koanf_documented K view decode"
  shows "\<exists>k'. load_keys K src keys k v = Inr (k', v @ map unknown_key
      (filter (\<lambda>key. \<not> isKey key \<and> \<not> (sections key \<and> isEmptySection (k_Get K key src))) keys)) \<and>
    view k' = view k ++ assigned (map (\<lambda>key. (key, k_Get K key src)) (filter isKey keys))"
proof (induction keys arbitrary: k v)
  case Nil
  then show ?case by simp
next
  case (Cons key keys)
  show ?case
  proof (cases "isKey key")
    case True
    from koanf_set_ok [OF doc this] obtain k1 where
      k1: "koanf_set K key (k_Get K key src) k = Inr k1" "view k1 = (view k)(key \<mapsto> k_Get K key src)"
      by blast
    have "filter isKey (key # keys) = key # filter isKey keys"
      using True by simp
    then show ?thesis
      unfolding list.map assigned_step [OF k1(2)] using True k1(1) Cons.IH [of k1 v]
      by (simp add: Let_def assigned_step [OF k1(2)] del: rev.simps map_of.simps)
  next
    case False
    then show ?thesis
      using Cons.IH [of k v] Cons.IH [of k "v @ [unknown_key key]"]
      by (auto simp: Let_def violations_add_def unknown_key_def)
  qed
qed

lemma loadEnv_ok:
  assumes doc: "koanf_documented K view decode"
  shows "\<exists>k'. loadEnv K environ k v = Inr (k', v @ map unknown_variable (env_unknown environ)) \<and>
    view k' = view k ++ assigned (env_bindings environ)"
proof (induction environ arbitrary: k v)
  case Nil
  then show ?case by (simp add: env_unknown_def env_bindings_def)
next
  case (Cons entry environ)
  obtain name val ok where cut: "Cut entry (CHR ''='') = (name, val, ok)" by (metis prod_cases3)
  have split: "env_split entry = (name, val)"
    by (simp add: env_split_def cut)
  show ?case
  proof (cases "prefix envPrefix name")
    case False
    then show ?thesis
      using Cons.IH [of k v] by (simp add: cut split env_unknown_def env_bindings_def)
  next
    case pre: True
    show ?thesis
    proof (cases "fieldsByEnv name")
      case None
      then show ?thesis
        using pre Cons.IH [of k v] Cons.IH [of k "v @ [unknown_variable name]"]
        by (auto simp: cut split env_unknown_def env_bindings_def violations_add_def unknown_variable_def)
    next
      case (Some f)
      from koanf_set_ok [OF doc fieldsByEnv_key [OF this]] obtain k1 where
        k1: "koanf_set K (f_key f) (AnyValue (parseEnvValue f val)) k = Inr k1"
          "view k1 = (view k)(f_key f \<mapsto> AnyValue (parseEnvValue f val))"
        by blast
      have "env_bindings (entry # environ) = (f_key f, AnyValue (parseEnvValue f val)) # env_bindings environ"
        "env_unknown (entry # environ) = env_unknown environ"
        using pre Some by (simp_all add: env_bindings_def env_unknown_def split)
      then show ?thesis
        using pre Some k1(1) Cons.IH [of k1 v] by (simp add: cut assigned_step [OF k1(2)] del: rev.simps map_of.simps)
    qed
  qed
qed

lemma loadFlags_ok:
  assumes doc: "koanf_documented K view decode"
  shows "\<exists>k'. loadFlags K fs k = Inr k' \<and> view k' = view k ++ assigned (flag_bindings (Some fs))"
proof (induction fs arbitrary: k)
  case Nil
  then show ?case by (simp add: flag_bindings_def)
next
  case (Cons fl fs)
  show ?case
  proof (cases "fieldsByKey (fl_Name fl)")
    case None
    then show ?thesis
      using Cons.IH [of k] by (simp add: flag_bindings_def isKey_def)
  next
    case (Some f)
    then have f: "f_key f = fl_Name fl" "isKey (fl_Name fl)"
      using fieldsByKey_key by auto
    from koanf_set_ok [OF doc f(2)] obtain k1 where
      k1: "koanf_set K (fl_Name fl) (flag_value fl) k = Inr k1" "view k1 = (view k)(fl_Name fl \<mapsto> flag_value fl)"
      by blast
    have "flag_bindings (Some (fl # fs)) = (fl_Name fl, flag_value fl) # flag_bindings (Some fs)"
      using f(2) by (simp add: flag_bindings_def)
    then show ?thesis
      using Some f(1) k1(1) Cons.IH [of k1] by (simp add: assigned_step [OF k1(2)] del: rev.simps map_of.simps)
  qed
qed

subsection \<open>Properties\<close>

text \<open>
  C20: Precedence of the sources: Load decodes, for every key, the value assigned last in the order
  defaults, file, environment, flags; but if the file has a key, or the environment a GOKVX variable,
  that means nothing and is not a Kubernetes service link, it fails and names every one of them.
\<close>

theorem Load_last_source_wins:
  assumes doc: "koanf_documented K view decode" and src: "File opts = '''' \<or> k_LoadYAML K (File opts) = Inr src"
  shows "Load K opts =
    (let with_file = (File opts \<noteq> '''');
         unknown = map unknown_key (if with_file then file_unknown K src else []) @ map unknown_variable (env_unknown (Environ opts));
         bindings = default_bindings @ (if with_file then file_bindings K src else []) @ env_bindings (Environ opts) @ flag_bindings (Flags opts)
     in if unknown \<noteq> [] then Inl (the (violations_err ''configuration contains unknown keys'' unknown))
        else
          (case decode (map_of (rev bindings)) of
             Inl err \<Rightarrow> Inl (KV (Some (Wrap ReasonInvalidArgument err ''configuration has a value of the wrong type'')))
           | Inr cfg \<Rightarrow> Inr cfg))"
proof -
  let ?file = "if File opts \<noteq> '''' then file_bindings K src else []"
  let ?unknown = "map unknown_key (if File opts \<noteq> '''' then file_unknown K src else [])"
  obtain k0 where k0: "setDefaults K (k_New K) = Inr k0" "view k0 = assigned default_bindings"
    using set_fields_ok [OF doc subset_refl, of Defaults "k_New K"] doc
    by (auto simp: setDefaults_def default_bindings_def koanf_documented_def)
  have "\<exists>k1. (if File opts \<noteq> '''' then loadFile K (File opts) k0 [] else Inr (k0, [])) = Inr (k1, ?unknown)
      \<and> view k1 = view k0 ++ assigned ?file"
    using src load_keys_ok [OF doc, of src "k_Keys K src" k0 "[]"]
    by (cases "File opts = ''''") (auto simp: loadFile_def file_bindings_def file_unknown_def)
  then obtain k1 where k1: "(if File opts \<noteq> '''' then loadFile K (File opts) k0 [] else Inr (k0, [])) = Inr (k1, ?unknown)"
    "view k1 = view k0 ++ assigned ?file"
    by blast
  obtain k2 where k2: "loadEnv K (Environ opts) k1 ?unknown = Inr (k2, ?unknown @ map unknown_variable (env_unknown (Environ opts)))"
    "view k2 = view k1 ++ assigned (env_bindings (Environ opts))"
    using loadEnv_ok [OF doc] by blast
  obtain k3 where k3: "(case Flags opts of Some fs \<Rightarrow> loadFlags K fs k2 | None \<Rightarrow> Inr k2) = Inr k3"
    "view k3 = view k2 ++ assigned (flag_bindings (Flags opts))"
    using loadFlags_ok [OF doc, of _ k2] by (cases "Flags opts") (auto simp: flag_bindings_def)
  have "view k3 = assigned (default_bindings @ ?file @ env_bindings (Environ opts) @ flag_bindings (Flags opts))"
    unfolding k3(2) k2(2) k1(2) k0(2) by simp
  then have "k_Unmarshal K k3 = decode (assigned (default_bindings @ ?file @ env_bindings (Environ opts) @ flag_bindings (Flags opts)))"
    using doc by (simp add: koanf_documented_def)
  then show ?thesis
    unfolding Load_def Let_def k0(1) k1(1) k2(1) k3(1) sum.case prod.case
    by (simp add: violations_err_def)
qed

text \<open>A store for the example: the assignments made, and a decoder that reads the node's name.\<close>

definition list_koanf :: "(string \<times> any) list koanf_pkg" where
  "list_koanf =
     \<lparr>k_New = [], k_Set = (\<lambda>key x k. Inr ((key, x) # k)), k_LoadYAML = (\<lambda>path. Inr []), k_Keys = map fst,
      k_Get = (\<lambda>key k. case map_of k key of None \<Rightarrow> AnyNil | Some x \<Rightarrow> x),
      k_Unmarshal = (\<lambda>k. case map_of k ''node.id'' of
          Some (AnyValue (VString name)) \<Rightarrow> Inr (Defaults\<lparr>Node := defaultNode\<lparr>ID := name\<rparr>\<rparr>)
        | _ \<Rightarrow> Inl (TextErr ''wrong type'')),
      k_MarshalYAML = (\<lambda>k. Inr [])\<rparr>"

theorem Load_last_source_wins_witness:
  "Load list_koanf \<lparr>File = '''', Environ = [''HOME=/'', ''GOKVX_NODE_ID=n1''], Flags = None\<rparr> =
     Inr (Defaults\<lparr>Node := defaultNode\<lparr>ID := ''n1''\<rparr>\<rparr>)"
proof -
  let ?f = "\<lparr>f_key = ''node.id'', f_index = [0, 0], f_typ = TString\<rparr>"
  let ?environ = "[''HOME=/'', ''GOKVX_NODE_ID=n1'']"
  have doc: "koanf_documented list_koanf map_of (\<lambda>m. case m ''node.id'' of
          Some (AnyValue (VString name)) \<Rightarrow> Inr (Defaults\<lparr>Node := defaultNode\<lparr>ID := name\<rparr>\<rparr>)
        | _ \<Rightarrow> Inl (TextErr ''wrong type''))"
    by (simp add: koanf_documented_def list_koanf_def)
  have "hd all_fields = ?f" "all_fields \<noteq> []"
    by code_simp+
  then have "?f \<in> set all_fields"
    using hd_in_set by metis
  moreover have name: "envName ?f = ''GOKVX_NODE_ID''"
    by (simp add: envName_def envPrefix_def ToUpper_def ReplaceAll_def char_of_def bit_0)
  ultimately have env: "fieldsByEnv ''GOKVX_NODE_ID'' = Some ?f"
    by (simp add: fieldsByEnv_def indexFields_exact [OF env_names_distinct])
  have split: "env_split ''HOME=/'' = (''HOME'', ''/'')" "env_split ''GOKVX_NODE_ID=n1'' = (''GOKVX_NODE_ID'', ''n1'')"
    by (simp_all add: env_split_def Cut_def IndexByteString_def)
  have "env_unknown ?environ = []"
    by (simp add: env_unknown_def split envPrefix_def env)
  moreover have "env_bindings ?environ = [(''node.id'', AnyValue (VString ''n1''))]"
    by (simp add: env_bindings_def split envPrefix_def env parseEnvValue_def isList_def)
  ultimately show ?thesis
    using Load_last_source_wins [OF doc, of "\<lparr>File = '''', Environ = ?environ, Flags = None\<rparr>" "[]"]
    by (simp add: flag_bindings_def)
qed

lemma split_char_not_Nil: "split_char c s \<noteq> []"
  by (induction s) (auto split: list.splits)

lemma split_char_plain: "c \<notin> set s \<Longrightarrow> split_char c s = [s]"
  by (induction s) auto

lemma split_char_Cons: "c \<notin> set s \<Longrightarrow> split_char c (s @ c # t) = s # split_char c t"
  by (induction s) auto

lemma split_join:
  "items \<noteq> [] \<Longrightarrow> list_all (\<lambda>s. c \<notin> set s) items \<Longrightarrow> split_char c (strings_Join items [c]) = items"
proof (induction items rule: induct_list012)
  case (3 a b items)
  then show ?case by (simp add: split_char_Cons)
qed (simp_all add: split_char_plain)

lemma TrimSpace_Nil: "TrimSpace [] = []"
proof -
  have "trim_left seqs [] = []" for seqs
    by (subst trim_left.simps) (auto split: option.splits simp: find_Some_iff)
  then show ?thesis by (simp add: TrimSpace_def)
qed

text \<open>
  A list setting survives the way through an environment variable: writing the items of a list
  separated by commas and reading the variable gives the list back, as long as the items are not empty,
  have no surrounding white space and no comma.
\<close>

theorem env_list_roundtrip:
  assumes "isList f" and "list_all (\<lambda>s. s \<noteq> '''' \<and> TrimSpace s = s \<and> CHR '','' \<notin> set s) items"
  shows "parseEnvValue f (strings_Join items '','') = VList items"
proof (cases "items = []")
  case True
  then show ?thesis
    using assms(1) by (simp add: parseEnvValue_def TrimSpace_Nil)
next
  case False
  have "split_char (CHR '','') (strings_Join items '','') = items"
    using False assms(2) by (intro split_join) (simp_all add: list_all_iff)
  moreover have "map TrimSpace items = items" "filter (\<lambda>s. s \<noteq> '''') items = items"
    using assms(2) by (auto simp: list_all_iff intro: map_idI)
  ultimately show ?thesis
    using assms(1) by (simp add: parseEnvValue_def)
qed

theorem env_list_roundtrip_witness:
  "parseEnvValue \<lparr>f_key = ''auth.jwt.audience'', f_index = [3, 2, 2], f_typ = TList\<rparr> ''gokvx,client'' = VList [''gokvx'', ''client'']"
proof -
  have "TrimSpace ''gokvx'' = ''gokvx''" "TrimSpace ''client'' = ''client''"
    by (simp_all add: TrimSpace_def trim_left.simps space_seqs_def upt_conv_Cons char_of_def bit_0)
  then show ?thesis
    using env_list_roundtrip [of "\<lparr>f_key = ''auth.jwt.audience'', f_index = [3, 2, 2], f_typ = TList\<rparr>" "[''gokvx'', ''client'']"]
    by (simp add: isList_def)
qed

lemma collectFields_leaf: "f \<in> set (collectFields fs i pre index) \<Longrightarrow> f_typ f \<noteq> TStruct gs"
proof (induction fs i pre index rule: collectFields.induct)
  case (2 tag t fs i pre index)
  note IH = "2.IH"(1) [OF refl refl] "2.IH"(2) [OF refl refl]
  show ?case
    using "2.prems" IH by (auto simp: Let_def split: gotype.splits)
qed simp

lemma register_fields_ok:
  assumes "set fs \<subseteq> set all_fields" and "distinct (map fd_name flags @ map f_key fs)"
  shows "\<exists>new. register_fields fs c flags = Some (None, flags @ new) \<and> map fd_name new = map f_key fs"
  using assms
proof (induction fs arbitrary: flags)
  case Nil
  then show ?case by simp
next
  case (Cons f fs)
  have f: "f \<in> set all_fields" "f_key f \<notin> set (map fd_name flags)"
    using Cons.prems by auto
  obtain v where v: "valueOf f c = Some v" "has_type v (f_typ f)"
    using valueOf_typed [OF f(1)] by blast
  define d where "d = \<lparr>fd_name = f_key f, fd_default = v, fd_usage = ''sets '' @ f_key f @ '' (environment: '' @ envName f @ '')''\<rparr>"
  have "f_typ f \<noteq> TStruct gs" for gs
    using f(1) collectFields_leaf unfolding all_fields_def by blast
  then have "defineFlag flags f v (''sets '' @ f_key f @ '' (environment: '' @ envName f @ '')'') = Some (None, flags @ [d])"
    using v(2) f(2) by (cases "f_typ f") (auto simp: defineFlag_def define_flag_def d_def)
  moreover obtain new where "register_fields fs c (flags @ [d]) = Some (None, (flags @ [d]) @ new)" "map fd_name new = map f_key fs"
    using Cons.IH [of "flags @ [d]"] Cons.prems by (auto simp: d_def)
  ultimately show ?case
    using v(1) by (intro exI [of _ "d # new"]) (simp add: d_def)
qed

text \<open>
  Registering the configuration flags cannot fail or panic on a flag set that has none of their
  names: it defines exactly one flag per configuration key, of the key's type and with its default.
\<close>

theorem RegisterFlags_total:
  assumes "set (map fd_name flags) \<inter> set (map f_key all_fields) = {}" and "distinct (map fd_name flags)"
  shows "\<exists>new. RegisterFlags flags = Some (None, flags @ new) \<and> map fd_name new = map f_key all_fields"
  unfolding RegisterFlags_def
  by (rule register_fields_ok) (use assms keys_distinct in auto)

theorem RegisterFlags_total_witness:
  "\<exists>new. RegisterFlags [] = Some (None, new) \<and> map fd_name new = map f_key all_fields"
  using RegisterFlags_total [of "[]"] by simp

end
