(* ===== verification/Durations.thy ===== *)
theory Durations
  imports Segment
begin

text \<open>
  \<^verbatim>\<open>formatDuration\<close> of \<^verbatim>\<open>internal/config/keys.go\<close>: durations as they are written in configuration files and
  logs. The standard library's \<^verbatim>\<open>time.Duration.String\<close> and \<^verbatim>\<open>time.ParseDuration\<close> are modelled with it; the
  theorem at the end says that the shortened text still means the same duration.
\<close>

subsection \<open>Writing durations\<close>

text \<open>
  \<^verbatim>\<open>time.Duration.String\<close>: hours, minutes and seconds with up to nine decimals, or a smaller unit below one
  second; leading zero units and trailing zero decimals are left out.
\<close>

definition fmtFrac :: "nat \<Rightarrow> nat \<Rightarrow> string" where
  "fmtFrac v prec =
     (let r = v mod 10 ^ prec
      in if r = 0 then '''' else CHR ''.'' # rev (dropWhile (\<lambda>c. c = CHR ''0'') (rev (pad_digits prec r))))"

definition fmt_unit :: "nat \<Rightarrow> nat \<Rightarrow> string \<Rightarrow> string" where
  "fmt_unit u prec unit_name = show_nat (u div 10 ^ prec) @ fmtFrac u prec @ unit_name"

definition duration_body :: "nat \<Rightarrow> string" where
  "duration_body u =
     (if u = 0 then ''0s''
      else if u < 1000 then fmt_unit u 0 ''ns''
      else if u < 1000000 then fmt_unit u 3 [CHR 0xC2, CHR 0xB5, CHR ''s'']
      else if u < 1000000000 then fmt_unit u 6 ''ms''
      else
        (let s = u div 10 ^ 9;
             m = s div 60;
             h = m div 60
         in (if 0 < m then (if 0 < h then show_nat h @ ''h'' else '''') @ show_nat (m mod 60) @ ''m'' else '''')
            @ show_nat (s mod 60) @ fmtFrac u 9 @ ''s''))"

definition Duration_String :: "int \<Rightarrow> string" where
  "Duration_String d =
     (let body = duration_body (nat \<bar>d\<bar>) in if d < 0 then CHR ''-'' # body else body)"

definition TrimSuffix :: "string \<Rightarrow> string \<Rightarrow> string" where
  "TrimSuffix s suf = (if suffix suf s then take (length s - length suf) s else s)"

definition formatDuration :: "int \<Rightarrow> string" where
  "formatDuration d =
     (let s = Duration_String d;
          s = (if suffix ''m0s'' s then TrimSuffix s ''0s'' else s)
      in if suffix ''h0m'' s then TrimSuffix s ''0m'' else s)"

subsection \<open>Reading durations\<close>

text \<open>
  \<^verbatim>\<open>time.ParseDuration\<close>: an optional sign and a sequence of decimal numbers, each with an optional fraction and
  a unit. The fraction is computed exactly here; Go multiplies floats, which is exact as well for the up
  to nine decimals of a second that are ever written.
\<close>

definition is_digit :: "char \<Rightarrow> bool" where "is_digit c \<longleftrightarrow> digit_val c \<noteq> None"

definition unit_char :: "char \<Rightarrow> bool" where "unit_char c \<longleftrightarrow> c \<noteq> CHR ''.'' \<and> \<not> is_digit c"

definition unitMap :: "string \<Rightarrow> nat option" where
  "unitMap =
     map_of [(''ns'', 1), (''us'', 1000), ([CHR 0xC2, CHR 0xB5, CHR ''s''], 1000), ([CHR 0xCE, CHR 0xBC, CHR ''s''], 1000),
       (''ms'', 10 ^ 6), (''s'', 10 ^ 9), (''m'', 60 * 10 ^ 9), (''h'', 3600 * 10 ^ 9)]"

definition split_fraction :: "string \<Rightarrow> string \<times> string" where
  "split_fraction s =
     (case s of
        [] \<Rightarrow> ([], [])
      | c # r \<Rightarrow> if c = CHR ''.'' then (takeWhile is_digit r, dropWhile is_digit r) else ([], s))"

lemma split_fraction_length: "split_fraction s = (fs, r) \<Longrightarrow> length r \<le> length s"
  using length_dropWhile_le [of is_digit "tl s"]
  by (auto simp: split_fraction_def split: list.splits if_splits)

lemma term_shrinks:
  assumes "split_fraction (dropWhile is_digit s) = (fs, r)" and "takeWhile unit_char r \<noteq> []"
  shows "length (dropWhile unit_char r) < length s"
proof -
  have "0 < length (takeWhile unit_char r)"
    using assms(2) by simp
  moreover have "length (takeWhile unit_char r) + length (dropWhile unit_char r) = length r"
    by (metis length_append takeWhile_dropWhile_id)
  ultimately show ?thesis
    using split_fraction_length [OF assms(1)] length_dropWhile_le [of is_digit s] by linarith
qed

function parse_terms :: "nat \<Rightarrow> string \<Rightarrow> nat option" where
  "parse_terms d s =
     (if s = [] then Some d
      else
        let ds = takeWhile is_digit s;
            (fs, r) = split_fraction (dropWhile is_digit s);
            u = takeWhile unit_char r
        in if ds = [] \<and> fs = [] \<or> u = [] then None
           else
             (case unitMap u of
                None \<Rightarrow> None
              | Some unit \<Rightarrow>
                  let v = the (parse_digits 0 ds);
                      x = v * unit + the (parse_digits 0 fs) * unit div 10 ^ length fs
                  in if 2 ^ 63 div unit < v \<or> 2 ^ 63 < x \<or> 2 ^ 63 < d + x then None
                     else parse_terms (d + x) (dropWhile unit_char r)))"
  by pat_completeness auto
termination
  by (relation "measure (length \<circ> snd)") (auto dest!: sym [of "(_, _)"] term_shrinks)

declare parse_terms.simps [simp del]

definition ParseDuration :: "string \<Rightarrow> int option" where
  "ParseDuration s =
     (let neg = (s \<noteq> [] \<and> hd s = CHR ''-'');
          s = (if s \<noteq> [] \<and> (hd s = CHR ''-'' \<or> hd s = CHR ''+'') then tl s else s)
      in if s = ''0'' then Some 0
         else if s = [] then None
         else
           (case parse_terms 0 s of
              None \<Rightarrow> None
            | Some d \<Rightarrow> if neg then Some (- int d) else if 2 ^ 63 - 1 < d then None else Some (int d)))"

subsection \<open>One term\<close>

text \<open>The text of a fraction, its digits and their value.\<close>

definition fraction :: "string \<Rightarrow> nat \<Rightarrow> nat \<Rightarrow> bool" where
  "fraction t unit x \<longleftrightarrow>
     t = [] \<and> x = 0 \<or>
     (\<exists>fs f. t = CHR ''.'' # fs \<and> list_all is_digit fs \<and> parse_digits 0 fs = Some f \<and> x = f * unit div 10 ^ length fs)"

definition begins_term :: "string \<Rightarrow> bool" where
  "begins_term s \<longleftrightarrow> s = [] \<or> is_digit (hd s)"

lemma takeWhile_split:
  assumes "list_all P xs" and "ys = [] \<or> \<not> P (hd ys)"
  shows "takeWhile P (xs @ ys) = xs" "dropWhile P (xs @ ys) = ys"
  using assms by (induction xs; cases ys; simp)+

lemma dot_not_digit [simp]: "\<not> is_digit (CHR ''.'')"
  by (simp add: is_digit_def digit_val_def)

lemma unitMap_chars: "unitMap u = Some k \<Longrightarrow> u \<noteq> [] \<and> list_all unit_char u \<and> 0 < k"
  by (auto simp: unitMap_def unit_char_def is_digit_def digit_val_def split: if_splits)

lemma parse_term:
  assumes ds: "list_all is_digit ds" "ds \<noteq> []" "parse_digits 0 ds = Some n"
    and fr: "fraction fr k x" and u: "unitMap u = Some k" and rest: "begins_term rest"
    and bound: "d + n * k + x \<le> 2 ^ 63"
  shows "parse_terms d (ds @ fr @ u @ rest) = parse_terms (d + n * k + x) rest"
proof -
  note uc = unitMap_chars [OF u]
  have hd_u: "unit_char (hd u)" "u \<noteq> []"
    using uc by (cases u; simp)+
  have hd_fr: "\<not> is_digit (hd (fr @ u @ rest))"
    using fr hd_u by (auto simp: fraction_def unit_char_def)
  note num = takeWhile_split [OF ds(1), of "fr @ u @ rest", OF disjI2, OF hd_fr]
  have stop: "rest = [] \<or> \<not> unit_char (hd rest)"
    using rest by (auto simp: begins_term_def unit_char_def)
  note unit = takeWhile_split [where P = unit_char and xs = u, OF _ stop]
  obtain fs where fs: "split_fraction (fr @ u @ rest) = (fs, u @ rest)" "the (parse_digits 0 fs) * k div 10 ^ length fs = x"
  proof (cases "fr = []")
    case True
    then have "split_fraction (fr @ u @ rest) = ([], u @ rest)" "x = 0"
      using hd_u fr by (cases u; auto simp: split_fraction_def unit_char_def fraction_def)+
    then show ?thesis
      using that [of "[]"] by simp
  next
    case False
    then obtain fs f where f: "fr = CHR ''.'' # fs" "list_all is_digit fs" "parse_digits 0 fs = Some f" "x = f * k div 10 ^ length fs"
      using fr by (auto simp: fraction_def)
    have "u @ rest = [] \<or> \<not> is_digit (hd (u @ rest))"
      using hd_u by (simp add: unit_char_def)
    then have "split_fraction (fr @ u @ rest) = (fs, u @ rest)"
      using takeWhile_split [OF f(2), of "u @ rest"] by (simp add: f(1) split_fraction_def)
    with f that [of fs] show ?thesis by simp
  qed
  have "n * k \<le> 2 ^ 63"
    using bound by simp
  then have "n \<le> 2 ^ 63 div k"
    using uc by (simp add: less_eq_div_iff_mult_less_eq)
  then show ?thesis
    using bound uc ds(2,3) u unit fs
    by (subst parse_terms.simps) (simp add: num not_less Let_def add.assoc)
qed

subsection \<open>Numbers and fractions as they are written\<close>

lemma show_nat_digits: "list_all is_digit (show_nat n)"
proof (induction n rule: show_nat.induct)
  case (1 n)
  have "is_digit (digit_char k)" if "k < 10" for k
    using that by (simp add: is_digit_def)
  with 1 show ?case
    by (subst show_nat.simps) simp
qed

lemma show_nat_reads: "parse_digits 0 (show_nat n) = Some n"
  by (simp add: parse_digits_show)

lemma pad_digits_digits: "list_all is_digit (pad_digits w n)"
  using show_nat_digits [of n] by (auto simp: pad_digits_def list_all_iff is_digit_def)

text \<open>Trailing zeros of a fraction do not matter.\<close>

lemma trailing_zeros:
  assumes "list_all is_digit ds" and "parse_digits 0 ds = Some r"
  obtains fs f where "rev (dropWhile (\<lambda>c. c = CHR ''0'') (rev ds)) = fs" and "list_all is_digit fs"
    and "parse_digits 0 fs = Some f" and "length fs \<le> length ds" and "f * 10 ^ (length ds - length fs) = r"
proof -
  have "\<exists>f. parse_digits 0 (rev (dropWhile (\<lambda>c. c = CHR ''0'') (rev ds))) = Some f \<and>
      length (rev (dropWhile (\<lambda>c. c = CHR ''0'') (rev ds))) \<le> length ds \<and>
      f * 10 ^ (length ds - length (rev (dropWhile (\<lambda>c. c = CHR ''0'') (rev ds)))) = r"
    using assms(2)
  proof (induction ds arbitrary: r rule: rev_induct)
    case (snoc c ds)
    show ?case
    proof (cases "c = CHR ''0''")
      case True
      then obtain r0 where r0: "parse_digits 0 ds = Some r0" "r = 10 * r0"
        using snoc.prems by (auto simp: parse_digits_append digit_val_def split: option.splits)
      with snoc.IH [OF r0(1)] True show ?thesis
        by (auto simp: Suc_diff_le)
    qed (use snoc.prems in auto)
  qed simp
  moreover have "list_all is_digit (rev (dropWhile (\<lambda>c. c = CHR ''0'') (rev ds)))"
    using assms(1) by (auto simp: list_all_iff dest: set_dropWhileD)
  ultimately show thesis
    using that by blast
qed

lemma fmtFrac_fraction: "fraction (fmtFrac v prec) (10 ^ prec) (v mod 10 ^ prec)"
proof (cases "v mod 10 ^ prec = 0")
  case True
  then show ?thesis by (simp add: fmtFrac_def fraction_def)
next
  case False
  let ?r = "v mod 10 ^ prec"
  have len: "length (pad_digits prec ?r) = prec" and val: "parse_digits 0 (pad_digits prec ?r) = Some ?r"
    using False length_pad_digits [of prec ?r] by (cases "prec = 0"; simp add: pad_digits_parse)+
  obtain fs f where fs: "rev (dropWhile (\<lambda>c. c = CHR ''0'') (rev (pad_digits prec ?r))) = fs" "list_all is_digit fs"
    "parse_digits 0 fs = Some f" "length fs \<le> prec" "f * 10 ^ (prec - length fs) = ?r"
    using trailing_zeros [OF pad_digits_digits val] unfolding len by metis
  have "f * 10 ^ prec div 10 ^ length fs = ?r"
    using fs(4,5) by (metis (no_types, lifting) le_add_diff_inverse2 mult.assoc nonzero_mult_div_cancel_right power_add power_not_zero zero_neq_numeral)
  then show ?thesis
    using False fs by (auto simp: fmtFrac_def fraction_def Let_def)
qed

subsection \<open>Shortening keeps the meaning\<close>

text \<open>The text of a non-negative duration after \<^verbatim>\<open>formatDuration\<close> has dropped zero seconds and zero minutes.\<close>

definition short_clock :: "nat \<Rightarrow> string" where
  "short_clock u =
     (let s = u div 10 ^ 9; m = s div 60; h = m div 60;
          seconds = show_nat (s mod 60) @ fmtFrac u 9 @ ''s''
      in if m = 0 then seconds
         else
           (if 0 < h then show_nat h @ ''h'' else '''') @
           (if s mod 60 = 0 \<and> fmtFrac u 9 = '''' then
              (if 0 < h \<and> m mod 60 = 0 then '''' else show_nat (m mod 60) @ ''m'')
            else show_nat (m mod 60) @ ''m'' @ seconds))"

lemma last_separator:
  "c \<notin> set y \<Longrightarrow> c \<notin> set z \<Longrightarrow> suffix (c # z) (x @ c # y) \<longleftrightarrow> y = z"
  by (auto simp: suffix_def append_eq_append_conv2 Cons_eq_append_conv append_eq_Cons_conv)

lemma suffix_absent: "c \<notin> set s \<Longrightarrow> c \<in> set t \<Longrightarrow> \<not> suffix t s"
  by (auto simp: suffix_def)

lemma letter_absent [simp]:
  "c \<in> {CHR ''h'', CHR ''m'', CHR ''s'', CHR ''-'', CHR ''+''} \<Longrightarrow> c \<notin> set (show_nat n)"
  "c \<in> {CHR ''h'', CHR ''m'', CHR ''s'', CHR ''-'', CHR ''+''} \<Longrightarrow> c \<notin> set (fmtFrac v prec)"
proof -
  have d: "\<not> is_digit c" if "c \<in> {CHR ''h'', CHR ''m'', CHR ''s'', CHR ''-'', CHR ''+''}"
    using that by (auto simp: is_digit_def digit_val_def)
  show "c \<in> {CHR ''h'', CHR ''m'', CHR ''s'', CHR ''-'', CHR ''+''} \<Longrightarrow> c \<notin> set (show_nat n)"
    using d show_nat_digits [of n] by (auto simp: list_all_iff)
  show "c \<in> {CHR ''h'', CHR ''m'', CHR ''s'', CHR ''-'', CHR ''+''} \<Longrightarrow> c \<notin> set (fmtFrac v prec)"
    using d fmtFrac_fraction [of v prec] by (fastforce simp: fraction_def list_all_iff)
qed

lemma show_nat_zero: "show_nat n @ t = ''0'' \<longleftrightarrow> n = 0 \<and> t = ''''"
proof -
  have "show_nat n = ''0'' \<longleftrightarrow> n = 0"
    using parse_digits_show [of 0 n] by (auto simp: show_nat.simps [of 0] digit_char_def char_of_def bit_0)
  then show ?thesis
    by (auto simp: append_eq_Cons_conv)
qed

definition shorten :: "string \<Rightarrow> string" where
  "shorten s =
     (let s = (if suffix ''m0s'' s then TrimSuffix s ''0s'' else s)
      in if suffix ''h0m'' s then TrimSuffix s ''0m'' else s)"

lemma formatDuration_shorten: "formatDuration d = shorten (Duration_String d)"
  by (simp add: formatDuration_def shorten_def)

lemma TrimSuffix_append: "TrimSuffix (s @ t) t = s"
  by (simp add: TrimSuffix_def suffix_def)

lemma shorten_same: "\<not> suffix ''m0s'' s \<Longrightarrow> \<not> suffix ''h0m'' s \<Longrightarrow> shorten s = s"
  by (simp add: shorten_def)

lemma shorten_unit:
  "shorten (s @ ''ns'') = s @ ''ns''" "shorten (s @ ''ms'') = s @ ''ms''"
  "shorten (s @ [CHR 0xC2, CHR 0xB5, CHR ''s'']) = s @ [CHR 0xC2, CHR 0xB5, CHR ''s'']"
  by (intro shorten_same; simp add: suffix_to_prefix)+

text \<open>The sign in front of a duration has none of the letters the shortening looks for.\<close>

definition signed :: "string \<Rightarrow> bool" where
  "signed p \<longleftrightarrow> CHR ''h'' \<notin> set p \<and> CHR ''m'' \<notin> set p"

lemma shorten_seconds: "signed p \<Longrightarrow> shorten (p @ show_nat n @ fmtFrac u 9 @ ''s'') = p @ show_nat n @ fmtFrac u 9 @ ''s''"
  by (rule shorten_same, rule suffix_absent [of "CHR ''m''"]) (simp_all add: signed_def suffix_to_prefix)

definition drop_minutes :: "string \<Rightarrow> string" where
  "drop_minutes s = (if suffix ''h0m'' s then TrimSuffix s ''0m'' else s)"

lemma shorten_minutes:
  "shorten (x @ ''m'' @ show_nat n @ fmtFrac u 9 @ ''s'') =
     (if n = 0 \<and> fmtFrac u 9 = '''' then drop_minutes (x @ ''m'') else x @ ''m'' @ show_nat n @ fmtFrac u 9 @ ''s'')"
proof -
  let ?s = "x @ ''m'' @ show_nat n @ fmtFrac u 9 @ ''s''"
  have "suffix ''m0s'' ?s \<longleftrightarrow> (show_nat n @ fmtFrac u 9) @ ''s'' = ''0'' @ ''s''"
    using last_separator [of "CHR ''m''" "show_nat n @ fmtFrac u 9 @ ''s''" "''0s''" x] by simp
  then have "suffix ''m0s'' ?s \<longleftrightarrow> n = 0 \<and> fmtFrac u 9 = ''''"
    unfolding append_same_eq show_nat_zero .
  moreover have "TrimSuffix ?s ''0s'' = x @ ''m''" if "n = 0" "fmtFrac u 9 = ''''"
    using TrimSuffix_append [of "x @ ''m''" "''0s''"] that show_nat_zero [of 0 "''''"] by simp
  moreover have "\<not> suffix ''h0m'' ?s"
    by (simp add: suffix_to_prefix)
  ultimately show ?thesis
    by (simp add: shorten_def drop_minutes_def)
qed

lemma drop_minutes_plain: "signed p \<Longrightarrow> drop_minutes (p @ show_nat m @ ''m'') = p @ show_nat m @ ''m''"
  using suffix_absent [of "CHR ''h''" "p @ show_nat m @ ''m''" "''h0m''"] by (simp add: drop_minutes_def signed_def)

lemma drop_minutes_hours:
  "drop_minutes (x @ ''h'' @ show_nat m @ ''m'') = x @ ''h'' @ (if m = 0 then '''' else show_nat m @ ''m'')"
proof -
  have "suffix ''h0m'' (x @ ''h'' @ show_nat m @ ''m'') \<longleftrightarrow> (show_nat m @ '''') @ ''m'' = ''0'' @ ''m''"
    using last_separator [of "CHR ''h''" "show_nat m @ ''m''" "''0m''" x] by simp
  then have "suffix ''h0m'' (x @ ''h'' @ show_nat m @ ''m'') \<longleftrightarrow> m = 0"
    unfolding append_same_eq show_nat_zero by simp
  moreover have "TrimSuffix (x @ ''h'' @ show_nat 0 @ ''m'') ''0m'' = x @ ''h''"
    using TrimSuffix_append [of "x @ ''h''" "''0m''"] show_nat_zero [of 0 "''''"] by simp
  ultimately show ?thesis
    by (simp add: drop_minutes_def)
qed

definition short_duration :: "nat \<Rightarrow> string" where
  "short_duration u =
     (if u = 0 then ''0s''
      else if u < 1000 then fmt_unit u 0 ''ns''
      else if u < 1000000 then fmt_unit u 3 [CHR 0xC2, CHR 0xB5, CHR ''s'']
      else if u < 1000000000 then fmt_unit u 6 ''ms''
      else short_clock u)"

lemma shorten_units:
  assumes "signed p"
  shows "shorten (p @ (if 0 < (m :: nat) then (if 0 < (h :: nat) then show_nat h @ ''h'' else '''') @ show_nat mm @ ''m'' else '''')
         @ show_nat ss @ fmtFrac u 9 @ ''s'') =
    p @ (if m = 0 then show_nat ss @ fmtFrac u 9 @ ''s''
         else (if 0 < h then show_nat h @ ''h'' else '''') @
           (if ss = 0 \<and> fmtFrac u 9 = '''' then (if 0 < h \<and> mm = 0 then '''' else show_nat mm @ ''m'')
            else show_nat mm @ ''m'' @ show_nat ss @ fmtFrac u 9 @ ''s''))"
proof -
  have hours: "shorten ((p @ show_nat h) @ ''h'' @ show_nat mm @ ''m'' @ show_nat ss @ fmtFrac u 9 @ ''s'') =
      p @ show_nat h @ ''h'' @ (if ss = 0 \<and> fmtFrac u 9 = '''' then (if mm = 0 then '''' else show_nat mm @ ''m'')
        else show_nat mm @ ''m'' @ show_nat ss @ fmtFrac u 9 @ ''s'')"
    using shorten_minutes [of "(p @ show_nat h) @ ''h'' @ show_nat mm" ss u]
      drop_minutes_hours [of "p @ show_nat h" mm] by simp
  have minutes: "shorten (p @ show_nat mm @ ''m'' @ show_nat ss @ fmtFrac u 9 @ ''s'') =
      p @ (if ss = 0 \<and> fmtFrac u 9 = '''' then show_nat mm @ ''m''
        else show_nat mm @ ''m'' @ show_nat ss @ fmtFrac u 9 @ ''s'')"
    using shorten_minutes [of "p @ show_nat mm" ss u] drop_minutes_plain [OF assms, of mm] by simp
  show ?thesis
    using hours minutes shorten_seconds [OF assms, of ss u] by auto
qed

lemma shorten_body:
  assumes "signed p"
  shows "shorten (p @ duration_body u) = p @ short_duration u"
proof -
  consider "u = 0" | "0 < u" "u < 1000" | "1000 \<le> u" "u < 1000000" | "1000000 \<le> u" "u < 1000000000" | "1000000000 \<le> u"
    by linarith
  then show ?thesis
  proof cases
    case 1
    have "\<not> suffix ''m0s'' (p @ ''0s'')"
      using assms by (intro suffix_absent [of "CHR ''m''"]) (simp_all add: signed_def)
    with 1 shorten_same [of "p @ ''0s''"] show ?thesis
      by (simp add: duration_body_def short_duration_def suffix_to_prefix)
  next
    case 2
    then show ?thesis
      using shorten_unit(1) [of "p @ show_nat (u div 10 ^ 0) @ fmtFrac u 0"]
      by (simp add: duration_body_def short_duration_def fmt_unit_def)
  next
    case 3
    then show ?thesis
      using shorten_unit(3) [of "p @ show_nat (u div 10 ^ 3) @ fmtFrac u 3"]
      by (simp add: duration_body_def short_duration_def fmt_unit_def)
  next
    case 4
    then show ?thesis
      using shorten_unit(2) [of "p @ show_nat (u div 10 ^ 6) @ fmtFrac u 6"]
      by (simp add: duration_body_def short_duration_def fmt_unit_def)
  next
    case 5
    then have b: "duration_body u = (let s = u div 10 ^ 9; m = s div 60; h = m div 60
         in (if 0 < m then (if 0 < h then show_nat h @ ''h'' else '''') @ show_nat (m mod 60) @ ''m'' else '''')
            @ show_nat (s mod 60) @ fmtFrac u 9 @ ''s'')" and c: "short_duration u = short_clock u"
      by (simp_all add: duration_body_def short_duration_def)
    show ?thesis
      unfolding b c short_clock_def Let_def by (rule shorten_units [OF assms])
  qed
qed

lemma formatDuration_short: "formatDuration d = (if d < 0 then ''-'' else '''') @ short_duration (nat \<bar>d\<bar>)"
  using shorten_body [of "''-''" "nat \<bar>d\<bar>"] shorten_body [of "''''" "nat \<bar>d\<bar>"]
  unfolding formatDuration_shorten Duration_String_def Let_def by (cases "d < 0") (simp_all add: signed_def)

subsection \<open>Reading back\<close>

text \<open>A number, a fraction and a unit, the way one term is written.\<close>

lemma parse_written:
  assumes "unitMap u = Some k" and "fraction fr k x" and "begins_term rest" and "d + n * k + x \<le> 2 ^ 63"
  shows "parse_terms d (show_nat n @ fr @ u @ rest) = parse_terms (d + n * k + x) rest"
  using assms by (intro parse_term) (simp_all add: show_nat_digits show_nat_reads)

lemma no_fraction: "fraction '''' k 0"
  by (simp add: fraction_def)

lemma begins_show: "begins_term (show_nat n @ t)"
  using show_nat_digits [of n] by (cases "show_nat n") (auto simp: begins_term_def)

lemma begins_Nil: "begins_term ''''"
  by (simp add: begins_term_def)

lemma parse_nothing: "parse_terms d '''' = Some d"
  by (simp add: parse_terms.simps)

lemma units:
  "unitMap ''ns'' = Some 1" "unitMap [CHR 0xC2, CHR 0xB5, CHR ''s''] = Some (10 ^ 3)" "unitMap ''ms'' = Some (10 ^ 6)"
  "unitMap ''s'' = Some (10 ^ 9)" "unitMap ''m'' = Some (60 * 10 ^ 9)" "unitMap ''h'' = Some (3600 * 10 ^ 9)"
  by (simp_all add: unitMap_def)

lemma parse_fmt_unit:
  assumes "unitMap name = Some (10 ^ prec)" and "d + u \<le> 2 ^ 63"
  shows "parse_terms d (fmt_unit u prec name) = Some (d + u)"
proof -
  have u: "d + u div 10 ^ prec * 10 ^ prec + u mod 10 ^ prec = d + u"
    unfolding add.assoc div_mult_mod_eq ..
  show ?thesis
    using parse_written [OF assms(1) fmtFrac_fraction [of u prec] begins_Nil, of d "u div 10 ^ prec"] assms(2)
    unfolding u by (simp add: fmt_unit_def parse_nothing)
qed

lemma parse_seconds:
  assumes "d + n * 10 ^ 9 + u mod 10 ^ 9 \<le> 2 ^ 63"
  shows "parse_terms d (show_nat n @ fmtFrac u 9 @ ''s'') = Some (d + n * 10 ^ 9 + u mod 10 ^ 9)"
  using parse_written [OF units(4) fmtFrac_fraction begins_Nil, of d n u] assms by (simp add: parse_nothing)

lemma parse_clock:
  assumes "u \<le> 2 ^ 63"
  shows "parse_terms 0 (short_clock u) = Some u"
proof -
  define s m h mm ss r where defs: "s = u div 10 ^ 9" "m = s div 60" "h = m div 60" "mm = m mod 60" "ss = s mod 60" "r = u mod 10 ^ 9"
  have "m = h * 60 + mm" "s = m * 60 + ss" "u = s * 10 ^ 9 + r"
    unfolding defs by (simp_all only: div_mult_mod_eq)
  then have total: "h * (3600 * 10 ^ 9) + mm * (60 * 10 ^ 9) + ss * 10 ^ 9 + r = u"
    by simp
  have secs: "parse_terms d (show_nat ss @ fmtFrac u 9 @ ''s'') = Some (d + ss * 10 ^ 9 + r)" if "d + ss * 10 ^ 9 + r \<le> 2 ^ 63" for d
    using parse_seconds [of d ss u] that by (simp add: defs)
  have mins: "parse_terms d (show_nat mm @ ''m'' @ t) = parse_terms (d + mm * (60 * 10 ^ 9)) t"
    if "begins_term t" "d + mm * (60 * 10 ^ 9) \<le> 2 ^ 63" for d t
    using parse_written [OF units(5) no_fraction that(1), of d mm] that(2) by simp
  have hours: "parse_terms 0 (show_nat h @ ''h'' @ t) = parse_terms (h * (3600 * 10 ^ 9)) t" if "begins_term t" for t
    using parse_written [OF units(6) no_fraction that, of 0 h] total assms by simp
  have frac: "r = 0" if "fmtFrac u 9 = ''''"
    using that by (simp add: fmtFrac_def Let_def defs split: if_splits)
  have clock: "short_clock u = (if m = 0 then show_nat ss @ fmtFrac u 9 @ ''s''
      else (if 0 < h then show_nat h @ ''h'' else '''') @
        (if ss = 0 \<and> fmtFrac u 9 = '''' then (if 0 < h \<and> mm = 0 then '''' else show_nat mm @ ''m'')
         else show_nat mm @ ''m'' @ show_nat ss @ fmtFrac u 9 @ ''s''))"
    by (simp only: short_clock_def Let_def defs)
  have tail: "parse_terms d (if ss = 0 \<and> fmtFrac u 9 = '''' then show_nat mm @ ''m''
        else show_nat mm @ ''m'' @ show_nat ss @ fmtFrac u 9 @ ''s'') = Some u"
    if "d = h * (3600 * 10 ^ 9)" for d
    using mins [of "''''" d] mins [of "show_nat ss @ fmtFrac u 9 @ ''s''" d] secs [of "d + mm * (60 * 10 ^ 9)"]
      begins_show [of ss] begins_Nil frac total assms that by (auto simp: parse_nothing)
  have whole: ?thesis if "0 < h" "\<not> (mm = 0 \<and> ss = 0 \<and> fmtFrac u 9 = '''')"
  proof -
    let ?t = "if ss = 0 \<and> fmtFrac u 9 = '''' then show_nat mm @ ''m'' else show_nat mm @ ''m'' @ show_nat ss @ fmtFrac u 9 @ ''s''"
    have "m \<noteq> 0"
      using that(1) by (auto simp: defs)
    then have "short_clock u = show_nat h @ ''h'' @ ?t"
      using that by (auto simp: clock)
    moreover have "begins_term ?t"
      using begins_show by simp
    ultimately show ?thesis
      using hours [of ?t] tail [OF refl] by simp
  qed
  show ?thesis
  proof (cases "h = 0")
    case True
    then show ?thesis
      using tail [of 0] secs [of 0] total assms defs(4) by (cases "m = 0") (auto simp: clock)
  next
    case False
    then have "short_clock u = show_nat h @ ''h'' @ ''''" if "mm = 0 \<and> ss = 0 \<and> fmtFrac u 9 = ''''"
      using that by (auto simp: clock defs(3))
    with False whole show ?thesis
      using hours [OF begins_Nil] total frac by (fastforce simp: parse_nothing)
  qed
qed

lemma parse_short:
  assumes "u \<le> 2 ^ 63"
  shows "parse_terms 0 (short_duration u) = Some u"
proof -
  have zero: "''0s'' = show_nat 0 @ '''' @ ''s'' @ ''''"
    using show_nat_zero [of 0 "''''"] by simp
  have "parse_terms 0 ''0s'' = Some 0"
    unfolding zero using parse_written [OF units(4) no_fraction begins_Nil, of 0 0] by (simp add: parse_nothing)
  moreover have "unitMap ''ns'' = Some (10 ^ 0)"
    using units(1) by simp
  note parse_fmt_unit [OF this, of 0 u] parse_fmt_unit [OF units(2), of 0 u] parse_fmt_unit [OF units(3), of 0 u]
  ultimately show ?thesis
    using assms parse_clock [OF assms] by (simp add: short_duration_def)
qed

lemma parse_terms_head: "parse_terms d (c # t) = Some u \<Longrightarrow> c = CHR ''.'' \<or> is_digit c"
  by (subst (asm) parse_terms.simps) (auto simp: split_fraction_def Let_def split: if_splits prod.splits)

lemma parse_terms_zero: "parse_terms d ''0'' = None"
  by (subst parse_terms.simps) (simp add: is_digit_def split_fraction_def)

lemma ParseDuration_signed:
  assumes "parse_terms 0 s = Some u" and "s \<noteq> ''''"
  shows "ParseDuration (CHR ''-'' # s) = Some (- int u)" "u < 2 ^ 63 \<Longrightarrow> ParseDuration s = Some (int u)"
proof -
  obtain c t where s: "s = c # t"
    using assms(2) by (cases s) auto
  have "c \<noteq> CHR ''-''" "c \<noteq> CHR ''+''"
    using parse_terms_head [of 0 c t] assms(1) by (auto simp: s is_digit_def digit_val_def)
  moreover have "s \<noteq> ''0''"
    using assms(1) parse_terms_zero by auto
  ultimately show "ParseDuration (CHR ''-'' # s) = Some (- int u)" "u < 2 ^ 63 \<Longrightarrow> ParseDuration s = Some (int u)"
    using assms(1) by (auto simp: ParseDuration_def s)
qed

text \<open>
  C36: A duration survives being written: for every 64-bit duration, the text \<^verbatim>\<open>formatDuration\<close> gives, from which
  zero seconds and zero minutes at the end are left out, is read by \<^verbatim>\<open>time.ParseDuration\<close> as exactly that
  duration.
\<close>

theorem formatDuration_roundtrip:
  assumes "- (2 ^ 63) \<le> d" and "d < 2 ^ 63"
  shows "ParseDuration (formatDuration d) = Some d"
proof -
  let ?u = "nat \<bar>d\<bar>"
  have read: "parse_terms 0 (short_duration ?u) = Some ?u"
    using assms by (intro parse_short) auto
  moreover have "short_duration ?u \<noteq> ''''"
    using read by (auto simp: parse_nothing short_duration_def)
  moreover have "?u < 2 ^ 63" if "\<not> d < 0"
    using assms that by auto
  ultimately show ?thesis
    using ParseDuration_signed [of "short_duration ?u" ?u] unfolding formatDuration_short by (cases "d < 0") simp_all
qed

theorem formatDuration_roundtrip_witness:
  "ParseDuration (formatDuration (90 * 60 * 10 ^ 9)) = Some (90 * 60 * 10 ^ 9)"
  using formatDuration_roundtrip [of "90 * 60 * 10 ^ 9"] by simp

end
