(* ===== verification/ConfigReport.thy ===== *)
theory ConfigReport
  imports ConfigLoad Durations
begin

text \<open>
  \<^verbatim>\<open>internal/config/report.go\<close>: the warnings about unsafe settings, the redacted
  copy of a configuration, and its renderings for logs and as YAML. URL parsing and koanf are parameters,
  as in the validation and loading theories.
\<close>

subsection \<open>Warnings\<close>

record Warning =
  Setting :: string
  Consequence :: string

definition Warning_String :: "Warning \<Rightarrow> string" where
  "Warning_String w = Setting w @ '': '' @ Consequence w"

definition Warnings :: "Config \<Rightarrow> Warning list" where
  "Warnings c =
     (if Mode (Auth c) = AuthModeDisabled then
        [\<lparr>Setting = ''auth.mode=disabled'',
          Consequence = ''mutual TLS and token verification are off; any caller that can connect may read and write every key''\<rparr>]
      else []) @
     (if InsecureAllowRemote (Auth c) then
        [\<lparr>Setting = ''auth.insecure_allow_remote=true'',
          Consequence = ''a node with authentication disabled may accept connections from the network''\<rparr>]
      else []) @
     (if \<not> TLS_Enabled (TLS c) then
        [\<lparr>Setting = ''tls.enabled=false'',
          Consequence = ''traffic is unencrypted and callers are not identified by certificate''\<rparr>]
      else []) @
     (if Fsync (Storage c) = FsyncInterval then
        [\<lparr>Setting = ''storage.fsync=interval'',
          Consequence = ''a crash can lose writes acknowledged within the last storage.fsync_interval''\<rparr>]
      else if Fsync (Storage c) = FsyncOS then
        [\<lparr>Setting = ''storage.fsync=os'',
          Consequence = ''a crash can lose any acknowledged write the operating system has not flushed''\<rparr>]
      else [])"

subsection \<open>Redaction\<close>

text \<open>Lists are values here, so a copy with copied lists is the configuration itself.\<close>

definition clone :: "Config \<Rightarrow> Config" where "clone c = c"

definition redactURL :: "'u url_pkg \<Rightarrow> string \<Rightarrow> string" where
  "redactURL U s =
     (case url_Parse U s of
        Inl _ \<Rightarrow> s
      | Inr u \<Rightarrow> if \<not> url_HasUser U u then s else url_String U (url_SetUser U ''REDACTED'' u))"

definition Redacted :: "'u url_pkg \<Rightarrow> Config \<Rightarrow> Config" where
  "Redacted U c =
     (let r = clone c;
          r = Auth_update (JWT_update (IssuerURL_update (redactURL U))) r;
          r = Auth_update (JWT_update (JWKSURL_update (redactURL U))) r
      in Observability_update (Tracing_update (OTLPEndpoint_update (redactURL U))) r)"

subsection \<open>Renderings\<close>

text \<open>A value as it is rendered: durations are written as text, everything else is kept.\<close>

definition rendered :: "field \<Rightarrow> Config \<Rightarrow> govalue option" where
  "rendered f c =
     (case valueOf f c of
        Some (VDuration d) \<Rightarrow> if f_typ f = TDuration then Some (VString (formatDuration d)) else Some (VDuration d)
      | r \<Rightarrow> r)"

definition Config_LogValue :: "'u url_pkg \<Rightarrow> Config \<Rightarrow> (string \<times> govalue) list" where
  "Config_LogValue U c =
     (let redacted = Redacted U c
      in map (\<lambda>f. (f_key f, the (rendered f redacted))) all_fields)"

fun render_fields :: "'k koanf_pkg \<Rightarrow> field list \<Rightarrow> Config \<Rightarrow> 'k \<Rightarrow> error + 'k" where
  "render_fields K [] c k = Inr k"
| "render_fields K (f # fs) c k =
     (case k_Set K (f_key f) (AnyValue (the (rendered f c))) k of
        Inl err \<Rightarrow> Inl (KV (Some (Wrap ReasonInternal err ''configuration could not be rendered'')))
      | Inr k \<Rightarrow> render_fields K fs c k)"

definition YAML :: "'k koanf_pkg \<Rightarrow> Config \<Rightarrow> error + bytes" where
  "YAML K c =
     (case render_fields K all_fields c (k_New K) of
        Inl err \<Rightarrow> Inl err
      | Inr k \<Rightarrow>
          (case k_MarshalYAML K k of
             Inl err \<Rightarrow> Inl (KV (Some (Wrap ReasonInternal err ''configuration could not be rendered'')))
           | Inr out \<Rightarrow> Inr out))"

subsection \<open>Properties\<close>

lemma Warnings_empty:
  "Warnings c = [] \<longleftrightarrow> Mode (Auth c) \<noteq> AuthModeDisabled \<and> \<not> InsecureAllowRemote (Auth c) \<and> TLS_Enabled (TLS c)
     \<and> Fsync (Storage c) \<notin> {FsyncInterval, FsyncOS}"
  by (simp add: Warnings_def)

lemma validateStorage_clean:
  "validateStorage quote c [] = [] \<Longrightarrow> Fsync (Storage c) \<in> {FsyncAlways, FsyncInterval, FsyncOS}
     \<and> (Fsync (Storage c) = FsyncInterval \<longrightarrow> 0 < Fsync_Interval (Storage c)) \<and> 0 < WALSegmentBytes (Storage c)"
  by (auto simp: validateStorage_def Let_def clean_rules split: if_splits)

text \<open>
  C37: A valid configuration raises no warning exactly when every safety setting has its safe value:
  authentication on, remote access not unlocked, TLS on, and a flush on every write.
\<close>

theorem Warnings_exact:
  assumes "Validate quote U c = None"
  shows "Warnings c = [] \<longleftrightarrow>
    Mode (Auth c) = AuthModeEnabled \<and> \<not> InsecureAllowRemote (Auth c) \<and> TLS_Enabled (TLS c) \<and> Fsync (Storage c) = FsyncAlways"
proof -
  have parts: "validateAuth quote U c [] = []" "validateStorage quote c [] = []"
    using assms by (simp_all add: Validate_None collect_violations_parts)
  have "Mode (Auth c) \<in> {AuthModeEnabled, AuthModeDisabled}"
    using validateAuth_clean [OF parts(1)] by simp
  moreover have "AuthModeEnabled \<noteq> AuthModeDisabled" "FsyncAlways \<notin> {FsyncInterval, FsyncOS}"
    by (simp_all add: setting_defs)
  ultimately show ?thesis
    using validateStorage_clean [OF parts(2)] unfolding Warnings_empty by auto
qed

theorem Warnings_exact_witness: "Warnings sample_config = []"
proof -
  have "Mode (Auth sample_config) = AuthModeEnabled \<and> \<not> InsecureAllowRemote (Auth sample_config)
      \<and> TLS_Enabled (TLS sample_config) \<and> Fsync (Storage sample_config) = FsyncAlways"
    by (simp add: sample_config_def default_defs)
  then show ?thesis
    using Warnings_exact [OF sample_config_valid] by blast
qed

text \<open>Two texts that parse as URLs with user information and agree apart from it.\<close>

definition same_but_user :: "'u url_pkg \<Rightarrow> string \<Rightarrow> string \<Rightarrow> bool" where
  "same_but_user U s t \<longleftrightarrow>
     (\<exists>u u'. url_Parse U s = Inr u \<and> url_Parse U t = Inr u' \<and> url_HasUser U u \<and> url_HasUser U u' \<and>
        url_SetUser U ''REDACTED'' u = url_SetUser U ''REDACTED'' u')"

definition with_urls :: "string \<Rightarrow> string \<Rightarrow> string \<Rightarrow> Config \<Rightarrow> Config" where
  "with_urls issuer jwks otlp c =
     Observability_update (Tracing_update (OTLPEndpoint_update (\<lambda>_. otlp)))
       (Auth_update (JWT_update (\<lambda>j. j\<lparr>IssuerURL := issuer, JWKSURL := jwks\<rparr>)) c)"

lemma redactURL_same: "same_but_user U s t \<Longrightarrow> redactURL U s = redactURL U t"
  by (auto simp: same_but_user_def redactURL_def)



text \<open>
  Redaction leaves a text that does not parse as a URL alone, credentials included; and the tracing
  endpoint need not be a URL to pass validation.
\<close>

lemma unparsable_endpoint_kept:
  "url_Parse U (OTLPEndpoint (Tracing (Observability c))) = Inl err \<Longrightarrow>
     OTLPEndpoint (Tracing (Observability (Redacted U c))) = OTLPEndpoint (Tracing (Observability c))"
  by (simp add: Redacted_def clone_def redactURL_def Let_def)

end
