(* ===== verification/Cli.thy ===== *)
theory Cli
  imports ConfigReport
begin

text \<open>
  \<^verbatim>\<open>cmd/gokvx\<close>: the command line. The cobra package, which parses arguments and picks a command, is the
  parameter \<open>execute\<close> of \<open>run\<close>; a command is its description and the function cobra calls, which returns the
  error and the text written to the output. The other commands of \<^verbatim>\<open>cmd\<close> print one line.
\<close>

subsection \<open>Output (main.go, commands.go)\<close>

definition Version :: string where "Version = ''dev''"
definition Commit :: string where "Commit = ''unknown''"
definition BuildDate :: string where "BuildDate = ''unknown''"

definition exitOK :: int where "exitOK = 0"
definition exitFailure :: int where "exitFailure = 1"

abbreviation newline :: string where "newline \<equiv> [CHR 0x0A]"

definition violation_line :: "field_violation \<Rightarrow> string" where
  "violation_line v = ''  - '' @ Field v @ '': '' @ Description_of v @ newline"

text \<open>A typed nil error would make the code panic, which is \<open>None\<close>.\<close>

definition printError :: "error \<Rightarrow> string option" where
  "printError err =
     (case errors_As err of
        None \<Rightarrow> Some (''error: '' @ error_text err @ newline)
      | Some None \<Rightarrow> None
      | Some (Some kerr) \<Rightarrow>
          (let line = ''error: '' @ Error_Message kerr;
               line = (case Error_Unwrap (Some kerr) of None \<Rightarrow> line | Some cause \<Rightarrow> line @ '': '' @ error_text cause)
           in Some (line @ newline @ concat (map violation_line (Error_Violations kerr)))))"

text \<open>Writing to an output that may fail; what was written before a failure is lost with the process.\<close>

definition cli_write :: "(string \<Rightarrow> error option) \<Rightarrow> string \<Rightarrow> error option \<times> string" where
  "cli_write out txt =
     (case out txt of Some err \<Rightarrow> (Some (Errorf_w ''main.write: '' err ''''), '''') | None \<Rightarrow> (None, txt))"

subsection \<open>Validating a configuration\<close>

definition validateConfig ::
  "(string \<Rightarrow> string) \<Rightarrow> 'u url_pkg \<Rightarrow> 'k koanf_pkg \<Rightarrow> Options \<Rightarrow> bool \<Rightarrow> error + string" where
  "validateConfig quote U K opts printEffective =
     (case Load K opts of
        Inl err \<Rightarrow> Inl (Errorf_w ''main.validateConfig: '' err '''')
      | Inr cfg \<Rightarrow>
          (case Validate quote U cfg of
             Some err \<Rightarrow> Inl (Errorf_w ''main.validateConfig: '' err '''')
           | None \<Rightarrow>
               (let report = ''configuration is valid'' @ newline @
                      concat (map (\<lambda>w. ''warning: '' @ Warning_String w @ newline) (Warnings cfg))
                in if printEffective then
                     (case YAML K (Redacted U cfg) of
                        Inl err \<Rightarrow> Inl (Errorf_w ''main.validateConfig: '' err '''')
                      | Inr yaml \<Rightarrow> Inr (report @ newline @ text_of yaml))
                   else Inr report)))"

subsection \<open>Commands\<close>

text \<open>What cobra passes to a command: the values of its flags, the flags that were set, and the output.\<close>

record invocation =
  inv_file :: string
  inv_print :: bool
  inv_flags :: "pflag list"
  inv_out :: "string \<Rightarrow> error option"

datatype command = Command (Use: string) (Short: string) (Long: string)
  (RunE: "(invocation \<Rightarrow> error option \<times> string) option") (Sub: "command list")

definition newVersionCommand :: "string \<Rightarrow> command" where
  "newVersionCommand go_version =
     Command ''version'' ''Print the version, commit, build date, and Go version'' ''''
       (Some (\<lambda>iv. cli_write (inv_out iv)
          (''gokvx '' @ Version @ newline @ ''commit: '' @ Commit @ newline @ ''built:  '' @ BuildDate @ newline @
           ''go:     '' @ go_version @ newline))) []"

definition validate_RunE ::
  "(string \<Rightarrow> string) \<Rightarrow> 'u url_pkg \<Rightarrow> 'k koanf_pkg \<Rightarrow> string list \<Rightarrow> invocation \<Rightarrow> error option \<times> string" where
  "validate_RunE quote U K environ iv =
     (case validateConfig quote U K \<lparr>File = inv_file iv, Environ = environ, Flags = Some (inv_flags iv)\<rparr> (inv_print iv) of
        Inl err \<Rightarrow> (Some err, '''')
      | Inr report \<Rightarrow> cli_write (inv_out iv) report)"

text \<open>A panic while registering flags ends the process, which is \<open>None\<close>.\<close>

definition newConfigValidateCommand ::
  "(string \<Rightarrow> string) \<Rightarrow> 'u url_pkg \<Rightarrow> 'k koanf_pkg \<Rightarrow> string list \<Rightarrow> command option" where
  "newConfigValidateCommand quote U K environ =
     (let own = [\<lparr>fd_name = ''config'', fd_default = VString '''', fd_usage = ''path of a YAML configuration file''\<rparr>,
                 \<lparr>fd_name = ''print'', fd_default = VBool False,
                  fd_usage = ''also print the effective configuration, with credentials redacted''\<rparr>]
      in case RegisterFlags own of
           None \<Rightarrow> None
         | Some (err, flags) \<Rightarrow>
             Some (Command ''validate'' ''Check a configuration without starting a node''
               (''Validate applies the configuration file, GOKVX_* environment variables, and'' @ newline @
                ''flags exactly as a starting node would, then reports every violation by key.'' @ newline @
                ''It exits non-zero if the configuration is invalid.'')
               (Some (case err of
                   None \<Rightarrow> validate_RunE quote U K environ
                 | Some err \<Rightarrow> (\<lambda>iv. (Some (Errorf_w ''main.newConfigValidateCommand: '' err ''''), '''')))) []))"

definition newConfigCommand ::
  "(string \<Rightarrow> string) \<Rightarrow> 'u url_pkg \<Rightarrow> 'k koanf_pkg \<Rightarrow> string list \<Rightarrow> command option" where
  "newConfigCommand quote U K environ =
     map_option (\<lambda>cmd. Command ''config'' ''Work with node configuration'' '''' None [cmd])
       (newConfigValidateCommand quote U K environ)"

definition newRootCommand ::
  "(command \<Rightarrow> string) \<Rightarrow> string \<Rightarrow> (string \<Rightarrow> string) \<Rightarrow> 'u url_pkg \<Rightarrow> 'k koanf_pkg \<Rightarrow> string list \<Rightarrow> command option" where
  "newRootCommand help go_version quote U K environ =
     map_option
       (\<lambda>cmd.
          let subs = [newVersionCommand go_version, cmd];
              long =
                ''gokvx runs a node of a strongly consistent, sharded key-value store.'' @ newline @ newline @
                ''Configuration comes from built-in defaults, an optional YAML file (--config),'' @ newline @
                ''GOKVX_* environment variables, and flags, each overriding the one before.'' @ newline @
                ''See docs/configuration.md for every setting.'';
              short = ''A strongly consistent, sharded key-value store''
          in Command ''gokvx'' short long
               (Some (\<lambda>iv. (None, help (Command ''gokvx'' short long None subs)))) subs)
       (newConfigCommand quote U K environ)"

text \<open>
  \<open>help\<close> is cobra's help text, whose output cannot fail the command. \<open>execute\<close> is \<^verbatim>\<open>root.Execute\<close>: it picks the command for the arguments, parses its flags and runs it. The
  result is the exit code, the standard output and the error output.
\<close>

definition run ::
  "(command \<Rightarrow> string list \<Rightarrow> error option \<times> string) \<Rightarrow> (command \<Rightarrow> string) \<Rightarrow> string \<Rightarrow> (string \<Rightarrow> string) \<Rightarrow>
    'u url_pkg \<Rightarrow> 'k koanf_pkg \<Rightarrow> string list \<Rightarrow> string list \<Rightarrow> (int \<times> string \<times> string) option" where
  "run execute help go_version quote U K args environ =
     (case newRootCommand help go_version quote U K environ of
        None \<Rightarrow> None
      | Some cmd \<Rightarrow>
          (case execute cmd args of
             (Some err, out) \<Rightarrow> map_option (\<lambda>msg. (exitFailure, out, msg)) (printError err)
           | (None, out) \<Rightarrow> Some (exitOK, out, '''')))"

subsection \<open>The other commands\<close>

definition stub_main :: "string \<Rightarrow> string" where
  "stub_main name =
     name @ '' '' @ Version @ '' (commit '' @ Commit @ '', built '' @ BuildDate @ ''): not implemented yet'' @ newline"

definition gokvxctl_main :: string where "gokvxctl_main = stub_main ''gokvxctl''"
definition kvbench_main :: string where "kvbench_main = stub_main ''kvbench''"
definition kvcheck_main :: string where "kvcheck_main = stub_main ''kvcheck''"
definition microservice1_main :: string where "microservice1_main = stub_main ''microservice1''"

subsection \<open>Properties\<close>

text \<open>The configuration commands can always be built.\<close>

lemma validate_command_built:
  "\<exists>short long. newConfigValidateCommand quote U K environ =
     Some (Command ''validate'' short long (Some (validate_RunE quote U K environ)) [])"
proof -
  let ?own = "[\<lparr>fd_name = ''config'', fd_default = VString '''', fd_usage = ''path of a YAML configuration file''\<rparr>,
     \<lparr>fd_name = ''print'', fd_default = VBool False,
      fd_usage = ''also print the effective configuration, with credentials redacted''\<rparr>]"
  have "''config'' \<notin> set key_list" "''print'' \<notin> set key_list"
    by (simp_all add: key_list_def)
  then obtain new where "RegisterFlags ?own = Some (None, ?own @ new)"
    using register_fields_ok [of all_fields ?own Defaults] keys_distinct
    unfolding RegisterFlags_def fields_keys by auto
  then show ?thesis
    by (simp add: newConfigValidateCommand_def Let_def)
qed

lemma root_command_built: "\<exists>cmd. newRootCommand help go_version quote U K environ = Some cmd"
  using validate_command_built [of quote U K environ]
  by (auto simp: newRootCommand_def newConfigCommand_def)

text \<open>
  C39: \<^verbatim>\<open>gokvx config validate\<close> on a configuration that breaks rules exits with a failure, writes nothing to the
  output, and its error output is one line followed by one line for every violation, ordered by key.
\<close>

theorem invalid_config_prints_every_violation:
  assumes "newConfigValidateCommand quote U K environ = Some validate" and "RunE validate = Some runE"
    and "\<And>cmd. newRootCommand help go_version quote U K environ = Some cmd \<Longrightarrow> execute cmd args = runE iv"
    and "Load K \<lparr>File = inv_file iv, Environ = environ, Flags = Some (inv_flags iv)\<rparr> = Inr cfg"
    and "collect_violations quote U cfg \<noteq> []"
  shows "run execute help go_version quote U K args environ =
    Some (exitFailure, '''', ''error: configuration is invalid'' @ newline @
      concat (map violation_line (sort_key Field (collect_violations quote U cfg))))"
proof -
  let ?vs = "sort_key Field (collect_violations quote U cfg)"
  let ?e = "WithViolations (New ReasonInvalidArgument ''configuration is invalid'') ?vs"
  obtain cmd where cmd: "newRootCommand help go_version quote U K environ = Some cmd"
    using root_command_built by blast
  have "runE = validate_RunE quote U K environ"
    using assms(1,2) validate_command_built [of quote U K environ] by auto
  moreover have "Validate quote U cfg = Some (KV (Some ?e))"
    using assms(5) by (simp add: Validate_def violations_err_def Let_def)
  ultimately have "execute cmd args = (Some (Errorf_w ''main.validateConfig: '' (KV (Some ?e)) ''''), '''')"
    using assms(3) [OF cmd] assms(4) by (simp add: validate_RunE_def validateConfig_def)
  moreover have "kmessage ?e = ''configuration is invalid''" "kviolations ?e = ?vs" "kcause ?e = None"
    by (simp_all add: New_def Let_def)
  ultimately show ?thesis
    by (simp add: run_def cmd printError_def Errorf_w_def Error_Message_def Error_Unwrap_def Error_Violations_def Let_def)
qed

text \<open>For the example: a command line whose first argument chain leads to the validate command.\<close>

definition run_validate :: "command \<Rightarrow> string list \<Rightarrow> error option \<times> string" where
  "run_validate cmd args =
     (case RunE (hd (Sub (Sub cmd ! 1))) of
        Some f \<Rightarrow> f \<lparr>inv_file = '''', inv_print = False, inv_flags = [], inv_out = (\<lambda>_. None)\<rparr>
      | None \<Rightarrow> (None, ''''))"

text \<open>And a store that ignores assignments and decodes to the defaults.\<close>

definition defaults_koanf :: "unit koanf_pkg" where
  "defaults_koanf =
     \<lparr>k_New = (), k_Set = (\<lambda>_ _ k. Inr k), k_LoadYAML = (\<lambda>_. Inr ()), k_Keys = (\<lambda>_. []), k_Get = (\<lambda>_ _. AnyNil),
      k_Unmarshal = (\<lambda>_. Inr Defaults), k_MarshalYAML = (\<lambda>_. Inr [])\<rparr>"

lemma Load_defaults: "Load defaults_koanf \<lparr>File = '''', Environ = [], Flags = Some []\<rparr> = Inr Defaults"
proof -
  have "set_fields defaults_koanf fs c k = Inr k" for fs c k
    by (induction fs) (simp_all add: koanf_set_def defaults_koanf_def)
  then show ?thesis
    by (simp add: Load_def setDefaults_def violations_err_def) (simp add: defaults_koanf_def)
qed

theorem invalid_config_prints_every_violation_witness:
  "\<exists>lines. run run_validate (\<lambda>_. '''') ''go1.27'' id text_urls defaults_koanf [''config'', ''validate''] [] =
     Some (exitFailure, '''', ''error: configuration is invalid'' @ newline @ lines)"
proof -
  let ?iv = "\<lparr>inv_file = '''', inv_print = False, inv_flags = [], inv_out = (\<lambda>_. None)\<rparr>"
  obtain short long where v: "newConfigValidateCommand id text_urls defaults_koanf [] =
      Some (Command ''validate'' short long (Some (validate_RunE id text_urls defaults_koanf [])) [])"
    using validate_command_built by blast
  have ex: "run_validate cmd args = validate_RunE id text_urls defaults_koanf [] ?iv"
    if "newRootCommand (\<lambda>_. '''') ''go1.27'' id text_urls defaults_koanf [] = Some cmd" for cmd args
    using that v by (auto simp: newRootCommand_def newConfigCommand_def run_validate_def Let_def)
  have bad: "collect_violations id text_urls Defaults \<noteq> []"
    using Defaults_need_deployment_values [of id text_urls] by (metis list.distinct(1) list.simps(8))
  have "run run_validate (\<lambda>_. '''') ''go1.27'' id text_urls defaults_koanf [''config'', ''validate''] [] =
    Some (exitFailure, '''', ''error: configuration is invalid'' @ newline @
      concat (map violation_line (sort_key Field (collect_violations id text_urls Defaults))))"
    by (rule invalid_config_prints_every_violation [OF v, where iv = ?iv and runE = "validate_RunE id text_urls defaults_koanf []"])
      (simp_all only: command.sel ex bad Load_defaults invocation.simps not_False_eq_True)
  then show ?thesis by blast
qed

text \<open>
  A configuration that loads and validates is reported as valid, with one line per unsafe setting; the
  effective configuration follows only on request, and then from the redacted copy.
\<close>

lemma validateConfig_valid:
  assumes "Load K opts = Inr cfg" and "Validate quote U cfg = None"
  shows "validateConfig quote U K opts False = Inr (''configuration is valid'' @ newline @
      concat (map (\<lambda>w. ''warning: '' @ Warning_String w @ newline) (Warnings cfg)))"
  using assms by (simp add: validateConfig_def)

end
