(* ===== verification/Logging.thy ===== *)
theory Logging
  imports DataDir ConfigTypes ConfigKeys
begin

text \<open>
  \<^verbatim>\<open>internal/observability/log.go\<close>: the node's logger. The standard library's \<^verbatim>\<open>log/slog\<close> is modelled as far as the
  code uses it: levels and their names, the attributes and groups a handler carries, and the record a
  handler writes. An event is what one line of output shows; each attribute carries the groups it is
  nested in. Time stamps and the encoding as JSON or text are left out.
\<close>

subsection \<open>Levels\<close>

text \<open>
  Names are compared after \<^verbatim>\<open>strings.ToUpper\<close>; besides the ASCII letters, the dotless i (U+0131) is the only
  character whose upper case is a letter of a level name.
\<close>

fun fold_dotless :: "string \<Rightarrow> string" where
  "fold_dotless (a # b # s) =
     (if a = CHR 0xC4 \<and> b = CHR 0xB1 then CHR ''I'' # fold_dotless s else a # fold_dotless (b # s))"
| "fold_dotless s = s"

definition level_name :: "string \<Rightarrow> int option" where
  "level_name name =
     (let up = ToUpper (fold_dotless name)
      in if up = ''DEBUG'' then Some (-4) else if up = ''INFO'' then Some 0
         else if up = ''WARN'' then Some 4 else if up = ''ERROR'' then Some 8 else None)"

definition level_parse :: "(string \<Rightarrow> string) \<Rightarrow> string \<Rightarrow> error + int" where
  "level_parse quote s =
     (let name = takeWhile (\<lambda>c. c \<noteq> CHR ''+'' \<and> c \<noteq> CHR ''-'') s;
          rest = dropWhile (\<lambda>c. c \<noteq> CHR ''+'' \<and> c \<noteq> CHR ''-'') s;
          offset = (if rest = [] then Some 0 else Atoi rest)
      in (case offset of
            None \<Rightarrow> Inl (Errorf_w (''slog: level string '' @ quote s @ '': '') (TextErr ''invalid offset'') '''')
          | Some n \<Rightarrow>
              (case level_name name of
                 None \<Rightarrow> Inl (Errorf_w (''slog: level string '' @ quote s @ '': '') (TextErr ''unknown name'') '''')
               | Some l \<Rightarrow> Inr (wrap_int (l + n)))))"

subsection \<open>Handlers\<close>

type_synonym attr = "string \<times> string"

record slog_record =
  r_level :: int
  r_msg :: string
  r_attrs :: "attr list"

record event =
  ev_level :: int
  ev_msg :: string
  ev_attrs :: "(string list \<times> attr) list"

text \<open>The handlers of slog: a format, the attributes added so far, and the groups that are open.\<close>

record slog_handler =
  h_format :: string
  h_attrs :: "(string list \<times> attr) list"
  h_groups :: "string list"

definition handler_WithAttrs :: "attr list \<Rightarrow> slog_handler \<Rightarrow> slog_handler" where
  "handler_WithAttrs attrs h = h\<lparr>h_attrs := h_attrs h @ map (Pair (h_groups h)) attrs\<rparr>"

definition handler_WithGroup :: "string \<Rightarrow> slog_handler \<Rightarrow> slog_handler" where
  "handler_WithGroup name h = (if name = '''' then h else h\<lparr>h_groups := h_groups h @ [name]\<rparr>)"

definition handler_Handle :: "slog_record \<Rightarrow> slog_handler \<Rightarrow> event" where
  "handler_Handle r h =
     \<lparr>ev_level = r_level r, ev_msg = r_msg r, ev_attrs = h_attrs h @ map (Pair (h_groups h)) (r_attrs r)\<rparr>"

subsection \<open>The context handler\<close>

text \<open>A context holds the attributes stored under \<^verbatim>\<open>contextKey\<close>, if any.\<close>

type_synonym log_context = "attr list option"

definition WithAttrs :: "log_context \<Rightarrow> attr list \<Rightarrow> log_context" where
  "WithAttrs ctx attrs =
     (let existing = (case ctx of None \<Rightarrow> [] | Some xs \<Rightarrow> xs)
      in Some (existing @ attrs))"

record contextHandler =
  Handler :: slog_handler

definition contextHandler_Handle :: "log_context \<Rightarrow> slog_record \<Rightarrow> contextHandler \<Rightarrow> event" where
  "contextHandler_Handle ctx r h =
     (let r = (case ctx of Some attrs \<Rightarrow> r\<lparr>r_attrs := r_attrs r @ attrs\<rparr> | None \<Rightarrow> r)
      in handler_Handle r (Handler h))"

definition contextHandler_WithAttrs :: "attr list \<Rightarrow> contextHandler \<Rightarrow> contextHandler" where
  "contextHandler_WithAttrs attrs h = \<lparr>Handler = handler_WithAttrs attrs (Handler h)\<rparr>"

definition contextHandler_WithGroup :: "string \<Rightarrow> contextHandler \<Rightarrow> contextHandler" where
  "contextHandler_WithGroup name h = \<lparr>Handler = handler_WithGroup name (Handler h)\<rparr>"

subsection \<open>The logger\<close>

text \<open>The logger and the level variable, whose value may change later.\<close>

definition NewLogger ::
  "(string \<Rightarrow> string) \<Rightarrow> Log_settings \<Rightarrow> string \<Rightarrow> error + contextHandler \<times> int" where
  "NewLogger quote cfg nodeID =
     (case level_parse quote (Level cfg) of
        Inl err \<Rightarrow> Inl (KV (Some (Wrap ReasonInvalidArgument err (''unknown log level: '' @ Level cfg))))
      | Inr level \<Rightarrow>
          if Format cfg = ''json'' \<or> Format cfg = ''text'' then
            Inr (contextHandler_WithAttrs [(''node_id'', nodeID)]
                   \<lparr>Handler = \<lparr>h_format = Format cfg, h_attrs = [], h_groups = []\<rparr>\<rparr>, level)
          else Inl (KV (Some (New ReasonInvalidArgument (''unknown log format: '' @ Format cfg)))))"

text \<open>\<^verbatim>\<open>slog.Logger.Log\<close> with the level variable at \<open>lowest\<close>: a record below it is not handled.\<close>

definition log_event :: "int \<Rightarrow> log_context \<Rightarrow> slog_record \<Rightarrow> contextHandler \<Rightarrow> event option" where
  "log_event lowest ctx r h = (if r_level r < lowest then None else Some (contextHandler_Handle ctx r h))"

subsection \<open>Properties\<close>

text \<open>The loggers derived from another one.\<close>

inductive derived :: "contextHandler \<Rightarrow> contextHandler \<Rightarrow> bool" for h0 where
  same: "derived h0 h0"
| attrs: "derived h0 h \<Longrightarrow> derived h0 (contextHandler_WithAttrs as h)"
| group: "derived h0 h \<Longrightarrow> derived h0 (contextHandler_WithGroup name h)"

lemma derived_attrs: "derived h0 h \<Longrightarrow> prefix (h_attrs (Handler h0)) (h_attrs (Handler h))"
proof (induction rule: derived.induct)
  case (attrs h as)
  then show ?case
    by (auto simp: contextHandler_WithAttrs_def handler_WithAttrs_def intro: prefix_prefix)
qed (simp_all add: contextHandler_WithGroup_def handler_WithGroup_def)


lemma level_names:
  "level_parse quote ''debug'' = Inr (-4)" "level_parse quote ''info'' = Inr 0" "level_parse quote ''warn'' = Inr 4"
  "level_parse quote ''error'' = Inr 8"
  by (simp_all add: level_parse_def level_name_def ToUpper_def char_of_def bit_0 wrap_int_def)


lemma NewLogger_accepts:
  "Level cfg \<in> {''debug'', ''info'', ''warn'', ''error''} \<Longrightarrow> Format cfg \<in> {''json'', ''text''} \<Longrightarrow>
     \<exists>h level. NewLogger quote cfg nodeID = Inr (h, level)"
  by (auto simp: NewLogger_def level_names)

end
