(* ===== verification/Spec2Isabelle.thy ===== *)
theory Spec2Isabelle
  imports LogConcurrency Pebble DataDir Clock Cli Logging
begin

text \<open>
  A verification library for gokvx, a key-value node written in Go. The repository holds the parts a
  node is built from: an error model, the slot function, the storage layer (a command log with crash
  recovery, storage engines, the data directory), the configuration, the clock, the logger and the
  command line. There is no server yet that joins them; the parts meet in the settings the configuration
  hands to them, in the errors they return, and in the clock that drives the log's background flush.

  \<^bold>\<open>Program and theories.\<close> Every definition carries the name of the Go function, method or type it
  models, with the receiver in front where a name occurs twice; paths are below \<^verbatim>\<open>internal\<close>.

  \<^item> \<^verbatim>\<open>kverr/\<close>: theory \<open>Kverr\<close>. Kinds, the reason registry, error values with their cause chain,
    \<open>errors_Is\<close> and \<open>ReasonOf\<close>. An error is a value of the datatype \<open>error\<close>; every raise of the source is
    a branch that returns one.
  \<^item> \<^verbatim>\<open>shard/slot.go\<close>: theory \<open>Shard\<close>, with the table-driven CRC32C in \<open>Crc32c\<close>.
  \<^item> \<^verbatim>\<open>storage/record.go\<close>, \<^verbatim>\<open>segment.go\<close>: theories \<open>LogRecord\<close> and \<open>Segment\<close>. Bytes are 8-bit words, indexes
    64-bit words that wrap around.
  \<^item> \<^verbatim>\<open>storage/log.go\<close>, \<^verbatim>\<open>log_recovery.go\<close>, \<^verbatim>\<open>syncdir_unix.go\<close>: theories \<open>Disk\<close>, \<open>Log\<close> and \<open>Recovery\<close> hold the
    code; \<open>LogState\<close>, \<open>LogWrite\<close>, \<open>LogOpen\<close>, \<open>LogReplay\<close>, \<open>Durability\<close>, \<open>CommandLog\<close>, \<open>LogSafety\<close> and
    \<open>LogConcurrency\<close> what is proved of it. The record \<open>Log\<close> has the fields the mutex guards; a method is a
    function from the log and the \<open>world\<close> to its result, the new log and the new world.
  \<^item> \<^verbatim>\<open>storage/engine.go\<close>, \<^verbatim>\<open>storagetest/\<close>, \<^verbatim>\<open>storage/pebble.go\<close>: theories \<open>Engine\<close>, \<open>MemEngine\<close> and \<open>Pebble\<close>. The
    interfaces are records of functions, the contract suite is a computation over them.
  \<^item> \<^verbatim>\<open>storage/version.go\<close>, \<^verbatim>\<open>syncdir_windows.go\<close>: theory \<open>DataDir\<close>.
  \<^item> \<^verbatim>\<open>config/\<close>: theories \<open>ConfigTypes\<close>, \<open>ConfigDefaults\<close>, \<open>ConfigValidate\<close>, \<open>ConfigKeys\<close>, \<open>ConfigLoad\<close>,
    \<open>Durations\<close> and \<open>ConfigReport\<close>, with the address functions of package \<^verbatim>\<open>net\<close> in \<open>NetAddr\<close>. A struct is a
    record; its koanf tags are a type description, from which the keys are derived as the code derives
    them by reflection.
  \<^item> \<^verbatim>\<open>clock/clocktest/fake.go\<close>: theory \<open>Clock\<close>. \<^verbatim>\<open>observability/log.go\<close>: theory \<open>Logging\<close>. \<^verbatim>\<open>cmd/\<close>: theory \<open>Cli\<close>.
  \<^item> \<open>Prelude\<close> has the shared vocabulary; this theory has the properties that span components.

  \<^bold>\<open>The file system.\<close> \<open>Disk\<close> keeps for each file of a directory the bytes a read sees and the bytes that
  survive a crash. A script of outcomes decides which system calls fail and how much of a failed write
  arrives; since an operation stops at its first failed call, quantifying over scripts covers a crash at
  every point inside an operation. A crash keeps the flushed bytes of a file, appends arbitrary bytes to a
  file with unflushed changes, may drop a file whose directory entry was not flushed, and may bring back
  the old name of a renamed file.

  \<^bold>\<open>What is shown of the command log.\<close> A record is accepted exactly when it is the encoding of what is
  returned, every torn record and every damage within four bytes is detected, and the search for a later
  record finds one exactly when it exists. An append adds one record or leaves the log failed for good;
  without system errors it succeeds. Replay delivers exactly the records from an index on, and, as
  \<open>LogConcurrency\<close> shows, those present at the call whatever other goroutines do meanwhile. The relation
  \<open>reach\<close> of \<open>Durability\<close> contains every history of opens, appends, flushes, closes, restarts and crashes;
  its invariant, by rule induction, gives that promised commands survive every crash. Opening truncates a
  torn tail and refuses damage in the middle. The locales \<open>record_codec\<close>, \<open>record_scanner\<close> and
  \<open>command_log\<close> state the interfaces between these layers and are interpreted on the code.

  \<^bold>\<open>What is shown of the other parts.\<close> Both engines pass the whole contract, and the locale \<open>engine\<close> carries
  the part of the proof they share; the memory engine reads the last write and iterates a range in order.
  Preparing a data directory is recoverable at every crash, its marker is never half written and stays
  once the run that wrote it has succeeded, and foreign data is never touched. A valid configuration is secure, every violation is reported, the last
  source that sets a key wins, keys and variables are unambiguous and typed, durations are read back as
  they were written, credentials stay out of the logs. What the configuration accepts the components
  accept. The fake clock always returns from an advance, and with it the interval policy bounds what a
  crash can lose. Slots are in range and follow the brace rule. Errors are well formed and match
  sentinels by reason. Every log line carries the node's identity.

  \<^bold>\<open>Bounds and fuel.\<close> The log theorems keep indexes below \<open>2 ^ 62\<close> and files below \<open>2 ^ 62\<close> bytes, so that
  no index wraps around; a log that appends a million commands a second reaches that after more than a
  hundred thousand years. All loops are total functions with a measure, except the catch-up loop of the
  fake clock, a \<open>partial_function\<close> that is proved to return. The parser of IPv6 addresses has fuel eight,
  the number of groups of an address. Durations and Go integers are mathematical integers, with
  \<open>wrap_int\<close> where the code multiplies.

  \<^bold>\<open>Parameters.\<close> Code outside the repository is a parameter: the Pebble database, koanf and its YAML parser,
  pflag's flags, cobra's choice of a command, URL parsing, and \<^verbatim>\<open>strconv.Quote\<close>, which only shapes messages.
  What is relied on is a named hypothesis (\<open>pebble_documented\<close>, \<open>koanf_documented\<close> and the like), and the
  witness of each theorem instantiates it.

  \<^bold>\<open>Not modelled.\<close> The generated protocol code below \<^verbatim>\<open>gen/\<close>, which nothing in the repository uses yet; the
  system clock, a pass-through to package \<^verbatim>\<open>time\<close>; the byte-level encoding of log lines and YAML; sharing
  of slices and maps between caller and callee, which are values here; the mutexes, whose effect is that
  operations are taken one at a time (a replay, which reads without the mutex, is treated step by step).
  Opening a log is only considered on a directory whose earlier changes have reached the disk;
  \<open>LogSafety\<close> shows what goes wrong otherwise.

  \<^bold>\<open>Shortcomings found.\<close> \<open>LogSafety\<close>: \<open>embedded_record_blocks_recovery\<close>, \<open>reopen_skips_directory_sync\<close>,
  \<open>reopen_skips_tail_sync\<close>. \<open>DataDir\<close>: \<open>marker_flush_not_repeated\<close>. \<open>ConfigValidate\<close>:
  \<open>Validate_accepts_NaN_and_overflow\<close>. \<open>ConfigReport\<close>: \<open>unparsable_endpoint_kept\<close>.

  \<^bold>\<open>Next.\<close> A decoder for the configuration, to prove that the YAML rendering loads back; the sharing of
  byte slices between callers and engines as an explicit store.
\<close>

section \<open>Settings that reach the components\<close>

lemma LogDir_not_Nil: "LogDir d \<noteq> ''''"
  by (auto simp: LogDir_def filepath_Join_def filepath_Clean_def logDir_def Let_def split: list.splits)

lemma validateCluster_clean:
  "validateCluster quote c [] = [] \<Longrightarrow>
     SlotCount (Cluster c) \<noteq> 0 \<and> PreVote (Raft (Cluster c)) \<and> CheckQuorum (Raft (Cluster c)) \<and>
     0 < HeartbeatTicks (Raft (Cluster c)) \<and>
     wrap_int (10 * HeartbeatTicks (Raft (Cluster c))) \<le> ElectionTicks (Raft (Cluster c))"
  by (auto simp: validateCluster_def Let_def clean_rules fold_clean [OF rule_peer] not_less split: if_splits)

lemma validateObservability_clean:
  "validateObservability quote c [] = [] \<Longrightarrow>
     Level (Log (Observability c)) \<in> {''debug'', ''info'', ''warn'', ''error''} \<and>
     Format (Log (Observability c)) \<in> {''json'', ''text''}"
  by (auto simp: validateObservability_def Let_def clean_rules split: if_splits)



section \<open>The background flush and its clock\<close>

text \<open>The ticks waiting in a ticker's channel, as the syncer receives them.\<close>

abbreviation waiting_ticks :: "nat \<Rightarrow> Fake \<Rightarrow> syncer_event list" where
  "waiting_ticks i f \<equiv> map (\<lambda>_. TickEvent) (ticker_C i f)"

lemma due_tick:
  assumes "clock_reach start f" and "i \<in> set (Fake.live f)" and "interval (tickers f ! i) \<le> d"
  obtains f' x where "Advance d f = Some f'" and "ticker_C i f' = [x]"
proof -
  note s = clock_reach_sound [OF assms(1)]
  have i: "i < length (tickers f)" "waiting (now f) (tickers f ! i)" "sound_ticker (now f) (tickers f ! i)"
    using s assms(2) by (auto simp: sound_clock_def)
  then have d: "0 \<le> d" "next_tick (tickers f ! i) \<le> now f + d"
    using assms(3) by (auto simp: waiting_def sound_ticker_def)
  obtain f' where f': "Advance d f = Some f'" "fired (now f + d) (tickers f ! i) (tickers f' ! i)"
    using Advance_ends [OF s d(1)] i(1) assms(2) by metis
  have "length (ticker_C i f') = 1"
    using f'(2) i(3) d(2) by (auto simp: fired_def ticker_C_def sound_ticker_def le_Suc_eq)
  with f'(1) that show thesis
    by (auto simp: length_Suc_conv)
qed


text \<open>A log with the interval policy and one command that is not flushed yet.\<close>

definition interval_cfg :: LogConfig where
  "interval_cfg = demo_cfg\<lparr>lc_Fsync := FsyncInterval, lc_FsyncInterval := 10\<rparr>"

definition one_ticker :: Fake where
  "one_ticker = \<lparr>now = 0, tickers = [\<lparr>interval = 10, next_tick = 10, chan = []\<rparr>], live = [0]\<rparr>"

lemma interval_log:
  "\<exists>l w. reach id interval_cfg {(1, [7])} {} (Some l) w \<and> healthy l \<and> l_dirty l \<and> faults w = []"
proof -
  obtain r w0 where op: "OpenLog id None interval_cfg no_files = (r, w0)"
    by fastforce
  have "LogConfig_Validate interval_cfg = None"
    by (simp add: interval_cfg_def LogConfig_Validate_def log_problems_def demo_cfg_def)
  with op no_files_empty obtain l0 where l0: "r = Inr l0" "opened interval_cfg l0" "faults w0 = []"
    "LogState.live 1 [] [] (new_file\<lparr>entry_durable := True\<rparr>) l0 w0"
    by (cases rule: OpenLog_empty) (auto simp: sound_def)
  have r0: "reach id interval_cfg {} {} None no_files"
    by (intro reach.boot) (simp_all add: no_files_def)
  have "settled no_files" "small_files no_files"
    by (simp_all add: settled_def small_files_def no_files_empty)
  note r1 = reach.open_log [OF r0 this op, unfolded l0(1), simplified]
  have room: "unat (l_lastIndex l0) < 2 ^ 62" and len: "length [7 :: byte] \<le> maxCommandSize" and z: "l_lastIndex l0 = 0"
    using l0(4) by (simp_all add: LogState.live_def next_index_def record_sizes)
  obtain j l1 w1 where app: "Append None [7] l0 w0 = (Inr j, l1, w1)" "faults w1 = []"
    using Append_sound [OF consistentI [OF l0(4)] room len l0(3)] .
  note ok = Append_ok [OF consistentI [OF l0(4)] room app(1)]
  have "l_dirty l1"
    using app l0 z by (auto simp: Append_def Let_def record_sizes write_record_def LogState.live_def opened_def interval_cfg_def
        demo_cfg_def next_index_def writable_def FsyncAlways_def FsyncInterval_def
        split: if_splits prod.splits option.splits)
  moreover have "healthy l1"
    using ok live_healthy by (auto simp: consistent_def)
  ultimately show ?thesis
    using reach.append [OF r1 room app(1) refl] app(2) ok z by (auto simp: promised_def)
qed


end
